(* ===== verification/Sara_Prelude.thy ===== *)
theory Sara_Prelude
  imports Main "HOL-Library.Char_ord" "HOL-Library.List_Lexorder"
begin

text \<open>
  The vocabulary every component shares.

  \<^item> Go's \<^verbatim>\<open>string\<close> and \<^verbatim>\<open>[]byte\<close> are both byte sequences; both are modelled as
    \<open>string\<close>, a list of 8-bit \<open>char\<close>s.
  \<^item> A run-time panic is a value: a pure expression that may panic has type
    \<open>'a go\<close>, a statement that changes state has type \<open>('s, 'a) op\<close>.  A panic keeps
    the state it happened in, because \<^verbatim>\<open>recover\<close> resumes from that state.
  \<^item> \<open>strings.Split\<close>, \<open>strings.Join\<close>, \<open>bytes.Contains\<close>, \<open>bytes.Index\<close> and
    \<^verbatim>\<open>fmt.Sprintf("%d")\<close> of the Go standard library.
\<close>

named_theorems go_defs \<open>unfolding rules of the panic and state combinators\<close>
named_theorems frame \<open>what an operation leaves unchanged\<close>

type_synonym bytes = string

subsection \<open>Panics and stateful operations\<close>

datatype panic =
    NilDeref          \<comment> \<open>nil pointer dereference\<close>
  | TypeAssertion     \<comment> \<open>interface conversion\<close>
  | IndexRange        \<comment> \<open>index or slice bounds out of range\<close>
  | SendClosed        \<comment> \<open>send on closed channel\<close>
  | BadArgument       \<comment> \<open>a library routine rejects its argument\<close>

type_synonym 'a go = "panic + 'a"

datatype ('a, 's) outcome = Ret 'a 's | Panic panic 's

type_synonym ('s, 'a) op = "'s \<Rightarrow> ('a, 's) outcome"

definition returnM :: "'a \<Rightarrow> ('s, 'a) op" where
  "returnM a s = Ret a s"

definition bindM :: "('s, 'a) op \<Rightarrow> ('a \<Rightarrow> ('s, 'b) op) \<Rightarrow> ('s, 'b) op" where
  "bindM m f s = (case m s of Ret a t \<Rightarrow> f a t | Panic p t \<Rightarrow> Panic p t)"

definition seqM :: "('s, 'a) op \<Rightarrow> ('s, 'b) op \<Rightarrow> ('s, 'b) op" where
  "seqM m k = bindM m (\<lambda>_. k)"

definition liftM :: "'a go \<Rightarrow> ('s, 'a) op" where
  "liftM g s = (case g of Inl p \<Rightarrow> Panic p s | Inr a \<Rightarrow> Ret a s)"

definition modifyM :: "('s \<Rightarrow> 's) \<Rightarrow> ('s, unit) op" where
  "modifyM f s = Ret () (f s)"

definition getsM :: "('s \<Rightarrow> 'a) \<Rightarrow> ('s, 'a) op" where
  "getsM f s = Ret (f s) s"

definition whenM :: "bool \<Rightarrow> ('s, unit) op \<Rightarrow> ('s, unit) op" where
  "whenM b m = (if b then m else returnM ())"

fun forM :: "'a list \<Rightarrow> ('a \<Rightarrow> ('s, unit) op) \<Rightarrow> ('s, unit) op" where
  "forM [] f = returnM ()"
| "forM (x # xs) f = seqM (f x) (forM xs f)"

definition bindG :: "'a go \<Rightarrow> ('a \<Rightarrow> 'b go) \<Rightarrow> 'b go" where
  "bindG g f = (case g of Inl p \<Rightarrow> Inl p | Inr a \<Rightarrow> f a)"

text \<open>The state an operation ends in, whether it returned or panicked.\<close>

fun state_of :: "('a, 's) outcome \<Rightarrow> 's" where
  "state_of (Ret a s) = s"
| "state_of (Panic p s) = s"

fun is_ret :: "('a, 's) outcome \<Rightarrow> bool" where
  "is_ret (Ret a s) = True"
| "is_ret (Panic p s) = False"

declare returnM_def [go_defs] bindM_def [go_defs] seqM_def [go_defs] liftM_def [go_defs]
  modifyM_def [go_defs] getsM_def [go_defs] whenM_def [go_defs] bindG_def [go_defs]

text \<open>Evaluation of the combinators on a state, one step at a time.\<close>

named_theorems steps \<open>evaluation rules of the combinators\<close>

lemma bindM_getsM [steps]: "bindM (getsM f) g s = g (f s) s"
  by (simp add: go_defs)

lemma bindM_returnM [steps]: "bindM (returnM a) g s = g a s"
  by (simp add: go_defs)

lemma bindM_liftM_Inr [steps]: "bindM (liftM (Inr a)) g s = g a s"
  by (simp add: go_defs)

lemma bindM_liftM_Inl [steps]: "bindM (liftM (Inl p)) g s = Panic p s"
  by (simp add: go_defs)

lemma bindM_modifyM [steps]: "bindM (modifyM f) g s = g () (f s)"
  by (simp add: go_defs)

lemma seqM_modifyM [steps]: "seqM (modifyM f) m s = m (f s)"
  by (simp add: go_defs)

lemma seqM_returnM [steps]: "seqM (returnM a) m s = m s"
  by (simp add: go_defs)

lemma bindM_Ret_step: "m s = Ret a t \<Longrightarrow> bindM m g s = g a t"
  by (simp add: bindM_def)

lemma seqM_Ret_step: "m s = Ret a t \<Longrightarrow> seqM m k s = k t"
  by (simp add: go_defs)

lemma bindM_RetI: "m s = Ret a t \<Longrightarrow> g a t = x \<Longrightarrow> bindM m g s = x"
  by (simp add: bindM_def)

lemma seqM_RetI: "m s = Ret a t \<Longrightarrow> k t = x \<Longrightarrow> seqM m k s = x"
  by (simp add: seqM_Ret_step)

lemma bindM_Panic_step: "m s = Panic p t \<Longrightarrow> bindM m g s = Panic p t" "m s = Panic p t \<Longrightarrow> seqM m k s = Panic p t"
  by (simp_all add: go_defs)

text \<open>When does an operation return?  The equations take a run apart step by step.\<close>

named_theorems runs \<open>equations for a returning run of a combinator\<close>

lemma bindM_Ret [runs]: "bindM m f s = Ret b u \<longleftrightarrow> (\<exists>a t. m s = Ret a t \<and> f a t = Ret b u)"
  by (simp add: bindM_def split: outcome.splits)

lemma seqM_Ret [runs]: "seqM m k s = Ret b u \<longleftrightarrow> (\<exists>a t. m s = Ret a t \<and> k t = Ret b u)"
  by (simp add: seqM_def bindM_Ret)

lemma returnM_Ret [runs]: "returnM a s = Ret b u \<longleftrightarrow> b = a \<and> u = s"
  by (auto simp: returnM_def)

lemma liftM_Ret [runs]: "liftM g s = Ret b u \<longleftrightarrow> g = Inr b \<and> u = s"
  by (auto simp: liftM_def split: sum.splits)

lemma getsM_Ret [runs]: "getsM f s = Ret b u \<longleftrightarrow> b = f s \<and> u = s"
  by (auto simp: getsM_def)

lemma modifyM_Ret [runs]: "modifyM f s = Ret b u \<longleftrightarrow> u = f s"
  by (auto simp: modifyM_def)

text \<open>
  A property of states that every part of an operation keeps is kept by the operation:
  the frame and invariant proofs of the components are applications of these rules.
\<close>

definition keeps :: "('s \<Rightarrow> bool) \<Rightarrow> ('s, 'a) op \<Rightarrow> bool" where
  "keeps I m \<longleftrightarrow> (\<forall>s. I s \<longrightarrow> I (state_of (m s)))"

lemma keepsD: "keeps I m \<Longrightarrow> I s \<Longrightarrow> I (state_of (m s))"
  by (simp add: keeps_def)

lemma keeps_returnM [intro, simp]: "keeps I (returnM a)"
  by (simp add: keeps_def returnM_def)

lemma keeps_getsM [intro, simp]: "keeps I (getsM f)"
  by (simp add: keeps_def getsM_def)

lemma keeps_liftM [intro, simp]: "keeps I (liftM g)"
  by (auto simp: keeps_def liftM_def split: sum.splits)

lemma keeps_modifyM: "(\<And>s. I s \<Longrightarrow> I (f s)) \<Longrightarrow> keeps I (modifyM f)"
  by (simp add: keeps_def modifyM_def)

lemma keeps_bindM: "keeps I m \<Longrightarrow> (\<And>a. keeps I (f a)) \<Longrightarrow> keeps I (bindM m f)"
  by (fastforce simp: keeps_def bindM_def split: outcome.splits)

lemma keeps_seqM: "keeps I m \<Longrightarrow> keeps I k \<Longrightarrow> keeps I (seqM m k)"
  by (simp add: seqM_def keeps_bindM)

lemma keeps_whenM: "(b \<Longrightarrow> keeps I m) \<Longrightarrow> keeps I (whenM b m)"
  by (simp add: whenM_def)

lemma keeps_forM: "(\<And>x. x \<in> set xs \<Longrightarrow> keeps I (f x)) \<Longrightarrow> keeps I (forM xs f)"
  by (induction xs) (auto intro: keeps_seqM)

lemma forM_Ret: "(\<And>x s. x \<in> set xs \<Longrightarrow> \<exists>t. f x s = Ret () t) \<Longrightarrow> \<exists>t. forM xs f s = Ret () t"
proof (induction xs arbitrary: s)
  case (Cons x xs)
  obtain t where "f x s = Ret () t" using Cons.prems by force
  then show ?case using Cons by (simp add: seqM_Ret_step)
qed (simp add: returnM_def)

lemmas keeps_rules = keeps_bindM keeps_seqM keeps_whenM keeps_forM

subsection \<open>Strings of the Go standard library\<close>

text \<open>\<open>strings.Split(s, sep)\<close> and \<open>bytes.Split(s, sep)\<close> for a one-byte separator.\<close>

fun split_on :: "char \<Rightarrow> bytes \<Rightarrow> bytes list" where
  "split_on c [] = [[]]"
| "split_on c (x # xs) =
     (if x = c then [] # split_on c xs
      else (case split_on c xs of [] \<Rightarrow> [[x]] | y # ys \<Rightarrow> (x # y) # ys))"

text \<open>\<open>strings.Join(xs, sep)\<close>.\<close>

fun join :: "bytes \<Rightarrow> bytes list \<Rightarrow> bytes" where
  "join sep [] = []"
| "join sep [x] = x"
| "join sep (x # y # ys) = x @ sep @ join sep (y # ys)"

text \<open>\<open>bytes.HasPrefix(s, p)\<close>, the test behind \<open>bytes.Index(s, p) == 0\<close>.\<close>

fun has_prefix :: "bytes \<Rightarrow> bytes \<Rightarrow> bool" where
  "has_prefix [] s = True"
| "has_prefix (p # ps) [] = False"
| "has_prefix (p # ps) (x # xs) = (p = x \<and> has_prefix ps xs)"

text \<open>\<open>bytes.Index(s, sub)\<close>: the first position of \<open>sub\<close> in \<open>s\<close>, \<open>None\<close> for -1.\<close>

fun index_of :: "bytes \<Rightarrow> bytes \<Rightarrow> nat option" where
  "index_of sub [] = (if sub = [] then Some 0 else None)"
| "index_of sub (x # xs) =
     (if has_prefix sub (x # xs) then Some 0 else map_option Suc (index_of sub xs))"

text \<open>\<open>bytes.Contains(s, sub)\<close>.\<close>

definition contains :: "bytes \<Rightarrow> bytes \<Rightarrow> bool" where
  "contains s sub = (index_of sub s \<noteq> None)"

lemma split_on_ne [simp]: "split_on c s \<noteq> []"
  by (cases s) (auto split: list.splits)

lemma split_on_no_sep: "c \<notin> set s \<Longrightarrow> split_on c s = [s]"
  by (induction s) auto

lemma split_on_parts: "p \<in> set (split_on c s) \<Longrightarrow> c \<notin> set p"
  by (induction s arbitrary: p) (auto split: if_splits list.splits)

lemma split_on_hd_append [simp]:
  "c \<notin> set p \<Longrightarrow> split_on c (p @ c # s) = p # split_on c s"
  by (induction p) auto

lemma split_on_single_iff: "length (split_on c s) = 1 \<longleftrightarrow> c \<notin> set s"
  by (induction s) (auto split: list.splits)

lemma split_on_many_iff: "Suc 0 < length (split_on c s) \<longleftrightarrow> c \<in> set s"
proof -
  have "length (split_on c s) \<noteq> 0" by simp
  with split_on_single_iff [of c s] show ?thesis by linarith
qed

lemma join_split_on: "join [c] (split_on c s) = s"
proof (induction s)
  case (Cons x xs)
  then show ?case
    by (cases "split_on c xs"; cases "tl (split_on c xs)") (auto simp: neq_Nil_conv)
qed simp

lemma split_on_join:
  "xs \<noteq> [] \<Longrightarrow> (\<And>x. x \<in> set xs \<Longrightarrow> c \<notin> set x) \<Longrightarrow> split_on c (join [c] xs) = xs"
  by (induction "[c]" xs rule: join.induct) (auto simp: split_on_no_sep)

lemma has_prefix_iff: "has_prefix p s \<longleftrightarrow> (\<exists>t. s = p @ t)"
  by (induction p s rule: has_prefix.induct) auto

lemma has_prefix_append [simp]: "has_prefix p (p @ s)"
  by (simp add: has_prefix_iff)

lemma index_of_0_iff: "index_of sub s = Some 0 \<longleftrightarrow> has_prefix sub s"
  by (cases s; cases sub) auto

lemma contains_Cons: "contains (x # xs) sub \<longleftrightarrow> has_prefix sub (x # xs) \<or> contains xs sub"
  by (auto simp: contains_def)

lemma contains_iff: "contains s sub \<longleftrightarrow> (\<exists>u v. s = u @ sub @ v)"
proof (induction s)
  case Nil
  then show ?case by (auto simp: contains_def)
next
  case (Cons x xs)
  have "(\<exists>u v. x # xs = u @ sub @ v) \<longleftrightarrow>
      (\<exists>v. x # xs = sub @ v) \<or> (\<exists>u v. xs = u @ sub @ v)" (is "?l \<longleftrightarrow> ?a \<or> ?b")
  proof
    assume ?l
    then obtain u v where "x # xs = u @ sub @ v" by blast
    then show "?a \<or> ?b" by (cases u) auto
  next
    assume "?a \<or> ?b"
    then show ?l
    proof
      assume ?a
      then show ?l by (metis append_Nil)
    next
      assume ?b
      then show ?l by (metis append_Cons)
    qed
  qed
  then show ?case by (simp add: contains_Cons has_prefix_iff Cons.IH)
qed

subsection \<open>Decimal numbers\<close>

text \<open>\<open>fmt.Sprintf("%d", n)\<close> and \<open>strconv.Itoa\<close>.\<close>

definition digit :: "nat \<Rightarrow> char" where
  "digit d = char_of (48 + d)"

fun dec_nat :: "nat \<Rightarrow> string" where
  "dec_nat n = (if n < 10 then [digit n] else dec_nat (n div 10) @ [digit (n mod 10)])"

declare dec_nat.simps [simp del]

definition dec_int :: "int \<Rightarrow> string" where
  "dec_int i = (if i < 0 then CHR ''-'' # dec_nat (nat (- i)) else dec_nat (nat i))"

definition is_digit :: "char \<Rightarrow> bool" where
  "is_digit c \<longleftrightarrow> 48 \<le> (of_char c :: nat) \<and> (of_char c :: nat) \<le> 57"

definition digit_val :: "char \<Rightarrow> nat" where
  "digit_val c = of_char c - 48"

definition dec_val :: "string \<Rightarrow> nat" where
  "dec_val s = foldl (\<lambda>n c. 10 * n + digit_val c) 0 s"

lemma of_char_digit [simp]: "d < 10 \<Longrightarrow> (of_char (digit d) :: nat) = 48 + d"
  by (simp add: digit_def)

lemma digit_props [simp]: "d < 10 \<Longrightarrow> is_digit (digit d)" "d < 10 \<Longrightarrow> digit_val (digit d) = d"
  by (simp_all add: is_digit_def digit_val_def)

lemma dec_nat_ne [simp]: "dec_nat n \<noteq> []"
  by (subst dec_nat.simps) simp

lemma dec_nat_digits: "c \<in> set (dec_nat n) \<Longrightarrow> is_digit c"
proof (induction n arbitrary: c rule: dec_nat.induct)
  case (1 n)
  then show ?case
    by (cases "n < 10") (auto simp: dec_nat.simps [of n])
qed

lemma dec_val_snoc [simp]: "dec_val (s @ [c]) = 10 * dec_val s + digit_val c"
  by (simp add: dec_val_def)

lemma dec_val_dec_nat [simp]: "dec_val (dec_nat n) = n"
proof (induction n rule: dec_nat.induct)
  case (1 n)
  show ?case
  proof (cases "n < 10")
    case True
    then show ?thesis by (simp add: dec_nat.simps [of n] dec_val_def)
  next
    case False
    with 1 show ?thesis by (simp add: dec_nat.simps [of n])
  qed
qed

lemma dec_nat_inj: "dec_nat m = dec_nat n \<longleftrightarrow> m = n"
  by (metis dec_val_dec_nat)

end
