(* ===== verification/Json.thy ===== *)
theory Json
  imports Sara_Prelude
begin

text \<open>
  The part of Go's \<^verbatim>\<open>encoding/json\<close> and \<^verbatim>\<open>unicode/utf8\<close> the program uses.

  \<^item> \<open>decode_rune\<close>, \<open>encode_rune\<close>: \<^verbatim>\<open>utf8.DecodeRune\<close> and \<^verbatim>\<open>utf8.EncodeRune\<close>.
  \<^item> \<open>marshal\<close>: \<^verbatim>\<open>json.Marshal\<close> of a value tree; strings are escaped as Go does it,
    \<^verbatim>\<open><\<close>, \<^verbatim>\<open>>\<close> and \<^verbatim>\<open>&\<close> included.
  \<^item> \<open>json_parse\<close>: the scanner and the unquoting of \<^verbatim>\<open>json.Unmarshal\<close>, giving a value
    tree; a number keeps its literal.  The recursion is bounded by a fuel of twice the
    input's length, which \<open>parse_enough\<close> shows to be enough for every input.
\<close>

subsection \<open>UTF-8\<close>

abbreviation byte :: "char \<Rightarrow> nat" where "byte c \<equiv> of_char c"

definition RuneError :: nat where "RuneError = 0xFFFD"

definition is_cont :: "char \<Rightarrow> bool" where
  "is_cont c \<longleftrightarrow> 0x80 \<le> byte c \<and> byte c \<le> 0xBF"

text \<open>The second byte's range depends on the first: no overlong forms, no surrogates.\<close>

definition second_ok :: "nat \<Rightarrow> char \<Rightarrow> bool" where
  "second_ok x c \<longleftrightarrow>
     (if x = 0xE0 then 0xA0 else if x = 0xF0 then 0x90 else 0x80) \<le> byte c \<and>
     byte c \<le> (if x = 0xED then 0x9F else if x = 0xF4 then 0x8F else 0xBF)"

fun decode_rune :: "bytes \<Rightarrow> nat \<times> nat" where
  "decode_rune [] = (RuneError, 0)"
| "decode_rune (c0 # cs) =
     (let x = byte c0 in
      if x < 0x80 then (x, 1)
      else if 0xC2 \<le> x \<and> x \<le> 0xDF then
        (case cs of c1 # _ \<Rightarrow>
           if is_cont c1 then ((x - 0xC0) * 64 + (byte c1 - 0x80), 2) else (RuneError, 1)
         | _ \<Rightarrow> (RuneError, 1))
      else if 0xE0 \<le> x \<and> x \<le> 0xEF then
        (case cs of c1 # c2 # _ \<Rightarrow>
           if second_ok x c1 \<and> is_cont c2
           then ((x - 0xE0) * 4096 + (byte c1 - 0x80) * 64 + (byte c2 - 0x80), 3)
           else (RuneError, 1)
         | _ \<Rightarrow> (RuneError, 1))
      else if 0xF0 \<le> x \<and> x \<le> 0xF4 then
        (case cs of c1 # c2 # c3 # _ \<Rightarrow>
           if second_ok x c1 \<and> is_cont c2 \<and> is_cont c3
           then ((x - 0xF0) * 262144 + (byte c1 - 0x80) * 4096
                  + (byte c2 - 0x80) * 64 + (byte c3 - 0x80), 4)
           else (RuneError, 1)
         | _ \<Rightarrow> (RuneError, 1))
      else (RuneError, 1))"

definition is_surrogate :: "nat \<Rightarrow> bool" where
  "is_surrogate r \<longleftrightarrow> 0xD800 \<le> r \<and> r < 0xE000"

definition encode_rune :: "nat \<Rightarrow> bytes" where
  "encode_rune r0 =
     (let r = (if is_surrogate r0 \<or> 0x10FFFF < r0 then RuneError else r0) in
      if r < 0x80 then [char_of r]
      else if r < 0x800 then [char_of (0xC0 + r div 64), char_of (0x80 + r mod 64)]
      else if r < 0x10000 then
        [char_of (0xE0 + r div 4096), char_of (0x80 + r div 64 mod 64), char_of (0x80 + r mod 64)]
      else
        [char_of (0xF0 + r div 262144), char_of (0x80 + r div 4096 mod 64),
         char_of (0x80 + r div 64 mod 64), char_of (0x80 + r mod 64)])"

subsection \<open>Value trees and Marshal\<close>

datatype json =
    JNull
  | JBool bool
  | JNum string
  | JStr bytes
  | JArr "json list"
  | JObj "(bytes \<times> json) list"

definition QUOTE :: char where "QUOTE = CHR 0x22"
definition BSLASH :: char where "BSLASH = CHR 0x5C"

definition hex_digit :: "nat \<Rightarrow> char" where
  "hex_digit n = (if n < 10 then char_of (48 + n) else char_of (87 + n))"

definition escape_ascii :: "char \<Rightarrow> bytes" where
  "escape_ascii c =
     (if 0x20 \<le> byte c \<and> c \<noteq> BSLASH \<and> c \<noteq> QUOTE \<and>
         c \<noteq> CHR ''<'' \<and> c \<noteq> CHR ''>'' \<and> c \<noteq> CHR ''&'' then [c]
      else if c = BSLASH \<or> c = QUOTE then [BSLASH, c]
      else if c = CHR 0x0A then [BSLASH, CHR ''n'']
      else if c = CHR 0x0D then [BSLASH, CHR ''r'']
      else if c = CHR 0x09 then [BSLASH, CHR ''t'']
      else BSLASH # ''u00'' @ [hex_digit (byte c div 16), hex_digit (byte c mod 16)])"

fun json_body :: "bytes \<Rightarrow> bytes" where
  "json_body [] = []"
| "json_body (c # cs) =
     (if byte c < 0x80 then escape_ascii c @ json_body cs
      else (let (r, n) = decode_rune (c # cs) in
        if r = RuneError \<and> n = 1 then (BSLASH # ''ufffd'') @ json_body cs
        else if r = 0x2028 \<or> r = 0x2029 then
          (BSLASH # ''u202'' @ [hex_digit (r mod 16)]) @ json_body (drop (n - 1) cs)
        else take n (c # cs) @ json_body (drop (n - 1) cs)))"

definition json_string :: "bytes \<Rightarrow> bytes" where
  "json_string s = QUOTE # json_body s @ [QUOTE]"

fun marshal :: "json \<Rightarrow> bytes"
and marshal_elems :: "json list \<Rightarrow> bytes"
and marshal_members :: "(bytes \<times> json) list \<Rightarrow> bytes" where
  "marshal JNull = ''null''"
| "marshal (JBool b) = (if b then ''true'' else ''false'')"
| "marshal (JNum l) = l"
| "marshal (JStr s) = json_string s"
| "marshal (JArr xs) = CHR ''['' # marshal_elems xs @ '']''"
| "marshal (JObj kvs) = CHR ''{'' # marshal_members kvs @ ''}''"
| "marshal_elems [] = []"
| "marshal_elems [x] = marshal x"
| "marshal_elems (x # y # ys) = marshal x @ '','' @ marshal_elems (y # ys)"
| "marshal_members [] = []"
| "marshal_members [(k, v)] = json_string k @ '':'' @ marshal v"
| "marshal_members ((k, v) # y # ys) =
     json_string k @ '':'' @ marshal v @ '','' @ marshal_members (y # ys)"

subsection \<open>Parsing\<close>

definition is_ws :: "char \<Rightarrow> bool" where
  "is_ws c \<longleftrightarrow> c = CHR '' '' \<or> c = CHR 0x09 \<or> c = CHR 0x0A \<or> c = CHR 0x0D"

definition skip_ws :: "bytes \<Rightarrow> bytes" where
  "skip_ws s = dropWhile is_ws s"

definition hex_val :: "char \<Rightarrow> nat option" where
  "hex_val c =
     (let x = byte c in
      if 48 \<le> x \<and> x \<le> 57 then Some (x - 48)
      else if 97 \<le> x \<and> x \<le> 102 then Some (x - 87)
      else if 65 \<le> x \<and> x \<le> 70 then Some (x - 55)
      else None)"

fun hex4 :: "bytes \<Rightarrow> (nat \<times> bytes) option" where
  "hex4 (a # b # c # d # rest) =
     (case (hex_val a, hex_val b, hex_val c, hex_val d) of
        (Some w, Some x, Some y, Some z) \<Rightarrow> Some (w * 4096 + x * 256 + y * 16 + z, rest)
      | _ \<Rightarrow> None)"
| "hex4 _ = None"

definition simple_escape :: "char \<Rightarrow> char option" where
  "simple_escape e =
     (if e = QUOTE \<or> e = BSLASH \<or> e = CHR ''/'' then Some e
      else if e = CHR ''b'' then Some (CHR 0x08)
      else if e = CHR ''f'' then Some (CHR 0x0C)
      else if e = CHR ''n'' then Some (CHR 0x0A)
      else if e = CHR ''r'' then Some (CHR 0x0D)
      else if e = CHR ''t'' then Some (CHR 0x09)
      else None)"

text \<open>A low surrogate escape that completes the high surrogate \<open>r\<close>, with the rune of the pair.\<close>

definition pair_escape :: "nat \<Rightarrow> bytes \<Rightarrow> (nat \<times> bytes) option" where
  "pair_escape r s =
     (case s of
        a # b # s' \<Rightarrow>
          if a = BSLASH \<and> b = CHR ''u'' then
            (case hex4 s' of
               Some (r2, rest) \<Rightarrow>
                 if 0xD800 \<le> r \<and> r < 0xDC00 \<and> 0xDC00 \<le> r2 \<and> r2 < 0xE000
                 then Some ((r - 0xD800) * 1024 + (r2 - 0xDC00) + 0x10000, rest) else None
             | None \<Rightarrow> None)
          else None
      | _ \<Rightarrow> None)"

definition emit :: "bytes \<Rightarrow> (bytes \<times> bytes) option \<Rightarrow> (bytes \<times> bytes) option" where
  "emit b res = map_option (\<lambda>(s, rest). (b @ s, rest)) res"

lemma hex4_length: "hex4 s = Some (r, rest) \<Longrightarrow> length rest < length s"
  by (induction s rule: hex4.induct) (auto split: option.splits)

lemma pair_escape_length: "pair_escape r s = Some (r', rest) \<Longrightarrow> length rest < length s"
  by (auto simp: pair_escape_def dest!: hex4_length split: list.splits if_splits option.splits)

text \<open>
  The rest of a string literal after its opening quote: the unquoted bytes and what
  follows the closing quote.
\<close>

function jstr :: "bytes \<Rightarrow> (bytes \<times> bytes) option" where
  "jstr [] = None"
| "jstr (c # cs) =
     (if c = QUOTE then Some ([], cs)
      else if c = BSLASH then
        (case cs of
           [] \<Rightarrow> None
         | e # es \<Rightarrow>
             if e = CHR ''u'' then
               (case hex4 es of
                  None \<Rightarrow> None
                | Some (r, rest) \<Rightarrow>
                    if is_surrogate r then
                      (case pair_escape r rest of
                         Some (r', rest') \<Rightarrow> emit (encode_rune r') (jstr rest')
                       | None \<Rightarrow> emit (encode_rune RuneError) (jstr rest))
                    else emit (encode_rune r) (jstr rest))
             else
               (case simple_escape e of
                  None \<Rightarrow> None
                | Some b \<Rightarrow> emit [b] (jstr es)))
      else if byte c < 0x20 then None
      else if byte c < 0x80 then emit [c] (jstr cs)
      else (case decode_rune (c # cs) of
              (r, n) \<Rightarrow> emit (encode_rune r) (jstr (drop (n - 1) cs))))"
  by pat_completeness auto
termination
  by (relation "measure length") (auto dest!: hex4_length pair_escape_length)

definition parse_frac :: "bytes \<Rightarrow> (bytes \<times> bytes) option" where
  "parse_frac s =
     (case s of
        c # cs \<Rightarrow>
          if c = CHR ''.'' then
            (if takeWhile is_digit cs = [] then None
             else Some (c # takeWhile is_digit cs, dropWhile is_digit cs))
          else Some ([], s)
      | [] \<Rightarrow> Some ([], []))"

definition parse_exp :: "bytes \<Rightarrow> (bytes \<times> bytes) option" where
  "parse_exp s =
     (case s of
        c # cs \<Rightarrow>
          if c = CHR ''e'' \<or> c = CHR ''E'' then
            (let sgn = (if cs \<noteq> [] \<and> (hd cs = CHR ''+'' \<or> hd cs = CHR ''-'') then [hd cs] else []);
                 ds = drop (length sgn) cs
             in if takeWhile is_digit ds = [] then None
                else Some (c # sgn @ takeWhile is_digit ds, dropWhile is_digit ds))
          else Some ([], s)
      | [] \<Rightarrow> Some ([], []))"

definition parse_int :: "bytes \<Rightarrow> (bytes \<times> bytes) option" where
  "parse_int s =
     (case s of
        [] \<Rightarrow> None
      | c # cs \<Rightarrow>
          if c = CHR ''0'' then Some ([c], cs)
          else if is_digit c then Some (takeWhile is_digit s, dropWhile is_digit s)
          else None)"

definition parse_number :: "bytes \<Rightarrow> (bytes \<times> bytes) option" where
  "parse_number s =
     (let sgn = (if s \<noteq> [] \<and> hd s = CHR ''-'' then ''-'' else []) in
      case parse_int (drop (length sgn) s) of
        None \<Rightarrow> None
      | Some (i, s1) \<Rightarrow>
          (case parse_frac s1 of
             None \<Rightarrow> None
           | Some (f, s2) \<Rightarrow>
               (case parse_exp s2 of
                  None \<Rightarrow> None
                | Some (e, s3) \<Rightarrow> Some (sgn @ i @ f @ e, s3))))"

definition parse_lit :: "bytes \<Rightarrow> json \<Rightarrow> bytes \<Rightarrow> (json \<times> bytes) option" where
  "parse_lit lit v s = (if has_prefix lit s then Some (v, drop (length lit) s) else None)"

fun parse_value :: "nat \<Rightarrow> bytes \<Rightarrow> (json \<times> bytes) option"
and parse_elems :: "nat \<Rightarrow> bytes \<Rightarrow> (json list \<times> bytes) option"
and parse_members :: "nat \<Rightarrow> bytes \<Rightarrow> ((bytes \<times> json) list \<times> bytes) option" where
  "parse_value 0 s = None"
| "parse_value (Suc n) s =
     (case skip_ws s of
        [] \<Rightarrow> None
      | c # cs \<Rightarrow>
          if c = CHR ''{'' then
            (if skip_ws cs \<noteq> [] \<and> hd (skip_ws cs) = CHR ''}'' then Some (JObj [], tl (skip_ws cs))
             else map_option (\<lambda>(kvs, r). (JObj kvs, r)) (parse_members n cs))
          else if c = CHR ''['' then
            (if skip_ws cs \<noteq> [] \<and> hd (skip_ws cs) = CHR '']'' then Some (JArr [], tl (skip_ws cs))
             else map_option (\<lambda>(xs, r). (JArr xs, r)) (parse_elems n cs))
          else if c = QUOTE then map_option (\<lambda>(t, r). (JStr t, r)) (jstr cs)
          else if c = CHR ''n'' then parse_lit ''null'' JNull (c # cs)
          else if c = CHR ''t'' then parse_lit ''true'' (JBool True) (c # cs)
          else if c = CHR ''f'' then parse_lit ''false'' (JBool False) (c # cs)
          else map_option (\<lambda>(l, r). (JNum l, r)) (parse_number (c # cs)))"
| "parse_elems 0 s = None"
| "parse_elems (Suc n) s =
     (case parse_value n s of
        None \<Rightarrow> None
      | Some (v, r) \<Rightarrow>
          (case skip_ws r of
             [] \<Rightarrow> None
           | c # cs \<Rightarrow>
               if c = CHR '']'' then Some ([v], cs)
               else if c = CHR '','' then
                 map_option (\<lambda>(vs, r'). (v # vs, r')) (parse_elems n cs)
               else None))"
| "parse_members 0 s = None"
| "parse_members (Suc n) s =
     (case skip_ws s of
        [] \<Rightarrow> None
      | q # s1 \<Rightarrow>
          if q \<noteq> QUOTE then None
          else (case jstr s1 of
             None \<Rightarrow> None
           | Some (k, s2) \<Rightarrow>
               (case skip_ws s2 of
                  [] \<Rightarrow> None
                | d # s3 \<Rightarrow>
                    if d \<noteq> CHR '':'' then None
                    else (case parse_value n s3 of
                       None \<Rightarrow> None
                     | Some (v, s4) \<Rightarrow>
                         (case skip_ws s4 of
                            [] \<Rightarrow> None
                          | c # cs \<Rightarrow>
                              if c = CHR ''}'' then Some ([(k, v)], cs)
                              else if c = CHR '','' then
                                map_option (\<lambda>(kvs, r). ((k, v) # kvs, r)) (parse_members n cs)
                              else None)))))"

definition json_parse :: "bytes \<Rightarrow> json option" where
  "json_parse s =
     (case parse_value (2 * length s + 2) s of
        None \<Rightarrow> None
      | Some (v, r) \<Rightarrow> if skip_ws r = [] then Some v else None)"

subsection \<open>UTF-8 round trip\<close>

lemma decode_rune_size: "decode_rune (c # cs) = (r, n) \<Longrightarrow> 1 \<le> n \<and> n \<le> Suc (length cs)"
  by (auto simp: Let_def split: if_splits list.splits)

lemma decode_rune_append:
  "decode_rune (c # cs) = (r, n) \<Longrightarrow> \<not> (r = RuneError \<and> n = 1) \<Longrightarrow>
   decode_rune (take n (c # cs) @ t) = (r, n)"
  by (auto simp: Let_def split: if_splits list.splits)

lemma base64_digit: "c < 64 \<Longrightarrow> (k * 64 + c) div 64 = k" "c < 64 \<Longrightarrow> (k * 64 + c) mod 64 = (c::nat)"
  by simp_all

lemma encode2:
  assumes "2 \<le> a" "a < 32" "b < (64::nat)"
  shows "encode_rune (a * 64 + b) = [char_of (0xC0 + a), char_of (0x80 + b)]"
proof -
  have "\<not> is_surrogate (a * 64 + b)" using assms by (simp add: is_surrogate_def)
  with assms show ?thesis
    by (simp add: encode_rune_def Let_def base64_digit [OF assms(3)] del: One_nat_def)
qed

lemma encode3:
  assumes "a < 16" "b < (64::nat)" "c < 64" "a = 0 \<longrightarrow> 32 \<le> b" "a = 13 \<longrightarrow> b < 32"
  shows "encode_rune (a * 4096 + b * 64 + c) = [char_of (0xE0 + a), char_of (0x80 + b), char_of (0x80 + c)]"
proof -
  let ?r = "a * 4096 + b * 64 + c"
  have r: "?r = (a * 64 + b) * 64 + c" by simp
  have d: "?r div 64 = a * 64 + b" "?r mod 64 = c" unfolding r by (rule base64_digit [OF assms(3)])+
  have d2: "?r div 4096 = a"
  proof -
    have "?r div 4096 = ?r div 64 div 64" by (simp add: div_mult2_eq [symmetric])
    then show ?thesis using d(1) base64_digit(1) [OF assms(2)] by simp
  qed
  have s: "\<not> is_surrogate ?r" using assms by (cases "a < 13"; cases "a = 13") (auto simp: is_surrogate_def)
  have ge: "0x800 \<le> ?r" using assms by (cases "a = 0") auto
  have lt: "?r < 0x10000" using assms by auto
  show ?thesis using s ge lt d d2 base64_digit(2) [OF assms(2)]
    by (simp add: encode_rune_def Let_def)
qed

lemma encode4:
  assumes "a < 5" "b < (64::nat)" "c < 64" "d < 64" "a = 0 \<longrightarrow> 16 \<le> b" "a = 4 \<longrightarrow> b < 16"
  shows "encode_rune (a * 262144 + b * 4096 + c * 64 + d) =
    [char_of (0xF0 + a), char_of (0x80 + b), char_of (0x80 + c), char_of (0x80 + d)]"
proof -
  let ?r = "a * 262144 + b * 4096 + c * 64 + d"
  have r: "?r = ((a * 64 + b) * 64 + c) * 64 + d" by simp
  have d1: "?r div 64 = (a * 64 + b) * 64 + c" "?r mod 64 = d" unfolding r by (rule base64_digit [OF assms(4)])+
  have d2: "?r div 4096 = a * 64 + b"
  proof -
    have "?r div 4096 = ?r div 64 div 64" by (simp add: div_mult2_eq [symmetric])
    then show ?thesis using d1(1) base64_digit(1) [OF assms(3)] by simp
  qed
  have d3: "?r div 262144 = a"
  proof -
    have "?r div 262144 = ?r div 4096 div 64" by (simp add: div_mult2_eq [symmetric])
    then show ?thesis using d2 base64_digit(1) [OF assms(2)] by simp
  qed
  have s: "\<not> is_surrogate ?r" "0x10000 \<le> ?r" "?r \<le> 0x10FFFF" using assms by (cases "a = 0"; cases "a = 4"; auto simp: is_surrogate_def)+
  have m: "?r div 64 mod 64 = c" unfolding d1(1) by (rule base64_digit(2) [OF assms(3)])
  show ?thesis using s d1(2) d2 d3 m base64_digit(2) [OF assms(2)]
    by (simp add: encode_rune_def Let_def)
qed

lemma decode_encode:
  assumes d: "decode_rune (c # cs) = (r, n)" and v: "\<not> (r = RuneError \<and> n = 1)" and c: "0x80 \<le> byte c"
  shows "encode_rune r = take n (c # cs)"
proof -
  consider
    (two) c1 t where "cs = c1 # t" "0xC2 \<le> byte c" "byte c \<le> 0xDF" "is_cont c1"
        "r = (byte c - 0xC0) * 64 + (byte c1 - 0x80)" "n = 2"
  | (three) c1 c2 t where "cs = c1 # c2 # t" "0xE0 \<le> byte c" "byte c \<le> 0xEF" "second_ok (byte c) c1" "is_cont c2"
        "r = (byte c - 0xE0) * 4096 + (byte c1 - 0x80) * 64 + (byte c2 - 0x80)" "n = 3"
  | (four) c1 c2 c3 t where "cs = c1 # c2 # c3 # t" "0xF0 \<le> byte c" "byte c \<le> 0xF4" "second_ok (byte c) c1"
        "is_cont c2" "is_cont c3"
        "r = (byte c - 0xF0) * 262144 + (byte c1 - 0x80) * 4096 + (byte c2 - 0x80) * 64 + (byte c3 - 0x80)" "n = 4"
    using d v c by (auto simp: Let_def split: if_splits list.splits)
  then show ?thesis
  proof cases
    case two
    then show ?thesis
      using encode2 [of "byte c - 0xC0" "byte c1 - 0x80"] by (auto simp: is_cont_def)
  next
    case three
    then show ?thesis
      using encode3 [of "byte c - 0xE0" "byte c1 - 0x80" "byte c2 - 0x80"]
      by (auto simp: is_cont_def second_ok_def split: if_splits)
  next
    case four
    then show ?thesis
      using encode4 [of "byte c - 0xF0" "byte c1 - 0x80" "byte c2 - 0x80" "byte c3 - 0x80"]
      by (auto simp: is_cont_def second_ok_def split: if_splits)
  qed
qed

subsection \<open>Strings round trip\<close>

fun utf8_ok :: "bytes \<Rightarrow> bool" where
  "utf8_ok [] = True"
| "utf8_ok (c # cs) =
     (if byte c < 0x80 then utf8_ok cs
      else (case decode_rune (c # cs) of
              (r, n) \<Rightarrow> \<not> (r = RuneError \<and> n = 1) \<and> utf8_ok (drop (n - 1) cs)))"

lemma emit_simps [simp]: "emit b (Some (s, r)) = Some (b @ s, r)" "emit b None = None"
  by (simp_all add: emit_def)

declare jstr.simps [simp del] decode_rune.simps [simp del] json_body.simps [simp del] utf8_ok.simps [simp del]

lemma jstr_quote [simp]: "jstr (QUOTE # rest) = Some ([], rest)"
  by (simp add: jstr.simps)

lemma jstr_plain:
  "0x20 \<le> byte c \<Longrightarrow> byte c < 0x80 \<Longrightarrow> c \<noteq> QUOTE \<Longrightarrow> c \<noteq> BSLASH \<Longrightarrow> jstr (c # cs) = emit [c] (jstr cs)"
  by (simp add: jstr.simps)

lemma jstr_escape:
  "e \<noteq> CHR ''u'' \<Longrightarrow> simple_escape e = Some b \<Longrightarrow> jstr (BSLASH # e # cs) = emit [b] (jstr cs)"
  by (simp add: jstr.simps BSLASH_def QUOTE_def)

lemma jstr_unicode:
  "hex4 es = Some (r, rest) \<Longrightarrow> \<not> is_surrogate r \<Longrightarrow>
   jstr (BSLASH # CHR ''u'' # es) = emit (encode_rune r) (jstr rest)"
  by (simp add: jstr.simps BSLASH_def QUOTE_def)

lemma hex_val_digit [simp]: "n < 16 \<Longrightarrow> hex_val (hex_digit n) = Some n"
  by (auto simp: hex_val_def hex_digit_def Let_def)

lemma hex_val_0 [simp]: "hex_val (CHR ''0'') = Some 0" "hex_val (CHR ''2'') = Some 2"
  by (simp_all add: hex_val_def Let_def)

lemma encode_rune_ascii: "byte c < 0x80 \<Longrightarrow> encode_rune (byte c) = [c]"
  by (simp add: encode_rune_def is_surrogate_def Let_def)

lemma jstr_ascii:
  assumes "byte c < 0x80"
  shows "jstr (escape_ascii c @ t) = emit [c] (jstr t)"
proof -
  consider (plain) "0x20 \<le> byte c" "c \<noteq> BSLASH" "c \<noteq> QUOTE" "c \<noteq> CHR ''<''" "c \<noteq> CHR ''>''" "c \<noteq> CHR ''&''"
    | (same) "c = BSLASH \<or> c = QUOTE" | (lf) "c = CHR 0x0A" | (cr) "c = CHR 0x0D" | (tab) "c = CHR 0x09"
    | (hex) "escape_ascii c = BSLASH # ''u00'' @ [hex_digit (byte c div 16), hex_digit (byte c mod 16)]"
    unfolding escape_ascii_def by argo
  then show ?thesis
  proof cases
    case plain
    then show ?thesis using assms by (simp add: escape_ascii_def jstr_plain)
  next
    case same
    then show ?thesis
      using jstr_escape [of c c t] by (auto simp: escape_ascii_def simple_escape_def BSLASH_def QUOTE_def)
  next
    case lf
    then show ?thesis
      using jstr_escape [of "CHR ''n''" c t] by (simp add: escape_ascii_def simple_escape_def BSLASH_def QUOTE_def)
  next
    case cr
    then show ?thesis
      using jstr_escape [of "CHR ''r''" c t] by (simp add: escape_ascii_def simple_escape_def BSLASH_def QUOTE_def)
  next
    case tab
    then show ?thesis
      using jstr_escape [of "CHR ''t''" c t] by (simp add: escape_ascii_def simple_escape_def BSLASH_def QUOTE_def)
  next
    case hex
    have b: "byte c div 16 < 16" "byte c mod 16 < 16" using assms by simp_all
    have "hex4 (CHR ''0'' # CHR ''0'' # hex_digit (byte c div 16) # hex_digit (byte c mod 16) # t) = Some (byte c, t)"
      using b by (simp add: mult.commute [of _ 16])
    then have "jstr (BSLASH # CHR ''u'' # CHR ''0'' # CHR ''0'' # hex_digit (byte c div 16) # hex_digit (byte c mod 16) # t) = emit (encode_rune (byte c)) (jstr t)"
      using assms by (intro jstr_unicode) (auto simp: is_surrogate_def)
    then show ?thesis using hex assms by (simp add: encode_rune_ascii)
  qed
qed

lemma jstr_rune:
  assumes "0x80 \<le> byte c" and d: "decode_rune (c # cs) = (r, n)" and v: "\<not> (r = RuneError \<and> n = 1)"
  shows "jstr (take n (c # cs) @ t) = emit (take n (c # cs)) (jstr t)"
proof -
  have n: "1 \<le> n" "n \<le> Suc (length cs)" using decode_rune_size [OF d] by auto
  then obtain m where m: "n = Suc m" by (cases n) auto
  have q: "c \<noteq> QUOTE" "c \<noteq> BSLASH" using assms(1) by (auto simp: QUOTE_def BSLASH_def)
  have "decode_rune (c # take m cs @ t) = (r, n)"
    using decode_rune_append [OF d v, of t] m by simp
  then have "jstr (c # take m cs @ t) = emit (encode_rune r) (jstr (drop m (take m cs @ t)))"
    using assms(1) q m by (simp add: jstr.simps)
  moreover have "drop m (take m cs @ t) = t" using n m by simp
  ultimately show ?thesis using decode_encode [OF d v assms(1)] m by simp
qed

lemma encode_line_sep: "r = 0x2028 \<or> r = 0x2029 \<Longrightarrow> \<not> is_surrogate r"
  by (auto simp: is_surrogate_def)

lemma jstr_json_body: "utf8_ok s \<Longrightarrow> jstr (json_body s @ QUOTE # rest) = Some (s, rest)"
proof (induction s rule: json_body.induct)
  case 1
  then show ?case by (simp add: json_body.simps)
next
  case (2 c cs)
  show ?case
  proof (cases "byte c < 0x80")
    case True
    with 2 show ?thesis by (simp add: json_body.simps utf8_ok.simps jstr_ascii)
  next
    case False
    obtain r n where d: "decode_rune (c # cs) = (r, n)" by fastforce
    have v: "\<not> (r = RuneError \<and> n = 1)" and ok: "utf8_ok (drop (n - 1) cs)"
      using "2.prems" False d by (auto simp: utf8_ok.simps)
    have n: "1 \<le> n" using decode_rune_size [OF d] by auto
    have td: "take n (c # cs) @ drop (n - 1) cs = c # cs" using n by (cases n) auto
    have enc: "encode_rune r = take n (c # cs)" using decode_encode [OF d v] False by simp
    show ?thesis
    proof (cases "r = 0x2028 \<or> r = 0x2029")
      case True
      have IH: "jstr (json_body (drop (n - 1) cs) @ QUOTE # rest) = Some (drop (n - 1) cs, rest)"
        using "2.IH"(3) False d v True ok by metis
      have "r mod 16 < 16" "0x2020 + r mod 16 = r" using True by auto
      then have "hex4 (CHR ''2'' # CHR ''0'' # CHR ''2'' # hex_digit (r mod 16) # t) = Some (r, t)" for t
        by simp
      then have "jstr (BSLASH # CHR ''u'' # CHR ''2'' # CHR ''0'' # CHR ''2'' # hex_digit (r mod 16) # t)
          = emit (encode_rune r) (jstr t)" for t
        using encode_line_sep [OF True] by (intro jstr_unicode) auto
      with False d v True IH enc td show ?thesis by (auto simp: json_body.simps)
    next
      case F2: False
      have IH: "jstr (json_body (drop (n - 1) cs) @ QUOTE # rest) = Some (drop (n - 1) cs, rest)"
        using "2.IH"(3) "2.IH"(4) False d v F2 ok by metis
      have "json_body (c # cs) = take n (c # cs) @ json_body (drop (n - 1) cs)"
        using False d v F2 by (simp add: json_body.simps)
      then show ?thesis using jstr_rune [OF _ d v] False IH td by simp
    qed
  qed
qed

subsection \<open>Documents round trip\<close>

definition num_ok :: "string \<Rightarrow> bool" where
  "num_ok l \<longleftrightarrow> parse_number l = Some (l, [])"

fun wf_json :: "json \<Rightarrow> bool"
and wf_elems :: "json list \<Rightarrow> bool"
and wf_members :: "(bytes \<times> json) list \<Rightarrow> bool" where
  "wf_json (JNum l) = num_ok l"
| "wf_json (JStr s) = utf8_ok s"
| "wf_json (JArr xs) = wf_elems xs"
| "wf_json (JObj kvs) = wf_members kvs"
| "wf_json _ = True"
| "wf_elems [] = True"
| "wf_elems (x # xs) = (wf_json x \<and> wf_elems xs)"
| "wf_members [] = True"
| "wf_members ((k, v) # kvs) = (utf8_ok k \<and> wf_json v \<and> wf_members kvs)"

text \<open>What follows a value inside a printed document: nothing, or one of three bytes.\<close>

definition delim :: "bytes \<Rightarrow> bool" where
  "delim s \<longleftrightarrow> s = [] \<or> hd s = CHR '','' \<or> hd s = CHR '']'' \<or> hd s = CHR ''}''"

lemma delim_simps [simp]: "delim []" "delim (CHR '','' # s)" "delim (CHR '']'' # s)" "delim (CHR ''}'' # s)"
  by (simp_all add: delim_def)

lemma delim_not_num:
  "delim (c # s) \<Longrightarrow> \<not> is_digit c \<and> c \<noteq> CHR ''.'' \<and> c \<noteq> CHR ''e'' \<and> c \<noteq> CHR ''E''"
  by (auto simp: delim_def is_digit_def)

lemma digits_delim:
  "delim t \<Longrightarrow> dropWhile is_digit s = [] \<Longrightarrow> takeWhile is_digit (s @ t) = takeWhile is_digit s \<and> dropWhile is_digit (s @ t) = t"
  by (cases t) (auto simp: takeWhile_append dropWhile_append delim_not_num takeWhile_eq_all_conv [THEN iffD2])

lemma digits_more:
  "dropWhile is_digit s \<noteq> [] \<Longrightarrow> takeWhile is_digit (s @ t) = takeWhile is_digit s \<and> dropWhile is_digit (s @ t) = dropWhile is_digit s @ t"
  by (auto simp: takeWhile_append dropWhile_append dropWhile_eq_Nil_conv)

lemma digits_any:
  "dropWhile is_digit s \<noteq> [] \<or> delim t \<Longrightarrow> takeWhile is_digit (s @ t) = takeWhile is_digit s \<and> dropWhile is_digit (s @ t) = dropWhile is_digit s @ t"
  using digits_delim [of t s] digits_more [of s t] by (cases "dropWhile is_digit s = []") auto

lemma parse_exp_append:
  assumes "parse_exp s = Some (e, s')" "delim t"
  shows "parse_exp (s @ t) = Some (e, s' @ t)"
proof (cases s)
  case Nil
  with assms show ?thesis by (cases t) (auto simp: parse_exp_def delim_not_num)
next
  case (Cons c cs)
  show ?thesis
  proof (cases "c = CHR ''e'' \<or> c = CHR ''E''")
    case True
    then show ?thesis using assms Cons digits_any [of "tl cs" t] digits_any [of cs t]
      by (cases cs) (auto simp: parse_exp_def Let_def split: if_splits)
  next
    case False
    then show ?thesis using assms Cons by (auto simp: parse_exp_def)
  qed
qed

lemma parse_frac_append:
  assumes "parse_frac s = Some (f, s')" "delim t"
  shows "parse_frac (s @ t) = Some (f, s' @ t)"
proof (cases s)
  case Nil
  with assms show ?thesis by (cases t) (auto simp: parse_frac_def delim_not_num)
next
  case (Cons c cs)
  then show ?thesis using assms digits_any [of cs t]
    by (auto simp: parse_frac_def split: if_splits)
qed

lemma parse_int_append:
  assumes "parse_int s = Some (i, s')" "delim t"
  shows "parse_int (s @ t) = Some (i, s' @ t)"
proof (cases s)
  case Nil
  with assms show ?thesis by (simp add: parse_int_def)
next
  case (Cons c cs)
  then show ?thesis using assms digits_any [of s t]
    by (auto simp: parse_int_def split: if_splits)
qed

lemma num_ok_delim:
  assumes "num_ok l" "delim t"
  shows "parse_number (l @ t) = Some (l, t)"
proof -
  have ne: "l \<noteq> []" using assms by (auto simp: num_ok_def parse_number_def parse_int_def)
  define sgn where "sgn = (if l \<noteq> [] \<and> hd l = CHR ''-'' then ''-'' else ([] :: string))"
  have sl: "drop (length sgn) (l @ t) = drop (length sgn) l @ t" using ne by (cases l) (simp_all add: sgn_def)
  obtain i s1 f s2 e where
    i: "parse_int (drop (length sgn) l) = Some (i, s1)" and f: "parse_frac s1 = Some (f, s2)"
    and e: "parse_exp s2 = Some (e, [])" and l: "sgn @ i @ f @ e = l"
    using assms(1) unfolding num_ok_def parse_number_def Let_def sgn_def [symmetric]
    by (auto split: option.splits)
  have "(if l @ t \<noteq> [] \<and> hd (l @ t) = CHR ''-'' then ''-'' else []) = sgn" using ne by (simp add: sgn_def)
  then show ?thesis
    unfolding parse_number_def Let_def
    using parse_int_append [OF i assms(2)] parse_frac_append [OF f assms(2)] parse_exp_append [OF e assms(2)] l sl
    by (simp add: sl)
qed

lemma num_ok_hd: "num_ok l \<Longrightarrow> \<exists>c cs. l = c # cs \<and> (is_digit c \<or> c = CHR ''-'')"
  by (cases l) (auto simp: num_ok_def parse_number_def parse_int_def is_digit_def split: if_splits option.splits list.splits)

lemma skip_ws_Cons [simp]: "\<not> is_ws c \<Longrightarrow> skip_ws (c # cs) = c # cs"
  by (simp add: skip_ws_def)

lemma num_start: "is_digit c \<or> c = CHR ''-'' \<Longrightarrow> \<not> is_ws c \<and> c \<noteq> CHR ''{'' \<and> c \<noteq> CHR ''['' \<and> c \<noteq> QUOTE \<and> c \<noteq> CHR ''n''
   \<and> c \<noteq> CHR ''t'' \<and> c \<noteq> CHR ''f'' \<and> c \<noteq> CHR '']''"
  by (auto simp: is_digit_def is_ws_def QUOTE_def)

lemma ws_punct [simp]: "\<not> is_ws QUOTE" "\<not> is_ws (CHR ''{'')" "\<not> is_ws (CHR ''['')" "\<not> is_ws (CHR ''}'')" "\<not> is_ws (CHR '']'')"
  "\<not> is_ws (CHR '','')" "\<not> is_ws (CHR '':'')" "\<not> is_ws (CHR ''n'')" "\<not> is_ws (CHR ''t'')" "\<not> is_ws (CHR ''f'')"
  by (simp_all add: is_ws_def QUOTE_def)

lemma marshal_hd: "wf_json v \<Longrightarrow> \<exists>c cs. marshal v = c # cs \<and> \<not> is_ws c \<and> c \<noteq> CHR '']''"
proof (cases v)
  case (JNum l)
  assume "wf_json v"
  with JNum num_ok_hd [of l] num_start show ?thesis by auto
qed (auto simp: json_string_def QUOTE_def is_ws_def)

lemma elems_hd: "wf_elems xs \<Longrightarrow> xs \<noteq> [] \<Longrightarrow> \<exists>c cs. marshal_elems xs = c # cs \<and> \<not> is_ws c \<and> c \<noteq> CHR '']''"
  using marshal_hd by (cases xs rule: marshal_elems.cases) fastforce+

lemma members_hd: "kvs \<noteq> [] \<Longrightarrow> \<exists>cs. marshal_members kvs = QUOTE # cs"
  by (cases kvs rule: marshal_members.cases) (auto simp: json_string_def)

lemma quote_ne [simp]: "QUOTE \<noteq> CHR ''{''" "QUOTE \<noteq> CHR ''[''" "QUOTE \<noteq> CHR ''}''" "CHR ''{'' \<noteq> QUOTE" "CHR ''['' \<noteq> QUOTE" "CHR ''n'' \<noteq> QUOTE" "CHR ''t'' \<noteq> QUOTE" "CHR ''f'' \<noteq> QUOTE"
  by (simp_all add: QUOTE_def)

lemma jstr_json_string: "utf8_ok s \<Longrightarrow> json_string s @ t = QUOTE # json_body s @ QUOTE # t \<and> jstr (json_body s @ QUOTE # t) = Some (s, t)"
  by (simp add: json_string_def jstr_json_body)

lemma parse_marshal_fuel:
  "wf_json v \<Longrightarrow> delim t \<Longrightarrow> 2 * length (marshal v) < f \<Longrightarrow> parse_value f (marshal v @ t) = Some (v, t)"
  "wf_elems xs \<Longrightarrow> xs \<noteq> [] \<Longrightarrow> 2 * length (marshal_elems xs) + 1 < f \<Longrightarrow>
     parse_elems f (marshal_elems xs @ CHR '']'' # t) = Some (xs, t)"
  "wf_members kvs \<Longrightarrow> kvs \<noteq> [] \<Longrightarrow> 2 * length (marshal_members kvs) + 1 < f \<Longrightarrow>
     parse_members f (marshal_members kvs @ CHR ''}'' # t) = Some (kvs, t)"
proof (induction v and xs and kvs arbitrary: t f and t f and t f rule: marshal_marshal_elems_marshal_members.induct)
  case 1
  then show ?case by (cases f) (simp_all add: parse_lit_def)
next
  case (2 b)
  then show ?case by (cases f) (simp_all add: parse_lit_def)
next
  case (3 l)
  then obtain c cs where l: "l = c # cs" and c: "is_digit c \<or> c = CHR ''-''"
    using num_ok_hd [of l] by auto
  show ?case using 3 num_ok_delim [of l t] num_start [OF c] l by (cases f) auto
next
  case (4 s)
  then show ?case using jstr_json_string [of s t] by (cases f) auto
next
  case (5 xs)
  show ?case
  proof (cases "xs = []")
    case True
    with 5 show ?thesis by (cases f) auto
  next
    case False
    obtain n where n: "f = Suc n" using 5 by (cases f) auto
    obtain c cs where h: "marshal_elems xs = c # cs" "\<not> is_ws c" "c \<noteq> CHR '']''"
      using elems_hd [of xs] 5 False by auto
    have "parse_elems n (marshal_elems xs @ CHR '']'' # t) = Some (xs, t)"
      using 5 False n by (intro "5.IH") auto
    with h n show ?thesis by simp
  qed
next
  case (6 kvs)
  show ?case
  proof (cases "kvs = []")
    case True
    with 6 show ?thesis by (cases f) auto
  next
    case False
    obtain n where n: "f = Suc n" using 6 by (cases f) auto
    obtain cs where h: "marshal_members kvs = QUOTE # cs"
      using members_hd [of kvs] False by auto
    have "parse_members n (marshal_members kvs @ CHR ''}'' # t) = Some (kvs, t)"
      using 6 False n by (intro "6.IH") auto
    with h n show ?thesis by simp
  qed
next
  case (8 x)
  then show ?case by (cases f) auto
next
  case (9 x y ys)
  then obtain n where n: "f = Suc n" by (cases f) auto
  have "parse_value n (marshal x @ CHR '','' # marshal_elems (y # ys) @ CHR '']'' # t) = Some (x, CHR '','' # marshal_elems (y # ys) @ CHR '']'' # t)"
    using 9 n by (intro "9.IH") auto
  moreover have "parse_elems n (marshal_elems (y # ys) @ CHR '']'' # t) = Some (y # ys, t)"
    using 9 n by (intro "9.IH") auto
  ultimately show ?case using n by simp
next
  case (11 k v)
  then obtain n where n: "f = Suc n" by (cases f) auto
  have "parse_value n (marshal v @ CHR ''}'' # t) = Some (v, CHR ''}'' # t)"
    using 11 n by (intro "11.IH") auto
  then show ?case using n 11 jstr_json_string [of k "CHR '':'' # marshal v @ CHR ''}'' # t"] by simp
next
  case (12 k v y ys)
  then obtain n where n: "f = Suc n" by (cases f) auto
  let ?r = "marshal_members (y # ys) @ CHR ''}'' # t"
  have "parse_value n (marshal v @ CHR '','' # ?r) = Some (v, CHR '','' # ?r)"
    using 12 n by (intro "12.IH") auto
  moreover have "parse_members n ?r = Some (y # ys, t)"
    using 12 n by (intro "12.IH") auto
  ultimately show ?case using n 12 jstr_json_string [of k "CHR '':'' # marshal v @ CHR '','' # ?r"] by simp
qed auto

lemma json_parse_marshal: "wf_json v \<Longrightarrow> json_parse (marshal v) = Some v"
  using parse_marshal_fuel(1) [of v "[]" "2 * length (marshal v) + 2"]
  by (simp add: json_parse_def skip_ws_def)

subsection \<open>The fuel is enough\<close>

lemma skip_ws_length: "length (skip_ws s) \<le> length s"
  by (simp add: skip_ws_def length_dropWhile_le)

lemma skip_ws_shorter: "skip_ws s = c # cs \<Longrightarrow> length cs < length s"
  using skip_ws_length [of s] by simp

lemma emit_Some: "emit b m = Some (s, r) \<longleftrightarrow> (\<exists>s'. m = Some (s', r) \<and> s = b @ s')"
  by (auto simp: emit_def)

lemma jstr_step:
  "jstr (c # cs) = Some (t, r) \<Longrightarrow>
   r = cs \<or> (\<exists>s' t'. length s' \<le> length cs \<and> jstr s' = Some (t', r))"
  by (auto simp: jstr.simps(2) [of c cs] emit_Some dest!: hex4_length pair_escape_length
      split: if_splits list.splits option.splits prod.splits)

lemma jstr_shorter: "jstr s = Some (t, r) \<Longrightarrow> length r < length s"
proof (induction s arbitrary: t rule: measure_induct_rule [of length])
  case (less s)
  show ?case
  proof (cases s)
    case Nil
    with less.prems show ?thesis by (simp add: jstr.simps)
  next
    case (Cons c cs)
    with jstr_step [of c cs t r] less.prems
    consider "r = cs" | s' t' where "length s' \<le> length cs" "jstr s' = Some (t', r)" by auto
    then show ?thesis
    proof cases
      case 2
      with less.IH [of s' t'] Cons show ?thesis by simp
    qed (simp add: Cons)
  qed
qed

lemma parse_int_shorter: "parse_int s = Some (i, r) \<Longrightarrow> length r < length s"
  by (auto simp: parse_int_def le_imp_less_Suc length_dropWhile_le split: list.splits if_splits)

lemma parse_frac_shorter: "parse_frac s = Some (f, r) \<Longrightarrow> length r \<le> length s"
  by (auto simp: parse_frac_def le_SucI length_dropWhile_le split: list.splits if_splits)

lemma dropWhile_drop_shorter: "length (dropWhile P (drop k cs)) \<le> length cs"
  by (rule order_trans [OF length_dropWhile_le]) simp

lemma parse_exp_shorter:
  assumes "parse_exp s = Some (e, r)"
  shows "length r \<le> length s"
proof (cases s)
  case Nil
  with assms show ?thesis by (simp add: parse_exp_def)
next
  case (Cons c cs)
  define sg where "sg = (if cs \<noteq> [] \<and> (hd cs = CHR ''+'' \<or> hd cs = CHR ''-'') then [hd cs] else [])"
  have "parse_exp s =
     (if c = CHR ''e'' \<or> c = CHR ''E'' then
        (if takeWhile is_digit (drop (length sg) cs) = [] then None
         else Some (c # sg @ takeWhile is_digit (drop (length sg) cs),
                    dropWhile is_digit (drop (length sg) cs)))
      else Some ([], s))"
    unfolding parse_exp_def Cons Let_def sg_def list.case ..
  with assms have "r = dropWhile is_digit (drop (length sg) cs) \<or> r = s"
    by (metis Pair_inject option.discI option.inject)
  then show ?thesis
    using dropWhile_drop_shorter [of is_digit "length sg" cs] Cons by auto
qed

lemma parse_number_shorter: "parse_number s = Some (l, r) \<Longrightarrow> length r < length s"
  by (fastforce simp: parse_number_def Let_def dest: parse_int_shorter parse_frac_shorter parse_exp_shorter
    split: option.splits if_splits)

lemma parse_lit_shorter: "lit \<noteq> [] \<Longrightarrow> parse_lit lit v0 s = Some (v, r) \<Longrightarrow> length r < length s"
  by (auto simp: parse_lit_def has_prefix_iff split: if_splits)

lemma parse_value_SucD:
  assumes "parse_value (Suc n) s = Some (v, r)"
  shows "\<exists>c cs. skip_ws s = c # cs \<and>
    (length r < length (c # cs) \<or> (\<exists>kvs. parse_members n cs = Some (kvs, r)) \<or>
     (\<exists>xs. parse_elems n cs = Some (xs, r)))"
proof (cases "skip_ws s")
  case Nil
  with assms show ?thesis by simp
next
  case (Cons c cs)
  have tl: "length (tl (skip_ws cs)) < length (c # cs)"
    using skip_ws_length [of cs] by (simp add: less_Suc_eq_le)
  consider "r = tl (skip_ws cs)" | kvs where "parse_members n cs = Some (kvs, r)"
    | xs where "parse_elems n cs = Some (xs, r)" | t where "jstr cs = Some (t, r)"
    | "parse_lit ''null'' JNull (c # cs) = Some (v, r)"
    | "parse_lit ''true'' (JBool True) (c # cs) = Some (v, r)"
    | "parse_lit ''false'' (JBool False) (c # cs) = Some (v, r)"
    | l where "parse_number (c # cs) = Some (l, r)"
    using assms Cons by (auto split: if_splits)
  then have "length r < length (c # cs) \<or> (\<exists>kvs. parse_members n cs = Some (kvs, r)) \<or>
     (\<exists>xs. parse_elems n cs = Some (xs, r))"
  proof cases
    case 4
    then show ?thesis by (auto dest: jstr_shorter)
  next
    case 8
    then show ?thesis by (auto dest: parse_number_shorter)
  qed (use tl in \<open>auto dest: parse_lit_shorter [rotated]\<close>)
  with Cons show ?thesis by blast
qed

lemma parse_elems_SucD:
  assumes "parse_elems (Suc n) s = Some (vs, r)"
  shows "\<exists>v r1 c cs. parse_value n s = Some (v, r1) \<and> skip_ws r1 = c # cs \<and>
     (r = cs \<or> (\<exists>vs'. parse_elems n cs = Some (vs', r)))"
  using assms by (auto split: option.splits list.splits if_splits)

lemma parse_members_SucD:
  assumes "parse_members (Suc n) s = Some (kvs, r)"
  shows "\<exists>s1 k s2 d s3 v s4 c cs. skip_ws s = QUOTE # s1 \<and> jstr s1 = Some (k, s2) \<and>
     skip_ws s2 = d # s3 \<and> parse_value n s3 = Some (v, s4) \<and> skip_ws s4 = c # cs \<and>
     (r = cs \<or> (\<exists>kvs'. parse_members n cs = Some (kvs', r)))"
  using assms by (auto split: option.splits list.splits if_splits)

lemma parse_shorter:
  "(\<forall>s v r. parse_value f s = Some (v, r) \<longrightarrow> length r < length s) \<and>
   (\<forall>s vs r. parse_elems f s = Some (vs, r) \<longrightarrow> length r < length s) \<and>
   (\<forall>s kvs r. parse_members f s = Some (kvs, r) \<longrightarrow> length r < length s)"
proof (induction f)
  case 0
  then show ?case by simp
next
  case (Suc n)
  have IHv: "parse_value n s = Some (v, r) \<Longrightarrow> length r < length s" for s v r using Suc by blast
  have IHe: "parse_elems n s = Some (vs, r) \<Longrightarrow> length r < length s" for s vs r using Suc by blast
  have IHm: "parse_members n s = Some (kvs, r) \<Longrightarrow> length r < length s" for s kvs r using Suc by blast
  have "length r < length s" if h: "parse_value (Suc n) s = Some (v, r)" for s v r
  proof -
    obtain c cs where c: "skip_ws s = c # cs" "length r < length (c # cs) \<or>
        (\<exists>kvs. parse_members n cs = Some (kvs, r)) \<or> (\<exists>xs. parse_elems n cs = Some (xs, r))"
      using parse_value_SucD [OF h] by blast
    have "length r < length (c # cs)" using c(2) by (auto dest: IHe IHm)
    moreover have "length (c # cs) \<le> length s" using skip_ws_length [of s] c(1) by simp
    ultimately show ?thesis by linarith
  qed
  moreover have "length r < length s" if h: "parse_elems (Suc n) s = Some (vs, r)" for s vs r
  proof -
    obtain v r1 c cs where c: "parse_value n s = Some (v, r1)" "skip_ws r1 = c # cs"
        "r = cs \<or> (\<exists>vs'. parse_elems n cs = Some (vs', r))"
      using parse_elems_SucD [OF h] by blast
    have "length r \<le> length cs" using c(3) by (auto dest: IHe)
    then show ?thesis using IHv [OF c(1)] skip_ws_shorter [OF c(2)] by linarith
  qed
  moreover have "length r < length s" if h: "parse_members (Suc n) s = Some (kvs, r)" for s kvs r
  proof -
    obtain s1 k s2 d s3 v s4 c cs where c: "skip_ws s = QUOTE # s1" "jstr s1 = Some (k, s2)"
        "skip_ws s2 = d # s3" "parse_value n s3 = Some (v, s4)" "skip_ws s4 = c # cs"
        "r = cs \<or> (\<exists>kvs'. parse_members n cs = Some (kvs', r))"
      using parse_members_SucD [OF h] by blast
    have "length r \<le> length cs" using c(6) by (auto dest: IHm)
    then show ?thesis
      using skip_ws_shorter [OF c(1)] jstr_shorter [OF c(2)] skip_ws_shorter [OF c(3)]
        IHv [OF c(4)] skip_ws_shorter [OF c(5)] by linarith
  qed
  ultimately show ?case by blast
qed

lemma parse_value_shorter: "parse_value f s = Some (v, r) \<Longrightarrow> length r < length s"
  using parse_shorter by blast

lemma parse_value_cong:
  assumes "\<And>c cs. skip_ws s = c # cs \<Longrightarrow> parse_members n cs = parse_members m cs"
    and "\<And>c cs. skip_ws s = c # cs \<Longrightarrow> parse_elems n cs = parse_elems m cs"
  shows "parse_value (Suc n) s = parse_value (Suc m) s"
  using assms by (cases "skip_ws s") simp_all

lemma parse_elems_cong:
  assumes "parse_value n s = parse_value m s"
    and "\<And>v r c cs. parse_value m s = Some (v, r) \<Longrightarrow> skip_ws r = c # cs \<Longrightarrow> parse_elems n cs = parse_elems m cs"
  shows "parse_elems (Suc n) s = parse_elems (Suc m) s"
proof (cases "parse_value m s")
  case None
  with assms(1) show ?thesis by simp
next
  case (Some p)
  obtain v r where "p = (v, r)" by fastforce
  with Some assms show ?thesis by (cases "skip_ws r") simp_all
qed

lemma parse_members_cong:
  assumes "\<And>s1 k s2 d s3. skip_ws s = QUOTE # s1 \<Longrightarrow> jstr s1 = Some (k, s2) \<Longrightarrow> skip_ws s2 = d # s3 \<Longrightarrow>
      parse_value n s3 = parse_value m s3 \<and>
      (\<forall>v r c cs. parse_value m s3 = Some (v, r) \<longrightarrow> skip_ws r = c # cs \<longrightarrow> parse_members n cs = parse_members m cs)"
  shows "parse_members (Suc n) s = parse_members (Suc m) s"
proof (cases "\<exists>s1 k s2 d s3. skip_ws s = QUOTE # s1 \<and> jstr s1 = Some (k, s2) \<and> skip_ws s2 = d # s3")
  case False
  then show ?thesis by (auto split: list.splits option.splits)
next
  case True
  then obtain s1 k s2 d s3 where h: "skip_ws s = QUOTE # s1" "jstr s1 = Some (k, s2)" "skip_ws s2 = d # s3"
    by blast
  note eq = assms [OF h]
  show ?thesis
  proof (cases "parse_value m s3")
    case None
    with eq h show ?thesis by simp
  next
    case (Some p)
    obtain v r where "p = (v, r)" by fastforce
    with Some eq h show ?thesis by (cases "skip_ws r") simp_all
  qed
qed

lemma parse_fuel_any:
  "(\<forall>s g. 2 * length s < f \<longrightarrow> 2 * length s < g \<longrightarrow> parse_value f s = parse_value g s) \<and>
   (\<forall>s g. 2 * length s + 1 < f \<longrightarrow> 2 * length s + 1 < g \<longrightarrow> parse_elems f s = parse_elems g s) \<and>
   (\<forall>s g. 2 * length s + 1 < f \<longrightarrow> 2 * length s + 1 < g \<longrightarrow> parse_members f s = parse_members g s)"
proof (induction f)
  case 0
  then show ?case by simp
next
  case (Suc n)
  have IHv: "2 * length s < n \<Longrightarrow> 2 * length s < m \<Longrightarrow> parse_value n s = parse_value m s" for s m
    using Suc by blast
  have IHe: "2 * length s + 1 < n \<Longrightarrow> 2 * length s + 1 < m \<Longrightarrow> parse_elems n s = parse_elems m s" for s m
    using Suc by blast
  have IHm: "2 * length s + 1 < n \<Longrightarrow> 2 * length s + 1 < m \<Longrightarrow> parse_members n s = parse_members m s" for s m
    using Suc by blast
  have "parse_value (Suc n) s = parse_value g s" if b: "2 * length s < Suc n" "2 * length s < g" for s g
  proof -
    obtain m where m: "g = Suc m" using b by (cases g) auto
    have "2 * length cs + 1 < n \<and> 2 * length cs + 1 < m" if "skip_ws s = c # cs" for c cs
      using skip_ws_shorter [OF that] b m by linarith
    then show ?thesis unfolding m by (intro parse_value_cong IHm IHe) auto
  qed
  moreover have "parse_elems (Suc n) s = parse_elems g s"
    if b: "2 * length s + 1 < Suc n" "2 * length s + 1 < g" for s g
  proof -
    obtain m where m: "g = Suc m" using b by (cases g) auto
    have "2 * length cs + 1 < n \<and> 2 * length cs + 1 < m"
      if "parse_value m s = Some (v, r)" "skip_ws r = c # cs" for v r c cs
      using skip_ws_shorter [OF that(2)] parse_value_shorter [OF that(1)] b m by linarith
    then show ?thesis unfolding m using b m by (intro parse_elems_cong IHv IHe) auto
  qed
  moreover have "parse_members (Suc n) s = parse_members g s"
    if b: "2 * length s + 1 < Suc n" "2 * length s + 1 < g" for s g
  proof -
    obtain m where m: "g = Suc m" using b by (cases g) auto
    have "parse_value n s3 = parse_value m s3 \<and>
      (\<forall>v r c cs. parse_value m s3 = Some (v, r) \<longrightarrow> skip_ws r = c # cs \<longrightarrow> parse_members n cs = parse_members m cs)"
      if h: "skip_ws s = QUOTE # s1" "jstr s1 = Some (k, s2)" "skip_ws s2 = d # s3" for s1 k s2 d s3
    proof -
      have l: "length s3 < length s"
        using skip_ws_shorter [OF h(1)] jstr_shorter [OF h(2)] skip_ws_shorter [OF h(3)] by linarith
      have "2 * length cs + 1 < n \<and> 2 * length cs + 1 < m"
        if "parse_value m s3 = Some (v, r)" "skip_ws r = c # cs" for v r c cs
        using skip_ws_shorter [OF that(2)] parse_value_shorter [OF that(1)] b m l by linarith
      then show ?thesis using b m l by (auto intro!: IHv IHm)
    qed
    then show ?thesis unfolding m by (rule parse_members_cong)
  qed
  ultimately show ?case by blast
qed

text \<open>No input needs more fuel than \<open>json_parse\<close> gives it.\<close>

lemma parse_enough: "2 * length s + 2 \<le> f \<Longrightarrow> parse_value f s = parse_value (2 * length s + 2) s"
  by (rule parse_fuel_any [THEN conjunct1, rule_format]) simp_all

end
