(* ===== verification/Gjson.thy ===== *)
theory Gjson
  imports Json
begin

text \<open>
  The lookups the program makes with the vendored \<^verbatim>\<open>tidwall/gjson\<close> package:
  \<open>Get\<close> with a path of plain keys (no wildcard, no array index), and the conversions of
  a \<open>Result\<close>.  The package scans bytes without validating the document; the model
  follows its scanning loops.  A position is the pair of the bytes before it, in reverse,
  and the bytes from it on, so that the package's look behind for backslashes is a look
  at the first part.  The scanners return how many bytes they consumed.
\<close>

type_synonym pos = "bytes \<times> bytes"

datatype rtype = TNull | TFalse | TNumber | TString | TTrue | TJSON

record Result =
  rType :: rtype
  rRaw :: bytes
  rStr :: bytes

definition no_result :: Result where
  "no_result = \<lparr>rType = TNull, rRaw = [], rStr = []\<rparr>"

definition Exists :: "Result \<Rightarrow> bool" where
  "Exists r \<longleftrightarrow> rType r \<noteq> TNull \<or> length (rRaw r) \<noteq> 0"

definition advance :: "nat \<Rightarrow> pos \<Rightarrow> pos" where
  "advance n p = (rev (take n (snd p)) @ fst p, drop n (snd p))"

subsection \<open>Strings\<close>

text \<open>
  Is a quote at this position escaped?  The byte before it is a backslash and an even
  number of backslashes precede that one, not looking at index 0.
\<close>

definition quote_escaped :: "bytes \<Rightarrow> bool" where
  "quote_escaped pre =
     (case pre of
        [] \<Rightarrow> False
      | b # bs \<Rightarrow> b = BSLASH \<and> even (length (takeWhile (\<lambda>c. c = BSLASH) (butlast bs))))"

text \<open>The scan for the closing quote: whether an escape was met and how far the quote is.\<close>

fun str_scan :: "bool \<Rightarrow> bytes \<Rightarrow> bytes \<Rightarrow> (bool \<times> nat) option" where
  "str_scan esc pre [] = None"
| "str_scan esc pre (c # cs) =
     (if byte c > 0x5C then map_option (apsnd Suc) (str_scan esc (c # pre) cs)
      else if c = QUOTE then
        (if esc \<and> quote_escaped pre then map_option (apsnd Suc) (str_scan esc (c # pre) cs)
         else Some (esc, 0))
      else if c = BSLASH then map_option (apsnd Suc) (str_scan True (c # pre) cs)
      else map_option (apsnd Suc) (str_scan esc (c # pre) cs))"

definition parseString :: "pos \<Rightarrow> (bool \<times> nat) option" where
  "parseString p = str_scan False (fst p) (snd p)"

fun hex_low :: "char \<Rightarrow> nat option" where
  "hex_low c =
     (if 48 \<le> byte c \<and> byte c \<le> 57 then Some (byte c - 48)
      else if 97 \<le> byte c \<and> byte c \<le> 102 then Some (byte c - 87)
      else None)"

text \<open>The package's unescaping; an ill-formed escape gives the empty string as a whole.\<close>

fun unescape_opt :: "bytes \<Rightarrow> bytes option" where
  "unescape_opt [] = Some []"
| "unescape_opt (c # cs) =
     (if byte c < 0x20 then None
      else if c = BSLASH then
        (case cs of
           [] \<Rightarrow> None
         | e # es \<Rightarrow>
             if e = CHR ''u'' then
               (case es of
                  h1 # h2 # h3 # h4 # rest \<Rightarrow>
                    (case (hex_low h1, hex_low h2, hex_low h3, hex_low h4) of
                       (Some w, Some x, Some y, Some z) \<Rightarrow>
                         map_option (\<lambda>s. encode_rune (w * 4096 + x * 256 + y * 16 + z) @ s)
                           (unescape_opt rest)
                     | _ \<Rightarrow> None)
                | _ \<Rightarrow> None)
             else
               (case simple_escape e of
                  None \<Rightarrow> None
                | Some b \<Rightarrow> map_option (\<lambda>s. b # s) (unescape_opt es)))
      else map_option (\<lambda>s. c # s) (unescape_opt cs))"

definition unescape :: "bytes \<Rightarrow> bytes" where
  "unescape s = (case unescape_opt s of None \<Rightarrow> [] | Some t \<Rightarrow> t)"

subsection \<open>Other values\<close>

definition parseNumber :: "bytes \<Rightarrow> nat" where
  "parseNumber s = Suc (length (takeWhile
     (\<lambda>c. \<not> (byte c \<le> 0x20 \<or> c = CHR '','' \<or> c = CHR '']'' \<or> c = CHR ''}'')) (tl s)))"

definition parseLiteral :: "bytes \<Rightarrow> nat" where
  "parseLiteral s = Suc (length (takeWhile (\<lambda>c. 97 \<le> byte c \<and> byte c \<le> 122) (tl s)))"

text \<open>
  Skipping an object or array: the nesting depth, and inside a string the number of
  bytes since its opening quote, which bounds the look behind.
\<close>

definition quote_escaped_in :: "nat \<Rightarrow> bytes \<Rightarrow> bool" where
  "quote_escaped_in k pre =
     (case pre of
        [] \<Rightarrow> False
      | b # bs \<Rightarrow> b = BSLASH \<and> even (length (takeWhile (\<lambda>c. c = BSLASH) (take (k - 1) bs))))"

fun squash_scan :: "nat \<Rightarrow> nat option \<Rightarrow> bytes \<Rightarrow> bytes \<Rightarrow> nat" where
  "squash_scan depth inq pre [] = 0"
| "squash_scan depth (Some k) pre (c # cs) =
     Suc (if c = QUOTE \<and> \<not> quote_escaped_in k pre
          then squash_scan depth None (c # pre) cs
          else squash_scan depth (Some (Suc k)) (c # pre) cs)"
| "squash_scan depth None pre (c # cs) =
     Suc (if c = QUOTE then squash_scan depth (Some 0) (c # pre) cs
          else if c = CHR ''{'' \<or> c = CHR ''['' then squash_scan (Suc depth) None (c # pre) cs
          else if c = CHR ''}'' \<or> c = CHR '']'' then
            (if depth - 1 = 0 then 0 else squash_scan (depth - 1) None (c # pre) cs)
          else squash_scan depth None (c # pre) cs)"

definition parseSquash :: "pos \<Rightarrow> nat" where
  "parseSquash p = Suc (squash_scan 1 None (take 1 (snd p) @ fst p) (tl (snd p)))"

subsection \<open>Objects\<close>

definition key_or_end :: "char \<Rightarrow> bool" where
  "key_or_end c \<longleftrightarrow> c = QUOTE \<or> c = CHR ''}''"

definition value_start :: "char \<Rightarrow> bool" where
  "value_start c \<longleftrightarrow> c = QUOTE \<or> c = CHR ''{'' \<or> c = CHR ''['' \<or> c = CHR ''-'' \<or>
     is_digit c \<or> c = CHR ''t'' \<or> c = CHR ''f'' \<or> c = CHR ''n''"

definition until :: "(char \<Rightarrow> bool) \<Rightarrow> bytes \<Rightarrow> nat" where
  "until P s = length (takeWhile (\<lambda>c. \<not> P c) s)"

text \<open>
  One value at a position: its result when the key was the last of the path (\<open>hit\<close>),
  the look into a nested object when the path goes on (\<open>inner\<close>), otherwise skipped.
  \<open>None\<close> as the third component is a string without an end, where the scan gives up.
\<close>

function parseArray_miss :: "pos \<Rightarrow> nat" where
  "parseArray_miss p =
     (let s = snd p; k = until (\<lambda>c. value_start c \<or> c = CHR '']'') s in
      if length s \<le> k then length s
      else if s ! k = CHR '']'' then Suc k
      else
        (let p1 = advance k p in
         if s ! k = QUOTE then
           (case parseString (advance 1 p1) of
              None \<Rightarrow> length s
            | Some (vesc, n) \<Rightarrow> k + (n + 2) + parseArray_miss (advance (n + 2) p1))
         else
           (let m = (if s ! k = CHR ''{'' \<or> s ! k = CHR ''['' then parseSquash p1
                     else if s ! k = CHR ''-'' \<or> is_digit (s ! k) then parseNumber (snd p1)
                     else parseLiteral (snd p1))
            in k + m + parseArray_miss (advance (Suc (m - 1)) p1))))"
  by pat_completeness auto
termination
  by (relation "measure (\<lambda>p. length (snd p))") (auto simp: advance_def)

definition parseValue ::
  "bool \<Rightarrow> (pos \<Rightarrow> nat \<times> Result option) option \<Rightarrow> pos \<Rightarrow> nat \<times> Result option \<times> bool" where
  "parseValue hit inner p =
     (let s = snd p; c = hd s in
      if c = QUOTE then
        (case parseString (advance 1 p) of
           None \<Rightarrow> (length s, None, False)
         | Some (vesc, n) \<Rightarrow>
             (n + 2,
              if hit then
                Some \<lparr>rType = TString, rRaw = take (n + 2) s,
                      rStr = (if vesc then unescape (take n (tl s)) else take n (tl s))\<rparr>
              else None, True))
      else if c = CHR ''{'' \<or> c = CHR ''['' then
        (case inner of
           Some f \<Rightarrow>
             (if c = CHR ''{'' then (case f (advance 1 p) of (n, r) \<Rightarrow> (Suc n, r, True))
              else (Suc (parseArray_miss (advance 1 p)), None, True))
         | None \<Rightarrow>
             (parseSquash p,
              if hit then Some \<lparr>rType = TJSON, rRaw = take (parseSquash p) s, rStr = []\<rparr> else None,
              True))
      else if c = CHR ''-'' \<or> is_digit c then
        (parseNumber s,
         if hit then Some \<lparr>rType = TNumber, rRaw = take (parseNumber s) s, rStr = []\<rparr> else None, True)
      else
        (parseLiteral s,
         if hit then
           Some \<lparr>rType = (if c = CHR ''t'' then TTrue else if c = CHR ''f'' then TFalse else TNull),
                 rRaw = take (parseLiteral s) s, rStr = []\<rparr>
         else None, True))"

function parseObject ::
  "bytes \<Rightarrow> (pos \<Rightarrow> nat \<times> Result option) option \<Rightarrow> pos \<Rightarrow> nat \<times> Result option" where
  "parseObject part inner p =
     (let s = snd p; k = until key_or_end s in
      if length s \<le> k then (length s, None)
      else if s ! k = CHR ''}'' then (Suc k, None)
      else
        (let p1 = advance (Suc k) p in
         case parseString p1 of
           None \<Rightarrow> (length s, None)
         | Some (kesc, n) \<Rightarrow>
             (let key = take n (snd p1);
                  pmatch = (part = (if kesc then unescape key else key));
                  p2 = advance (Suc n) p1;
                  j = until value_start (snd p2)
              in if length (snd p2) \<le> j then (length s, None)
                 else
                   (let p3 = advance j p2 in
                    case parseValue (pmatch \<and> Option.is_none inner) (if pmatch then inner else None) p3 of
                      (m, r, ok) \<Rightarrow>
                        if \<not> ok then (length s, None)
                        else (case r of
                            Some res \<Rightarrow> (Suc k + Suc n + j + m, Some res)
                          | None \<Rightarrow>
                              (case parseObject part inner (advance m p3) of
                                 (m', r') \<Rightarrow> (Suc k + Suc n + j + m + m', r')))))))"
  by pat_completeness auto
termination
  by (relation "measure (\<lambda>(part, inner, p). length (snd p))") (auto simp: advance_def)

declare parseArray_miss.simps [simp del] parseObject.simps [simp del]

text \<open>The path \<open>k1.k2. \<dots>\<close> as the list of its keys.\<close>

fun parsePath :: "bytes list \<Rightarrow> pos \<Rightarrow> nat \<times> Result option" where
  "parsePath [] p = (0, None)"
| "parsePath [k] p = parseObject k None p"
| "parsePath (k # k' # ks) p = parseObject k (Some (parsePath (k' # ks))) p"

definition Get :: "bytes \<Rightarrow> bytes list \<Rightarrow> Result" where
  "Get json path =
     (let i = until (\<lambda>c. c = CHR ''{'' \<or> c = CHR ''['') json in
      if i < length json \<and> json ! i = CHR ''{'' then
        (case parsePath path (advance (Suc i) ([], json)) of
           (n, None) \<Rightarrow> no_result
         | (n, Some r) \<Rightarrow> r)
      else no_result)"

text \<open>
  \<open>Result.String\<close>; the text of a number is the decimal rendering of its 64-bit float,
  a function of the literal that is a parameter.
\<close>

definition ResultString :: "(bytes \<Rightarrow> bytes) \<Rightarrow> Result \<Rightarrow> bytes" where
  "ResultString fmt_num r =
     (case rType r of
        TNull \<Rightarrow> ''null'' | TFalse \<Rightarrow> ''false'' | TNumber \<Rightarrow> fmt_num (rRaw r)
      | TString \<Rightarrow> rStr r | TJSON \<Rightarrow> rRaw r | TTrue \<Rightarrow> ''true'')"

text \<open>\<open>Result.Int\<close> and \<open>Result.Bool\<close>; the value of a number is again a parameter.\<close>

definition parse_int64 :: "bytes \<Rightarrow> int" where
  "parse_int64 s =
     (let neg = (s \<noteq> [] \<and> hd s = CHR ''-'');
          ds = (if s \<noteq> [] \<and> (hd s = CHR ''-'' \<or> hd s = CHR ''+'') then tl s else s);
          v = int (dec_val ds)
      in if ds = [] \<or> \<not> list_all is_digit ds then 0
         else if neg then (if v > 2 ^ 63 then - (2 ^ 63) else - v)
         else (if v \<ge> 2 ^ 63 then 2 ^ 63 - 1 else v))"

definition ResultInt :: "(bytes \<Rightarrow> int) \<Rightarrow> Result \<Rightarrow> int" where
  "ResultInt num_int r =
     (case rType r of
        TTrue \<Rightarrow> 1 | TString \<Rightarrow> parse_int64 (rStr r) | TNumber \<Rightarrow> num_int (rRaw r) | _ \<Rightarrow> 0)"

definition ResultBool :: "(bytes \<Rightarrow> bool) \<Rightarrow> Result \<Rightarrow> bool" where
  "ResultBool num_nz r =
     (case rType r of
        TTrue \<Rightarrow> True | TString \<Rightarrow> rStr r \<noteq> [] \<and> rStr r \<noteq> ''0'' | TNumber \<Rightarrow> num_nz (rRaw r)
      | _ \<Rightarrow> False)"

subsection \<open>Arrays\<close>

text \<open>
  \<open>Result.Array\<close> with the helpers that cut one value off the text.  The lead byte is not
  looked at again.  \<open>tolit\<close> stops at a byte up to the letter a, so that it cuts \<^verbatim>\<open>false\<close> short;
  the element loop then skips the rest.
\<close>

definition tonum :: "bytes \<Rightarrow> bytes" where
  "tonum s = take 1 s @ takeWhile
     (\<lambda>c. \<not> (byte c \<le> 0x20 \<or> c = CHR '','' \<or> (0x5D \<le> byte c \<and> c \<noteq> CHR ''e''))) (tl s)"

definition tolit :: "bytes \<Rightarrow> bytes" where
  "tolit s = take 1 s @ takeWhile (\<lambda>c. 97 < byte c \<and> byte c < 122) (tl s)"

definition tostr :: "bytes \<Rightarrow> bytes \<times> bytes" where
  "tostr s =
     (case str_scan False [QUOTE] (tl s) of
        Some (False, n) \<Rightarrow> (take (n + 2) s, take n (tl s))
      | Some (True, n) \<Rightarrow>
          (if n + 2 < length s then take (n + 2) s else take (n + 1) s, unescape (take n (tl s)))
      | None \<Rightarrow> (s, if list_ex (\<lambda>c. c = BSLASH) (tl s) then unescape (tl s) else tl s))"

definition squash :: "bytes \<Rightarrow> bytes" where
  "squash s = take (parseSquash ([], s)) s"

definition array_value :: "bytes \<Rightarrow> Result option" where
  "array_value s =
     (let c = hd s in
      if c = CHR ''{'' \<or> c = CHR ''['' then Some \<lparr>rType = TJSON, rRaw = squash s, rStr = []\<rparr>
      else if c = CHR ''n'' then Some \<lparr>rType = TNull, rRaw = tolit s, rStr = []\<rparr>
      else if c = CHR ''t'' then Some \<lparr>rType = TTrue, rRaw = tolit s, rStr = []\<rparr>
      else if c = CHR ''f'' then Some \<lparr>rType = TFalse, rRaw = tolit s, rStr = []\<rparr>
      else if c = QUOTE then Some \<lparr>rType = TString, rRaw = fst (tostr s), rStr = snd (tostr s)\<rparr>
      else if is_digit c \<or> c = CHR ''-'' then Some \<lparr>rType = TNumber, rRaw = tonum s, rStr = []\<rparr>
      else None)"

function array_scan :: "bytes \<Rightarrow> Result list" where
  "array_scan [] = []"
| "array_scan (c # cs) =
     (if byte c \<le> 0x20 then array_scan cs
      else if c = CHR '']'' \<or> c = CHR ''}'' then []
      else (case array_value (c # cs) of
          None \<Rightarrow> array_scan cs
        | Some v \<Rightarrow> v # array_scan (drop (Suc (length (rRaw v) - 1)) (c # cs))))"
  by pat_completeness auto
termination
  by (relation "measure length") auto

declare array_scan.simps(2) [simp del]

definition Array :: "Result \<Rightarrow> Result list" where
  "Array r =
     (if \<not> Exists r then []
      else if rType r \<noteq> TJSON then [r]
      else if rRaw r \<noteq> [] \<and> hd (rRaw r) = CHR ''['' then array_scan (tl (rRaw r))
      else [])"

end
