(* ===== verification/Gjson_Printed.thy ===== *)
theory Gjson_Printed
  imports Gjson
begin

text \<open>
  On the text \<open>marshal\<close> prints, the byte scanner finds the end of every value: the body of
  a printed string is a sequence of plain bytes and two-byte escapes, so that the look
  behind counts the backslashes right.
\<close>

inductive str_units :: "bytes \<Rightarrow> bool" where
  nil: "str_units []"
| plain: "c \<noteq> QUOTE \<Longrightarrow> c \<noteq> BSLASH \<Longrightarrow> str_units s \<Longrightarrow> str_units (c # s)"
| esc: "str_units s \<Longrightarrow> str_units (BSLASH # x # s)"

lemma str_units_plain_append:
  "(\<And>c. c \<in> set u \<Longrightarrow> c \<noteq> QUOTE \<and> c \<noteq> BSLASH) \<Longrightarrow> str_units s \<Longrightarrow> str_units (u @ s)"
  by (induction u) (auto intro: str_units.plain)

lemma hex_digit_plain: "n < 16 \<Longrightarrow> hex_digit n \<noteq> QUOTE \<and> hex_digit n \<noteq> BSLASH"
proof -
  assume n: "n < 16"
  have "byte (hex_digit n) = (if n < 10 then 48 + n else 87 + n)"
    using n by (simp add: hex_digit_def)
  then show ?thesis using n by (auto simp: QUOTE_def BSLASH_def split: if_splits)
qed

lemma str_units_esc_append:
  "(\<And>c. c \<in> set u \<Longrightarrow> c \<noteq> QUOTE \<and> c \<noteq> BSLASH) \<Longrightarrow> str_units s \<Longrightarrow> str_units (BSLASH # x # u @ s)"
  by (intro str_units.esc str_units_plain_append)

lemma str_units_escape_ascii:
  assumes "byte c < 0x80" and s: "str_units s"
  shows "str_units (escape_ascii c @ s)"
proof -
  have b: "byte c div 16 < 16" "byte c mod 16 < 16" using assms(1) by simp_all
  have "str_units (BSLASH # CHR ''u'' # (''00'' @ [hex_digit (byte c div 16), hex_digit (byte c mod 16)]) @ s)"
    using hex_digit_plain [OF b(1)] hex_digit_plain [OF b(2)]
    by (intro str_units_esc_append s) (auto simp: QUOTE_def BSLASH_def)
  with s show ?thesis
    by (simp add: escape_ascii_def str_units.intros)
qed

lemma decode_rune_high:
  assumes "decode_rune (c # cs) = (r, n)" "\<not> (r = RuneError \<and> n = 1)" "0x80 \<le> byte c" "x \<in> set (take n (c # cs))"
  shows "0x80 \<le> byte x"
  using assms
  by (auto simp: decode_rune.simps Let_def is_cont_def second_ok_def split: if_splits list.splits)

lemma str_units_json_body: "str_units (json_body s)"
proof (induction s rule: json_body.induct)
  case 1
  then show ?case by (simp add: json_body.simps str_units.nil)
next
  case (2 c cs)
  show ?case
  proof (cases "byte c < 0x80")
    case True
    with 2 show ?thesis by (simp add: json_body.simps str_units_escape_ascii)
  next
    case False
    obtain r n where d: "decode_rune (c # cs) = (r, n)" by fastforce
    have rest: "str_units (json_body (drop (n - 1) cs))" if "\<not> (r = RuneError \<and> n = 1)"
      using "2.IH"(3) "2.IH"(4) False d that by metis
    consider (err) "r = RuneError \<and> n = 1" | (sep) "\<not> (r = RuneError \<and> n = 1)" "r = 0x2028 \<or> r = 0x2029"
      | (ok) "\<not> (r = RuneError \<and> n = 1)" "\<not> (r = 0x2028 \<or> r = 0x2029)" by blast
    then show ?thesis
    proof cases
      case err
      then have "str_units (json_body cs)" using "2.IH"(2) False d by metis
      then have "str_units (BSLASH # CHR ''u'' # ''fffd'' @ json_body cs)"
        by (intro str_units_esc_append) (auto simp: QUOTE_def BSLASH_def)
      with err False d show ?thesis by (simp add: json_body.simps)
    next
      case sep
      have "json_body (c # cs) = BSLASH # CHR ''u'' # (''202'' @ [hex_digit (r mod 16)]) @ json_body (drop (n - 1) cs)"
        using sep False d by (auto simp: json_body.simps)
      moreover have "str_units ((''202'' @ [hex_digit (r mod 16)]) @ json_body (drop (n - 1) cs))"
        using rest [OF sep(1)] hex_digit_plain [of "r mod 16"]
        by (intro str_units_plain_append) (auto simp: QUOTE_def BSLASH_def)
      ultimately show ?thesis by (simp add: str_units.esc)
    next
      case ok
      have "json_body (c # cs) = take n (c # cs) @ json_body (drop (n - 1) cs)"
        using ok False d by (simp add: json_body.simps)
      moreover have "x \<noteq> QUOTE \<and> x \<noteq> BSLASH" if "x \<in> set (take n (c # cs))" for x
        using decode_rune_high [OF d ok(1) _ that] False by (auto simp: QUOTE_def BSLASH_def)
      ultimately show ?thesis using rest [OF ok(1)] by (simp add: str_units_plain_append)
    qed
  qed
qed

text \<open>Inside a string: the opening quote is \<open>k\<close> bytes back and the backslashes just read pair up.\<close>

definition in_string :: "nat \<Rightarrow> bytes \<Rightarrow> bool" where
  "in_string k pre \<longleftrightarrow> k < length pre \<and> pre ! k = QUOTE \<and>
     even (length (takeWhile (\<lambda>c. c = BSLASH) (take k pre)))"

lemma in_string_plain: "in_string k pre \<Longrightarrow> c \<noteq> BSLASH \<Longrightarrow> in_string (Suc k) (c # pre)"
  by (simp add: in_string_def)

lemma in_string_esc: "in_string k pre \<Longrightarrow> in_string (Suc (Suc k)) (x # BSLASH # pre)"
  by (simp add: in_string_def)

lemma bslash_ne_quote [simp]: "BSLASH \<noteq> QUOTE" "QUOTE \<noteq> BSLASH"
  by (simp_all add: QUOTE_def BSLASH_def)

lemma in_string_close: "in_string k pre \<Longrightarrow> \<not> quote_escaped_in k pre"
  by (cases pre; cases k) (auto simp: in_string_def quote_escaped_in_def)

lemma in_string_escaped: "in_string k pre \<Longrightarrow> quote_escaped_in (Suc k) (BSLASH # pre)"
  by (simp add: in_string_def quote_escaped_in_def)

lemma squash_units:
  "str_units s \<Longrightarrow> in_string k pre \<Longrightarrow>
   squash_scan d (Some k) pre (s @ QUOTE # t) =
     length s + 1 + squash_scan d None (QUOTE # rev s @ pre) t"
proof (induction s arbitrary: k pre rule: str_units.induct)
  case nil
  then show ?case by (simp add: in_string_close)
next
  case (plain c s)
  then show ?case by (simp add: in_string_plain)
next
  case (esc s x)
  then show ?case
    using in_string_escaped [OF esc.prems] in_string_esc [OF esc.prems, of x] by simp
qed

lemma squash_string:
  "squash_scan d None pre (json_string s @ t) =
     length (json_string s) + squash_scan d None (rev (json_string s) @ pre) t"
  using squash_units [OF str_units_json_body, of 0 "QUOTE # pre" d s t]
  by (simp add: json_string_def in_string_def)

lemma squash_plain:
  "(\<And>c. c \<in> set u \<Longrightarrow> c \<noteq> QUOTE \<and> c \<noteq> CHR ''{'' \<and> c \<noteq> CHR ''['' \<and> c \<noteq> CHR ''}'' \<and> c \<noteq> CHR '']'') \<Longrightarrow>
   squash_scan d None pre (u @ t) = length u + squash_scan d None (rev u @ pre) t"
  by (induction u arbitrary: pre) auto

lemma num_ok_charset:
  assumes "num_ok l" "c \<in> set l"
  shows "is_digit c \<or> c \<in> {CHR ''-'', CHR ''+'', CHR ''.'', CHR ''e'', CHR ''E''}"
proof -
  define sgn where "sgn = (if l \<noteq> [] \<and> hd l = CHR ''-'' then ''-'' else ([] :: string))"
  obtain i s1 f s2 e where
    i: "parse_int (drop (length sgn) l) = Some (i, s1)" and f: "parse_frac s1 = Some (f, s2)"
    and e: "parse_exp s2 = Some (e, [])" and l: "sgn @ i @ f @ e = l"
    using assms(1) unfolding num_ok_def parse_number_def Let_def sgn_def [symmetric]
    by (auto split: option.splits)
  let ?ok = "\<lambda>c. is_digit c \<or> c \<in> {CHR ''-'', CHR ''+'', CHR ''.'', CHR ''e'', CHR ''E''}"
  have "\<forall>c\<in>set i. ?ok c"
    using i by (auto simp: parse_int_def dest: set_takeWhileD split: list.splits if_splits) (auto simp: is_digit_def)
  moreover have "\<forall>c\<in>set f. ?ok c"
    using f by (auto simp: parse_frac_def dest: set_takeWhileD split: list.splits if_splits)
  moreover have "\<forall>c\<in>set e. ?ok c"
    using e by (auto simp: parse_exp_def Let_def dest: set_takeWhileD split: list.splits if_splits)
  moreover have "\<forall>c\<in>set sgn. ?ok c" by (simp add: sgn_def)
  ultimately show ?thesis using assms(2) l by auto
qed

lemma num_ok_chars:
  assumes "num_ok l" "c \<in> set l"
  shows "c \<noteq> QUOTE \<and> c \<noteq> CHR ''{'' \<and> c \<noteq> CHR ''['' \<and> c \<noteq> CHR ''}'' \<and> c \<noteq> CHR '']''"
  using num_ok_charset [OF assms] by (auto simp: is_digit_def QUOTE_def)

lemma squash_marshal:
  "wf_json v \<Longrightarrow> 1 \<le> d \<Longrightarrow> squash_scan d None pre (marshal v @ t) = length (marshal v) + squash_scan d None (rev (marshal v) @ pre) t"
  "wf_elems xs \<Longrightarrow> 1 \<le> d \<Longrightarrow> squash_scan d None pre (marshal_elems xs @ t) = length (marshal_elems xs) + squash_scan d None (rev (marshal_elems xs) @ pre) t"
  "wf_members kvs \<Longrightarrow> 1 \<le> d \<Longrightarrow> squash_scan d None pre (marshal_members kvs @ t) = length (marshal_members kvs) + squash_scan d None (rev (marshal_members kvs) @ pre) t"
proof (induction v and xs and kvs arbitrary: d pre t and d pre t and d pre t rule: marshal_marshal_elems_marshal_members.induct)
  case 1
  then show ?case by (simp add: QUOTE_def)
next
  case (2 b)
  then show ?case by (simp add: QUOTE_def)
next
  case (3 l)
  then show ?case using num_ok_chars [of l] by (simp add: squash_plain)
next
  case (4 s)
  then show ?case by (simp add: squash_string)
next
  case (5 xs)
  then show ?case by (simp add: QUOTE_def)
next
  case (6 kvs)
  then show ?case by (simp add: QUOTE_def)
next
  case (9 x y ys)
  then show ?case by (simp add: QUOTE_def)
next
  case (11 k v)
  then show ?case by (simp add: squash_string) (simp add: QUOTE_def)
next
  case (12 k v y ys)
  then show ?case by (simp add: squash_string) (simp add: QUOTE_def)
qed auto

lemma parseSquash_object:
  assumes "wf_members kvs"
  shows "parseSquash (pre, marshal (JObj kvs) @ t) = length (marshal (JObj kvs))"
  using squash_marshal(3) [OF assms, of 1 "CHR ''{'' # pre" "CHR ''}'' # t"]
  by (simp add: parseSquash_def QUOTE_def)

subsection \<open>Strings\<close>

abbreviation bs_run :: "bytes \<Rightarrow> nat" where
  "bs_run pre \<equiv> length (takeWhile (\<lambda>c. c = BSLASH) pre)"

definition str_pos :: "bytes \<Rightarrow> bool" where
  "str_pos pre \<longleftrightarrow> pre \<noteq> [] \<and> last pre \<noteq> BSLASH \<and> even (bs_run pre)"

lemma takeWhile_butlast: "xs \<noteq> [] \<Longrightarrow> \<not> P (last xs) \<Longrightarrow> takeWhile P (butlast xs) = takeWhile P xs"
  by (induction xs) auto

lemma str_pos_close: "str_pos pre \<Longrightarrow> \<not> quote_escaped pre"
proof (cases pre)
  case (Cons b bs)
  assume p: "str_pos pre"
  show ?thesis
  proof (cases "b = BSLASH")
    case True
    with p Cons have "bs \<noteq> []" "last bs \<noteq> BSLASH" "odd (bs_run bs)"
      by (auto simp: str_pos_def split: if_splits)
    then show ?thesis using Cons takeWhile_butlast [of bs "\<lambda>c. c = BSLASH"] by (simp add: quote_escaped_def)
  qed (simp add: Cons quote_escaped_def)
qed (simp add: quote_escaped_def)

lemma str_pos_escaped: "str_pos pre \<Longrightarrow> quote_escaped (BSLASH # pre)"
  using takeWhile_butlast [of pre "\<lambda>c. c = BSLASH"] by (simp add: quote_escaped_def str_pos_def)

lemma str_pos_plain: "str_pos pre \<Longrightarrow> c \<noteq> BSLASH \<Longrightarrow> str_pos (c # pre)"
  by (simp add: str_pos_def)

lemma str_pos_esc: "str_pos pre \<Longrightarrow> str_pos (x # BSLASH # pre)"
  by (simp add: str_pos_def)

lemma str_scan_plain:
  "c \<noteq> QUOTE \<Longrightarrow> c \<noteq> BSLASH \<Longrightarrow> str_scan esc pre (c # cs) = map_option (apsnd Suc) (str_scan esc (c # pre) cs)"
  by simp

lemma str_scan_bslash:
  "str_scan esc pre (BSLASH # cs) = map_option (apsnd Suc) (str_scan True (BSLASH # pre) cs)"
  using bslash_ne_quote by (simp add: BSLASH_def del: bslash_ne_quote)

lemma str_scan_escaped:
  assumes "str_pos pre"
  shows "str_scan True (BSLASH # pre) (x # cs) = map_option (apsnd Suc) (str_scan True (x # BSLASH # pre) cs)"
  using str_pos_escaped [OF assms] by simp

lemma str_scan_units:
  "str_units s \<Longrightarrow> str_pos pre \<Longrightarrow>
   str_scan esc pre (s @ QUOTE # t) = Some (esc \<or> BSLASH \<in> set s, length s)"
proof (induction s arbitrary: pre esc rule: str_units.induct)
  case nil
  then show ?case using str_pos_close by (simp add: QUOTE_def)
next
  case (plain c s)
  have "str_scan esc (c # pre) (s @ QUOTE # t) = Some (esc \<or> BSLASH \<in> set s, length s)"
    by (rule plain.IH) (rule str_pos_plain [OF plain.prems plain.hyps(2)])
  then show ?case using plain.hyps by (simp add: str_scan_plain del: str_scan.simps)
next
  case (esc s x)
  have "str_scan True (x # BSLASH # pre) (s @ QUOTE # t) = Some (True, length s)"
    using esc.IH [OF str_pos_esc [OF esc.prems, of x], of True] by simp
  then show ?case by (simp add: str_scan_bslash str_scan_escaped [OF esc.prems] del: str_scan.simps)
qed

lemma parseString_body:
  assumes "pre \<noteq> []" "last pre \<noteq> BSLASH"
  shows "parseString (QUOTE # pre, json_body s @ QUOTE # t) =
    Some (BSLASH \<in> set (json_body s), length (json_body s))"
  using str_scan_units [OF str_units_json_body, of "QUOTE # pre"] assms
  by (simp add: parseString_def str_pos_def)

subsection \<open>Unescaping\<close>

lemma hex_low_digit [simp]: "n < 16 \<Longrightarrow> hex_low (hex_digit n) = Some n"
  by (auto simp: hex_digit_def)

lemma unescape_cons:
  "0x20 \<le> byte c \<Longrightarrow> c \<noteq> BSLASH \<Longrightarrow> unescape_opt (c # cs) = map_option (\<lambda>s. c # s) (unescape_opt cs)"
  by simp

lemma unescape_high:
  "(\<And>c. c \<in> set u \<Longrightarrow> 0x80 \<le> byte c) \<Longrightarrow> unescape_opt (u @ s) = map_option (\<lambda>r. u @ r) (unescape_opt s)"
proof (induction u)
  case Nil
  then show ?case by (simp add: option.map_ident)
next
  case (Cons c u)
  then have "0x80 \<le> byte c" by simp
  then have "0x20 \<le> byte c" "c \<noteq> BSLASH" by (auto simp: BSLASH_def)
  with Cons show ?case by (simp add: unescape_cons option.map_comp comp_def del: unescape_opt.simps)
qed


lemma unescape_simple:
  "simple_escape e = Some b \<Longrightarrow> unescape_opt (BSLASH # e # cs) = map_option (\<lambda>s. b # s) (unescape_opt cs)"
  by (subst unescape_opt.simps) (auto simp: simple_escape_def BSLASH_def QUOTE_def)

lemma unescape_u:
  assumes "w < 16" "x < 16" "y < 16" "z < 16"
  shows "unescape_opt (BSLASH # CHR ''u'' # hex_digit w # hex_digit x # hex_digit y # hex_digit z # cs) =
    map_option (\<lambda>s. encode_rune (w * 4096 + x * 256 + y * 16 + z) @ s) (unescape_opt cs)"
  using assms by (subst unescape_opt.simps) (simp add: BSLASH_def del: hex_low.simps)

lemma hex_digit_0_2: "CHR ''0'' = hex_digit 0" "CHR ''2'' = hex_digit 2"
  by code_simp+

lemma unescape_ascii:
  assumes "byte c < 0x80"
  shows "unescape_opt (escape_ascii c @ t) = map_option (\<lambda>s. c # s) (unescape_opt t)"
proof -
  consider (plain) "0x20 \<le> byte c" "c \<noteq> BSLASH" "c \<noteq> QUOTE" "c \<noteq> CHR ''<''" "c \<noteq> CHR ''>''" "c \<noteq> CHR ''&''"
    | (same) "c = BSLASH \<or> c = QUOTE" | (lf) "c = CHR 0x0A" | (cr) "c = CHR 0x0D" | (tab) "c = CHR 0x09"
    | (hex) "escape_ascii c = BSLASH # ''u00'' @ [hex_digit (byte c div 16), hex_digit (byte c mod 16)]"
    unfolding escape_ascii_def by argo
  then show ?thesis
  proof cases
    case plain
    then show ?thesis by (simp add: escape_ascii_def unescape_cons del: unescape_opt.simps)
  next
    case same
    then show ?thesis using unescape_simple [of c c t]
      by (auto simp: escape_ascii_def simple_escape_def BSLASH_def QUOTE_def simp del: unescape_opt.simps)
  next
    case lf
    then show ?thesis using unescape_simple [of "CHR ''n''" c t]
      by (simp add: escape_ascii_def simple_escape_def BSLASH_def QUOTE_def del: unescape_opt.simps)
  next
    case cr
    then show ?thesis using unescape_simple [of "CHR ''r''" c t]
      by (simp add: escape_ascii_def simple_escape_def BSLASH_def QUOTE_def del: unescape_opt.simps)
  next
    case tab
    then show ?thesis using unescape_simple [of "CHR ''t''" c t]
      by (simp add: escape_ascii_def simple_escape_def BSLASH_def QUOTE_def del: unescape_opt.simps)
  next
    case hex
    have b: "byte c div 16 < 16" "byte c mod 16 < 16" using assms by simp_all
    have "0 * 4096 + 0 * 256 + (byte c div 16) * 16 + byte c mod 16 = byte c" by simp
    then show ?thesis
      using unescape_u [of 0 0, OF _ _ b, of t] hex encode_rune_ascii [OF assms]
      by (simp add: hex_digit_0_2(1) del: unescape_opt.simps)
  qed
qed

lemma unescape_json_body: "utf8_ok s \<Longrightarrow> unescape_opt (json_body s) = Some s"
proof (induction s rule: json_body.induct)
  case 1
  then show ?case by (simp add: json_body.simps)
next
  case (2 c cs)
  show ?case
  proof (cases "byte c < 0x80")
    case True
    with 2 show ?thesis by (simp add: json_body.simps utf8_ok.simps unescape_ascii del: unescape_opt.simps)
  next
    case False
    obtain r n where d: "decode_rune (c # cs) = (r, n)" by fastforce
    have v: "\<not> (r = RuneError \<and> n = 1)" and ok: "utf8_ok (drop (n - 1) cs)"
      using "2.prems" False d by (auto simp: utf8_ok.simps)
    have n: "1 \<le> n" using decode_rune_size [OF d] by auto
    have td: "take n (c # cs) @ drop (n - 1) cs = c # cs" using n by (cases n) auto
    have enc: "encode_rune r = take n (c # cs)" using decode_encode [OF d v] False by simp
    have IH: "unescape_opt (json_body (drop (n - 1) cs)) = Some (drop (n - 1) cs)"
      using "2.IH"(3) "2.IH"(4) False d v ok by metis
    show ?thesis
    proof (cases "r = 0x2028 \<or> r = 0x2029")
      case True
      have "r mod 16 < 16" "2 * 4096 + 0 * 256 + 2 * 16 + r mod 16 = r" using True by auto
      then have "unescape_opt (BSLASH # CHR ''u'' # CHR ''2'' # CHR ''0'' # CHR ''2'' # hex_digit (r mod 16) # t) =
          map_option (\<lambda>s. encode_rune r @ s) (unescape_opt t)" for t
        using unescape_u [of 2 0 2 "r mod 16" t] by (simp add: hex_digit_0_2 del: unescape_opt.simps)
      with False d v True IH enc td show ?thesis by (auto simp: json_body.simps simp del: unescape_opt.simps)
    next
      case F2: False
      have "json_body (c # cs) = take n (c # cs) @ json_body (drop (n - 1) cs)"
        using False d v F2 by (simp add: json_body.simps)
      moreover have "0x80 \<le> byte x" if "x \<in> set (take n (c # cs))" for x
        using decode_rune_high [OF d v _ that] False by simp
      ultimately show ?thesis using IH td by (simp add: unescape_high del: unescape_opt.simps)
    qed
  qed
qed

lemma unescape_opt_no_bslash: "BSLASH \<notin> set s \<Longrightarrow> unescape_opt s = Some t \<Longrightarrow> t = s"
proof (induction s arbitrary: t)
  case (Cons c s)
  then show ?case by (auto simp: unescape_opt.simps(2) [of c s] split: if_splits)
qed simp

text \<open>The scanner's reading of a printed string is the string, escapes or not.\<close>

lemma read_back:
  assumes "utf8_ok s"
  shows "(if BSLASH \<in> set (json_body s) then unescape (json_body s) else json_body s) = s"
  using unescape_json_body [OF assms] unescape_opt_no_bslash [of "json_body s" s]
  by (auto simp: unescape_def)

subsection \<open>Values and members\<close>

fun result_of :: "json \<Rightarrow> Result" where
  "result_of JNull = \<lparr>rType = TNull, rRaw = ''null'', rStr = []\<rparr>"
| "result_of (JBool b) = \<lparr>rType = (if b then TTrue else TFalse), rRaw = marshal (JBool b), rStr = []\<rparr>"
| "result_of (JNum l) = \<lparr>rType = TNumber, rRaw = l, rStr = []\<rparr>"
| "result_of (JStr s) = \<lparr>rType = TString, rRaw = json_string s, rStr = s\<rparr>"
| "result_of v = \<lparr>rType = TJSON, rRaw = marshal v, rStr = []\<rparr>"

lemma parseSquash_marshal:
  assumes "wf_json v" "v = JArr xs \<or> v = JObj kvs"
  shows "parseSquash (pre, marshal v @ t) = length (marshal v)"
  using assms squash_marshal(2) [of xs 1 "CHR ''['' # pre" "CHR '']'' # t"]
    squash_marshal(3) [of kvs 1 "CHR ''{'' # pre" "CHR ''}'' # t"]
  by (auto simp: parseSquash_def QUOTE_def)

text \<open>The bytes that may follow a value: a separator, a closing bracket or white space.\<close>

definition value_end :: "char \<Rightarrow> bool" where
  "value_end d \<longleftrightarrow> byte d \<le> 0x20 \<or> d = CHR '','' \<or> d = CHR '']'' \<or> d = CHR ''}''"

lemma num_ok_scan:
  assumes "num_ok l" "value_end d"
  shows "parseNumber (l @ d # t) = length l"
proof -
  obtain c l' where l: "l = c # l'" using num_ok_hd [OF assms(1)] by blast
  have "takeWhile (\<lambda>c. \<not> (byte c \<le> 0x20 \<or> c = CHR '','' \<or> c = CHR '']'' \<or> c = CHR ''}'')) (l' @ d # t) = l'"
    using num_ok_charset [OF assms(1)] assms(2) l
    by (intro takeWhile_append2 [THEN trans]) (force simp: is_digit_def value_end_def)+
  then show ?thesis by (simp add: parseNumber_def l)
qed

lemma parseValue_marshal:
  assumes "wf_json v" "value_end d" "pre \<noteq> []" "last pre \<noteq> BSLASH"
  shows "parseValue hit None (pre, marshal v @ d # t) =
    (length (marshal v), if hit then Some (result_of v) else None, True)"
proof (cases v)
  case JNull
  then show ?thesis using assms(2) by (auto simp: parseValue_def QUOTE_def is_digit_def parseLiteral_def value_end_def)
next
  case (JBool b)
  then show ?thesis using assms(2) by (auto simp: parseValue_def QUOTE_def is_digit_def parseLiteral_def value_end_def)
next
  case (JNum l)
  obtain c l' where l: "l = c # l'" "is_digit c \<or> c = CHR ''-''"
    using num_ok_hd [of l] assms(1) JNum by auto
  have c: "c \<noteq> QUOTE" "c \<noteq> CHR ''{''" "c \<noteq> CHR ''[''"
    using num_ok_chars [of l c] assms(1) JNum l by simp_all
  have n: "parseNumber (c # l' @ d # t) = Suc (length l')"
    using num_ok_scan [of l d t] assms JNum l by simp
  show ?thesis
    unfolding JNum l(1) using l(2) c n by (simp add: parseValue_def Let_def disj_commute)
next
  case (JStr s)
  then show ?thesis
    using parseString_body [OF assms(3,4), of s "d # t"] read_back [of s] assms(1)
    by (simp add: parseValue_def json_string_def advance_def Let_def split: if_splits)
next
  case (JArr xs)
  then show ?thesis using parseSquash_marshal [OF assms(1), of xs "[]" pre "d # t"]
    by (simp add: parseValue_def QUOTE_def)
next
  case (JObj kvs)
  then show ?thesis using parseSquash_marshal [OF assms(1), of "[]" kvs pre "d # t"]
    by (simp add: parseValue_def QUOTE_def)
qed


lemma marshal_value_start:
  assumes "wf_json v"
  obtains c cs where "marshal v = c # cs" "value_start c"
proof (cases v)
  case (JNum l)
  then show ?thesis using that num_ok_hd [of l] assms by (auto simp: value_start_def)
next
  case (JBool b)
  then show ?thesis using that by (cases b) (auto simp: value_start_def)
qed (use that in \<open>auto simp: value_start_def json_string_def\<close>)

text \<open>
  One round of the scanner up to the value: \<open>sep\<close> is what is skipped before the key, \<open>mid\<close>
  what is skipped between the key and its value.
\<close>

lemma until_skips: "(\<And>c. c \<in> set xs \<Longrightarrow> \<not> P c) \<Longrightarrow> P y \<Longrightarrow> until P (xs @ y # ys) = length xs"
  by (simp add: until_def takeWhile_append2)

lemma parseObject_round:
  assumes "until key_or_end (snd p) = i" "i < length (snd p)" "snd p ! i \<noteq> CHR ''}''"
    and "advance (Suc i) p = p1" "parseString p1 = Some (kesc, n)"
    and "pm \<longleftrightarrow> part = (if kesc then unescape (take n (snd p1)) else take n (snd p1))"
    and "advance (Suc n) p1 = p2" "until value_start (snd p2) = j" "j < length (snd p2)"
    and "advance j p2 = p3" "parseValue (pm \<and> Option.is_none inner) (if pm then inner else None) p3 = (m, r, ok)"
  shows "snd (parseObject part inner p) =
    (if \<not> ok then None else case r of Some res \<Rightarrow> Some res | None \<Rightarrow> snd (parseObject part inner (advance m p3)))"
  using assms by (subst parseObject.simps) (auto simp: Let_def split: option.splits prod.splits)

lemma parseObject_key:
  assumes k: "utf8_ok k'" and pre: "pre \<noteq> []" "last pre \<noteq> BSLASH"
    and sep: "\<And>c. c \<in> set sep \<Longrightarrow> \<not> key_or_end c" and mid: "\<And>c. c \<in> set mid \<Longrightarrow> \<not> value_start c" and y: "value_start y"
    and p3: "p3 = (rev (sep @ json_string k' @ mid) @ pre, y # ys)"
  shows "snd (parseObject k inner (pre, sep @ json_string k' @ mid @ y # ys)) =
    (case parseValue (k = k' \<and> Option.is_none inner) (if k = k' then inner else None) p3 of
       (m, r, ok) \<Rightarrow> if \<not> ok then None
         else (case r of Some res \<Rightarrow> Some res | None \<Rightarrow> snd (parseObject k inner (advance m p3))))"
proof -
  let ?t = "json_body k' @ QUOTE # mid @ y # ys" and ?n = "length (json_body k')"
  define s where "s = sep @ QUOTE # ?t"
  have s: "sep @ json_string k' @ mid @ y # ys = s" by (simp add: s_def json_string_def)
  have key: "until key_or_end s = length sep" "length sep < length s" "s ! length sep \<noteq> CHR ''}''"
    using until_skips [of sep key_or_end QUOTE] sep by (auto simp: s_def key_or_end_def QUOTE_def)
  have adv: "advance (Suc (length sep)) (pre, s) = (QUOTE # rev sep @ pre, ?t)" by (simp add: s_def advance_def)
  have str: "parseString (QUOTE # rev sep @ pre, ?t) = Some (BSLASH \<in> set (json_body k'), ?n)"
    by (rule parseString_body) (use pre in auto)
  have pm: "(k = (if BSLASH \<in> set (json_body k') then unescape (json_body k') else json_body k')) = (k = k')"
    using read_back [OF k] by (simp split: if_splits)
  have adv2: "advance (Suc ?n) (QUOTE # rev sep @ pre, ?t) = (QUOTE # rev (json_body k') @ QUOTE # rev sep @ pre, mid @ y # ys)"
    by (simp add: advance_def)
  have adv3: "advance (length mid) (QUOTE # rev (json_body k') @ QUOTE # rev sep @ pre, mid @ y # ys) = p3"
    by (simp add: advance_def p3 json_string_def)
  have val: "until value_start (mid @ y # ys) = length mid" using until_skips [of mid value_start y ys] mid y by simp
  obtain m r ok where v: "parseValue (k = k' \<and> Option.is_none inner) (if k = k' then inner else None) p3 = (m, r, ok)"
    by (metis prod_cases3)
  have "snd (parseObject k inner (pre, s)) =
      (if \<not> ok then None else case r of Some res \<Rightarrow> Some res | None \<Rightarrow> snd (parseObject k inner (advance m p3)))"
    by (rule parseObject_round [OF _ _ _ adv str _ adv2 _ _ adv3]) (use key pm val v in \<open>auto split: if_splits\<close>)
  then show ?thesis unfolding s v by simp
qed

text \<open>
  A document with white space around its members, as a person writes it: each member with
  what stands before it and between its key and its value.
\<close>

fun laid :: "(bytes \<times> bytes \<times> bytes \<times> json) list \<Rightarrow> bytes" where
  "laid [] = []"
| "laid ((sep, k, mid, v) # ms) = sep @ json_string k @ mid @ marshal v @ laid ms"

definition laid_ok :: "(bytes \<times> bytes \<times> bytes \<times> json) \<Rightarrow> bool" where
  "laid_ok m = (case m of (sep, k, mid, v) \<Rightarrow> list_all (\<lambda>c. \<not> key_or_end c) sep \<and>
     utf8_ok k \<and> list_all (\<lambda>c. \<not> value_start c) mid \<and> wf_json v)"

definition laid_sep :: "(bytes \<times> bytes \<times> bytes \<times> json) \<Rightarrow> bool" where
  "laid_sep m \<longleftrightarrow> fst m \<noteq> [] \<and> value_end (hd (fst m))"

fun member :: "bytes \<times> bytes \<times> bytes \<times> json \<Rightarrow> bytes \<times> json" where
  "member (sep, k, mid, v) = (k, v)"

lemma parseObject_member:
  assumes "utf8_ok k'" "wf_json v" "value_end d" "pre \<noteq> []" "last pre \<noteq> BSLASH"
    and "\<And>c. c \<in> set sep \<Longrightarrow> \<not> key_or_end c" "\<And>c. c \<in> set mid \<Longrightarrow> \<not> value_start c"
  shows "snd (parseObject k None (pre, sep @ json_string k' @ mid @ marshal v @ d # t)) =
    (if k = k' then Some (result_of v)
     else snd (parseObject k None (rev (sep @ json_string k' @ mid @ marshal v) @ pre, d # t)))"
proof -
  obtain c cs where c: "marshal v = c # cs" "value_start c" by (rule marshal_value_start [OF assms(2)])
  let ?p = "(rev (sep @ json_string k' @ mid) @ pre, marshal v @ d # t)"
  have "parseValue h None ?p = (length (marshal v), if h then Some (result_of v) else None, True)" for h
    by (rule parseValue_marshal) (use assms in auto)
  moreover have "advance (length (marshal v)) ?p = (rev (sep @ json_string k' @ mid @ marshal v) @ pre, d # t)"
    by (simp add: advance_def)
  ultimately show ?thesis
    using parseObject_key [OF assms(1,4,5,6,7) c(2), where k = k and inner = None and ys = "cs @ d # t" and sep = sep and mid = mid] c(1)
    by simp
qed

lemma laid_delim:
  assumes "list_all laid_sep (tl (m # ms))" "value_end (hd (fin @ ''}''))"
  obtains d r where "laid ms @ fin @ CHR ''}'' # t = d # r" "value_end d"
proof (cases ms)
  case Nil
  then show ?thesis using that assms(2) by (cases fin) auto
next
  case (Cons m' ms')
  then show ?thesis using that assms(1) by (cases m'; cases "fst m'") (auto simp: laid_sep_def)
qed

lemma laid_tl: "list_all laid_sep (tl (m # ms)) \<Longrightarrow> list_all laid_sep (tl ms)"
  by (cases ms) auto

lemma parseObject_laid:
  "list_all laid_ok ms \<Longrightarrow> list_all laid_sep (tl ms) \<Longrightarrow> pre \<noteq> [] \<Longrightarrow> last pre \<noteq> BSLASH \<Longrightarrow>
     list_all (\<lambda>c. \<not> key_or_end c) fin \<Longrightarrow> value_end (hd (fin @ ''}'')) \<Longrightarrow>
   snd (parseObject k None (pre, laid ms @ fin @ CHR ''}'' # t)) = map_option result_of (map_of (map member ms) k)"
proof (induction ms arbitrary: pre)
  case Nil
  then have "until key_or_end (fin @ CHR ''}'' # t) = length fin"
    by (intro until_skips) (auto simp: list_all_iff key_or_end_def)
  then show ?case by (subst parseObject.simps) (simp add: Let_def)
next
  case (Cons m ms)
  obtain sep k' mid v where m: "m = (sep, k', mid, v)" by (cases m)
  have ok: "laid_ok (sep, k', mid, v)" "list_all laid_ok ms" using Cons.prems(1) m by simp_all
  obtain d r where d: "laid ms @ fin @ CHR ''}'' # t = d # r" "value_end d"
    by (rule laid_delim [OF Cons.prems(2,6)])
  let ?pre = "rev (sep @ json_string k' @ mid @ marshal v) @ pre"
  have "snd (parseObject k None (?pre, d # r)) = map_option result_of (map_of (map member ms) k)"
    using Cons.IH [OF ok(2) laid_tl [OF Cons.prems(2)], of ?pre] Cons.prems d(1) by simp
  then show ?case
    using parseObject_member [of k' v d pre sep mid k r] ok(1) Cons.prems(3,4) d m
    by (auto simp: laid_ok_def list_all_iff)
qed

lemma Get_laid:
  assumes "list_all laid_ok ms" "list_all laid_sep (tl ms)" "list_all (\<lambda>c. \<not> key_or_end c) fin" "value_end (hd (fin @ ''}''))"
    and "list_all (\<lambda>c. c \<noteq> CHR ''{'' \<and> c \<noteq> CHR ''['' \<and> c \<noteq> BSLASH) ini"
  shows "Get (ini @ CHR ''{'' # laid ms @ fin @ CHR ''}'' # t) [k] =
    (case map_of (map member ms) k of None \<Rightarrow> no_result | Some v \<Rightarrow> result_of v)"
proof -
  let ?j = "ini @ CHR ''{'' # laid ms @ fin @ CHR ''}'' # t"
  have i: "until (\<lambda>c. c = CHR ''{'' \<or> c = CHR ''['') ?j = length ini"
    by (rule until_skips) (use assms(5) in \<open>auto simp: list_all_iff\<close>)
  have adv: "advance (Suc (length ini)) ([], ?j) = (CHR ''{'' # rev ini, laid ms @ fin @ CHR ''}'' # t)" by (simp add: advance_def)
  have "last (CHR ''{'' # rev ini) \<noteq> BSLASH" using assms(5) by (cases ini) (auto simp: BSLASH_def)
  from parseObject_laid [OF assms(1,2) _ this assms(3,4), of k t]
  have "snd (parseObject k None (CHR ''{'' # rev ini, laid ms @ fin @ CHR ''}'' # t)) = map_option result_of (map_of (map member ms) k)"
    by simp
  then show ?thesis by (auto simp: Get_def i adv Let_def split: prod.splits option.splits)
qed

text \<open>What \<open>marshal\<close> prints is such a document.\<close>

fun printed :: "bytes \<Rightarrow> (bytes \<times> json) list \<Rightarrow> (bytes \<times> bytes \<times> bytes \<times> json) list" where
  "printed sep [] = []"
| "printed sep ((k, v) # kvs) = (sep, k, '':'', v) # printed '','' kvs"

lemma member_printed: "map member (printed sep kvs) = kvs"
  by (induction kvs arbitrary: sep) (auto simp: member.simps)

lemma laid_ok_printed: "wf_members kvs \<Longrightarrow> sep \<in> {[], '',''} \<Longrightarrow> list_all laid_ok (printed sep kvs)"
  by (induction kvs arbitrary: sep)
    (auto simp: laid_ok_def key_or_end_def value_start_def QUOTE_def is_digit_def)

lemma laid_sep_printed: "list_all laid_sep (printed '','' kvs)" "list_all laid_sep (tl (printed sep kvs))"
proof -
  show "list_all laid_sep (printed '','' kvs)" for kvs
    by (induction kvs) (auto simp: laid_sep_def value_end_def)
  then show "list_all laid_sep (tl (printed sep kvs))" by (cases kvs) auto
qed

lemma laid_printed: "marshal_members kvs = laid (printed [] kvs)"
proof -
  have "kvs \<noteq> [] \<Longrightarrow> laid (printed '','' kvs) = CHR '','' # laid (printed [] kvs)" for kvs by (cases kvs) auto
  moreover have "kvs \<noteq> [] \<Longrightarrow> marshal_members ((k, v) # kvs) = json_string k @ '':'' @ marshal v @ '','' @ marshal_members kvs" for k v kvs
    by (cases kvs) auto
  ultimately show ?thesis
  proof (induction kvs)
    case (Cons kv kvs)
    then show ?case by (cases kv; cases "kvs = []") auto
  qed simp
qed

lemma Get_members:
  assumes "wf_members kvs"
  shows "Get (marshal (JObj kvs)) [k] =
    (case map_of kvs k of None \<Rightarrow> no_result | Some v \<Rightarrow> result_of v)"
  using Get_laid [of "printed [] kvs" "[]" "[]" "[]" k] laid_ok_printed [OF assms, of "[]"] laid_sep_printed(2)
  by (simp add: value_end_def laid_printed member_printed)

lemma Get_first:
  assumes "utf8_ok k" "wf_json v"
  shows "Get (marshal (JObj ((k, v) # rest))) [k] = result_of v"
proof -
  obtain d t where d: "marshal_members ((k, v) # rest) @ ''}'' = json_string k @ '':'' @ marshal v @ d # t" "value_end d"
    by (cases rest) (auto simp: value_end_def)
  have "snd (parseObject k None (''{'', marshal_members ((k, v) # rest) @ ''}'')) = Some (result_of v)"
    using parseObject_member [OF assms d(2), of "''{''" "[]" "'':''" k t] d(1)
    by (simp add: value_start_def QUOTE_def is_digit_def BSLASH_def)
  then show ?thesis
    by (auto simp: Get_def until_def advance_def simp del: marshal_members.simps split: prod.splits option.splits)
qed

text \<open>A path of two keys looks into the object the first key leads to.\<close>

lemma parseObject_nested:
  "wf_members kvs \<Longrightarrow> map_of kvs k = Some (JObj ms) \<Longrightarrow> map_of ms k2 = Some w \<Longrightarrow> sep \<in> {[], '',''} \<Longrightarrow> pre \<noteq> [] \<Longrightarrow> last pre \<noteq> BSLASH \<Longrightarrow>
   snd (parseObject k (Some (parseObject k2 None)) (pre, laid (printed sep kvs) @ CHR ''}'' # t)) = Some (result_of w)"
proof (induction kvs arbitrary: sep pre)
  case (Cons kv kvs)
  obtain k' v where kv: "kv = (k', v)" by (cases kv)
  have wf: "utf8_ok k'" "wf_json v" "wf_members kvs" using Cons.prems(1) kv by auto
  have sep: "\<not> key_or_end c" if "c \<in> set sep" for c using that Cons.prems(4) by (auto simp: key_or_end_def QUOTE_def)
  have mid: "\<not> value_start c" if "c \<in> set '':''" for c using that by (simp add: value_start_def QUOTE_def is_digit_def)
  obtain y ys where y: "marshal v = y # ys" "value_start y" by (rule marshal_value_start [OF wf(2)])
  let ?t = "laid (printed '','' kvs) @ CHR ''}'' # t" and ?pre = "rev (sep @ json_string k' @ '':'') @ pre"
  note key = parseObject_key [where k = k and inner = "Some (parseObject k2 None)" and ys = "ys @ ?t" and sep = sep and mid = "'':''",
      OF wf(1) Cons.prems(5,6) sep mid y(2) refl]
  show ?case
  proof (cases "k = k'")
    case True
    then have v: "v = JObj ms" using Cons.prems(2) kv by simp
    have "snd (parseObject k2 None (CHR ''{'' # ?pre, marshal_members ms @ CHR ''}'' # ?t)) = Some (result_of w)"
      using parseObject_laid [OF laid_ok_printed laid_sep_printed(2), of ms "[]" "CHR ''{'' # ?pre" "[]" k2 ?t] wf(2) v Cons.prems(3,5,6)
      by (simp add: value_end_def laid_printed member_printed)
    moreover have "y = CHR ''{''" "ys = marshal_members ms @ ''}''" using y(1) v by simp_all
    ultimately show ?thesis using key True v kv
      by (auto simp: parseValue_def advance_def QUOTE_def split: prod.splits)
  next
    case False
    obtain d r where d: "?t = d # r" "value_end d" using laid_delim [of "('','', k', '':'', v)" "printed '','' kvs" "[]" t] laid_sep_printed(1)
      by (auto simp: value_end_def)
    have "parseValue False None (?pre, marshal v @ d # r) = (length (marshal v), None, True)"
      using parseValue_marshal [OF wf(2) d(2), of ?pre False r] Cons.prems(5,6) by simp
    moreover have "snd (parseObject k (Some (parseObject k2 None)) (rev (marshal v) @ ?pre, ?t)) = Some (result_of w)"
      by (rule Cons.IH) (use Cons.prems wf False kv in auto)
    ultimately show ?thesis using key False y d kv by (simp add: advance_def)
  qed
qed simp

lemma Get_nested:
  assumes "wf_members kvs" "map_of kvs k = Some (JObj ms)" "map_of ms k2 = Some w"
  shows "Get (marshal (JObj kvs)) [k, k2] = result_of w"
proof -
  have "parsePath [k2] = parseObject k2 None" by (rule ext) simp
  moreover have "snd (parseObject k (Some (parseObject k2 None)) (''{'', marshal_members kvs @ ''}'')) = Some (result_of w)"
    using parseObject_nested [OF assms, of "[]" "''{''" "[]"] by (simp add: BSLASH_def laid_printed)
  ultimately show ?thesis
    by (auto simp: Get_def until_def advance_def split: prod.splits option.splits)
qed

text \<open>
  C36: The fast scanner agrees with the full JSON parser on every document the server
  prints: \<open>Get\<close> with a key finds the first member of that name, with its type, its text
  and, for strings, its unescaped value, and reports a missing key as not existing.
\<close>

theorem Get_agrees_with_parser:
  assumes "wf_members kvs"
  shows "\<exists>ms. json_parse (marshal (JObj kvs)) = Some (JObj ms) \<and>
    Get (marshal (JObj kvs)) [k] = (case map_of ms k of None \<Rightarrow> no_result | Some v \<Rightarrow> result_of v)"
  using Get_members [OF assms] json_parse_marshal [of "JObj kvs"] assms by auto

theorem Get_agrees_with_parser_witness:
  "\<exists>ms. json_parse (marshal (JObj [(''a'', JNull), (''b'', JStr ''x'')])) = Some (JObj ms) \<and>
    Get (marshal (JObj [(''a'', JNull), (''b'', JStr ''x'')])) [''b''] =
      (case map_of ms ''b'' of None \<Rightarrow> no_result | Some v \<Rightarrow> result_of v)"
  by (rule Get_agrees_with_parser) (simp add: utf8_ok.simps)

end
