(* ===== verification/Defines.thy ===== *)
theory Defines
  imports Sara_Prelude
begin

text \<open>
  The constants of \<^verbatim>\<open>core/types/defines.go\<close> and the session constants of
  \<^verbatim>\<open>core/session.go\<close>: the framing and signal bytes, the message types, the login
  failure reasons, the session states, the key prefixes and the queue sizes.
\<close>

definition END_FLAG :: char where "END_FLAG = CHR 0x01"
definition HEART_BEAT :: char where "HEART_BEAT = CHR 0x02"
definition KILL :: char where "KILL = CHR 0x03"

definition MSG_TYPE_OPEN_SESSION :: nat where "MSG_TYPE_OPEN_SESSION = 0"
definition MSG_TYPE_CHAT :: nat where "MSG_TYPE_CHAT = 1"
definition MSG_TYPE_GROUP_CHAT :: nat where "MSG_TYPE_GROUP_CHAT = 2"
definition MSG_TYPE_STATE :: nat where "MSG_TYPE_STATE = 3"
definition MSG_TYPE_SYSTEM :: nat where "MSG_TYPE_SYSTEM = 4"

definition FAIL_TIMEOUT :: string where "FAIL_TIMEOUT = ''timeout''"
definition FAIL_TYPE :: string where "FAIL_TYPE = ''fail_type''"
definition FAIL_TOKEN :: string where "FAIL_TOKEN = ''fail_token''"
definition FAIL_PARAM :: string where "FAIL_PARAM = ''fail_param''"
definition FAIL_PACKET :: string where "FAIL_PACKET = ''fail_packet''"
definition NORMAL :: string where "NORMAL = ''normal''"

definition STATUS_CONN :: string where "STATUS_CONN = ''conn''"
definition STATUS_LOGIN :: string where "STATUS_LOGIN = ''login''"
definition STATUS_CLOSE :: string where "STATUS_CLOSE = ''close''"

definition SESSION_PERFIX :: string where "SESSION_PERFIX = ''session_''"
definition OFFLINE_PERFIX :: string where "OFFLINE_PERFIX = ''offline_''"

definition ROUTER_QUEUE_SIZE :: nat where "ROUTER_QUEUE_SIZE = 100000"
definition ROUTER_WORKER_NUM :: nat where "ROUTER_WORKER_NUM = 500"
definition DATACHANNEL_QUEUE_SIZE :: nat where "DATACHANNEL_QUEUE_SIZE = 20000"
definition ACCEPT_QUEUE_SIZE :: nat where "ACCEPT_QUEUE_SIZE = 65536"
definition ACCEPT_WORKER_NUM :: nat where "ACCEPT_WORKER_NUM = 100"
definition DB_W_QUEUE_SIZE :: nat where "DB_W_QUEUE_SIZE = 20000"

definition LOGIN_TIMEOUT :: int where "LOGIN_TIMEOUT = 8"
definition SESSION_TIMEOUT :: int where "SESSION_TIMEOUT = 100"
definition PACKET_HANDLER_TIMEOUT :: int where "PACKET_HANDLER_TIMEOUT = SESSION_TIMEOUT * 2"
definition OFFLINE_EXPIRED :: int where "OFFLINE_EXPIRED = 3600 * 24 * 7"
definition SERVER_ACK :: string where "SERVER_ACK = ''server_ack''"

lemmas signal_defs = END_FLAG_def HEART_BEAT_def KILL_def
lemmas msg_type_defs = MSG_TYPE_OPEN_SESSION_def MSG_TYPE_CHAT_def MSG_TYPE_GROUP_CHAT_def
  MSG_TYPE_STATE_def MSG_TYPE_SYSTEM_def
lemmas status_defs = STATUS_CONN_def STATUS_LOGIN_def STATUS_CLOSE_def
lemmas prefix_defs = SESSION_PERFIX_def OFFLINE_PERFIX_def

text \<open>The case analyses of the handlers rely on these codes being different.\<close>

lemma status_distinct [simp]:
  "STATUS_CONN \<noteq> STATUS_LOGIN" "STATUS_LOGIN \<noteq> STATUS_CONN"
  "STATUS_CONN \<noteq> STATUS_CLOSE" "STATUS_CLOSE \<noteq> STATUS_CONN"
  "STATUS_LOGIN \<noteq> STATUS_CLOSE" "STATUS_CLOSE \<noteq> STATUS_LOGIN"
  by (simp_all add: status_defs)

lemma msg_type_distinct [simp]:
  "MSG_TYPE_STATE \<noteq> MSG_TYPE_GROUP_CHAT" "MSG_TYPE_GROUP_CHAT \<noteq> MSG_TYPE_STATE"
  "MSG_TYPE_STATE \<noteq> MSG_TYPE_OPEN_SESSION" "MSG_TYPE_OPEN_SESSION \<noteq> MSG_TYPE_STATE"
  "MSG_TYPE_GROUP_CHAT \<noteq> MSG_TYPE_OPEN_SESSION" "MSG_TYPE_OPEN_SESSION \<noteq> MSG_TYPE_GROUP_CHAT"
  by (simp_all add: msg_type_defs)

lemma prefixes_disjoint [simp]:
  "SESSION_PERFIX @ s \<noteq> OFFLINE_PERFIX @ t" "OFFLINE_PERFIX @ t \<noteq> SESSION_PERFIX @ s"
  by (simp_all add: prefix_defs)

end
