(* ===== verification/Packet.thy ===== *)
theory Packet
  imports Gjson_Printed Defines
begin

text \<open>
  The packets of \<^verbatim>\<open>core/types/packet.go\<close>: the structs, their JSON form (\<open>ToJson\<close>), the
  two decoders (\<open>NewPacket\<close>, which reads only the envelope and keeps the raw bytes, and
  \<open>NewBasePacket\<close>, which reads everything but the delay list) and the constructors of
  the server's own packets.

  A Go \<^verbatim>\<open>interface{}\<close> payload is an optional value tree.  Decoding into it turns objects
  into maps, so duplicate keys collapse and \<^verbatim>\<open>Marshal\<close> prints them sorted, and numbers into
  64-bit floats; the text of the float nearest to a literal is a parameter (\<open>fl\<close>), \<open>None\<close>
  when it is out of range, which leaves a null and makes the call report an error.
\<close>

record Envelope =
  eId :: string
  eJid :: string
  eFrom :: string
  eTo :: string
  eType :: nat
  eAck :: nat
  eCt :: string
  ePwd :: string
  eGid :: string

record Entity =
  nResult :: string
  nReason :: string

record BasePacket =
  pEnvelope :: Envelope
  pPayload :: "json option"
  pEntity :: "Entity option"
  pVsn :: string

record Delay =
  dTotal :: nat
  dPackets :: "BasePacket list"

record Packet = BasePacket +
  pDelay :: "Delay option"
  raw :: "bytes option"

definition zero_Envelope :: Envelope where
  "zero_Envelope = \<lparr>eId = [], eJid = [], eFrom = [], eTo = [], eType = 0, eAck = 0,
     eCt = [], ePwd = [], eGid = []\<rparr>"

definition zero_Packet :: Packet where
  "zero_Packet = \<lparr>pEnvelope = zero_Envelope, pPayload = None, pEntity = None, pVsn = [],
     pDelay = None, raw = None\<rparr>"

definition AddDelay :: "BasePacket list \<Rightarrow> Packet \<Rightarrow> Packet" where
  "AddDelay pks self =
     (if length pks > 0 then self\<lparr>pDelay := Some \<lparr>dTotal = length pks, dPackets = pks\<rparr>\<rparr>
      else self\<lparr>pDelay := Some \<lparr>dTotal = 0, dPackets = []\<rparr>\<rparr>)"

subsection \<open>The JSON form\<close>

text \<open>A struct field with \<^verbatim>\<open>omitempty\<close> is left out when it is the zero value.\<close>

definition str_field :: "bytes \<Rightarrow> string \<Rightarrow> (bytes \<times> json) list" where
  "str_field k v = (if v = [] then [] else [(k, JStr v)])"

definition uint_field :: "bytes \<Rightarrow> nat \<Rightarrow> (bytes \<times> json) list" where
  "uint_field k n = (if n = 0 then [] else [(k, JNum (dec_nat n))])"

definition envelope_json :: "Envelope \<Rightarrow> json" where
  "envelope_json e = JObj
     ((''id'', JStr (eId e)) # str_field ''jid'' (eJid e) @ str_field ''from'' (eFrom e) @
      str_field ''to'' (eTo e) @ (''type'', JNum (dec_nat (eType e))) #
      uint_field ''ack'' (eAck e) @ str_field ''ct'' (eCt e) @ str_field ''pwd'' (ePwd e) @
      str_field ''gid'' (eGid e))"

definition entity_json :: "Entity \<Rightarrow> json" where
  "entity_json n = JObj (str_field ''result'' (nResult n) @ str_field ''reason'' (nReason n))"

definition base_fields :: "'a BasePacket_scheme \<Rightarrow> (bytes \<times> json) list" where
  "base_fields p =
     (''envelope'', envelope_json (pEnvelope p)) #
     (case pPayload p of None \<Rightarrow> [] | Some v \<Rightarrow> [(''payload'', v)]) @
     (case pEntity p of None \<Rightarrow> [] | Some n \<Rightarrow> [(''entity'', entity_json n)]) @
     str_field ''vsn'' (pVsn p)"

definition delay_json :: "Delay \<Rightarrow> json" where
  "delay_json d = JObj
     ((''total'', JNum (dec_nat (dTotal d))) #
      (if dPackets d = [] then []
       else [(''packets'', JArr (map (\<lambda>b. JObj (base_fields b)) (dPackets d)))]))"

definition packet_json :: "Packet \<Rightarrow> json" where
  "packet_json p = JObj
     (base_fields p @ (case pDelay p of None \<Rightarrow> [] | Some d \<Rightarrow> [(''delay'', delay_json d)]))"

definition ToJson :: "Packet \<Rightarrow> bytes" where
  "ToJson self = (case raw self of Some r \<Rightarrow> r | None \<Rightarrow> marshal (packet_json self))"

definition EnvelopeIdFromToType :: "Packet \<Rightarrow> string \<times> string \<times> string \<times> nat" where
  "EnvelopeIdFromToType self =
     (eId (pEnvelope self), eFrom (pEnvelope self), eTo (pEnvelope self), eType (pEnvelope self))"

subsection \<open>Decoding structs\<close>

text \<open>
  A member belongs to a field when its key equals the field's name up to case; the Kelvin
  sign and the long s fold to k and s.
\<close>

definition lower :: "char \<Rightarrow> char" where
  "lower c = (if 65 \<le> byte c \<and> byte c \<le> 90 then char_of (byte c + 32) else c)"

fun fold_key :: "bytes \<Rightarrow> bytes" where
  "fold_key [] = []"
| "fold_key (c # cs) =
     (if c = CHR 0xE2 \<and> take 2 cs = [CHR 0x84, CHR 0xAA] then CHR ''k'' # fold_key (drop 2 cs)
      else if c = CHR 0xC5 \<and> take 1 cs = [CHR 0xBF] then CHR ''s'' # fold_key (drop 1 cs)
      else lower c # fold_key cs)"

definition is_field :: "bytes \<Rightarrow> bytes \<Rightarrow> bool" where
  "is_field name key \<longleftrightarrow> fold_key key = fold_key name"

text \<open>Storing a value in a field: the new content, and whether the value had the right type.\<close>

fun decode_str :: "json \<Rightarrow> string \<Rightarrow> string \<times> bool" where
  "decode_str (JStr s) old = (s, True)"
| "decode_str JNull old = (old, True)"
| "decode_str _ old = (old, False)"

definition parse_uint :: "string \<Rightarrow> nat option" where
  "parse_uint l =
     (if l \<noteq> [] \<and> list_all is_digit l \<and> int (dec_val l) < 2 ^ 64 then Some (dec_val l) else None)"

fun decode_uint :: "json \<Rightarrow> nat \<Rightarrow> nat \<times> bool" where
  "decode_uint (JNum l) old = (case parse_uint l of Some n \<Rightarrow> (n, True) | None \<Rightarrow> (old, False))"
| "decode_uint JNull old = (old, True)"
| "decode_uint _ old = (old, False)"

definition decode_envelope_member :: "bytes \<times> json \<Rightarrow> Envelope \<Rightarrow> Envelope \<times> bool" where
  "decode_envelope_member kv e =
     (let k = fst kv; v = snd kv in
      if is_field ''id'' k then (case decode_str v (eId e) of (x, ok) \<Rightarrow> (e\<lparr>eId := x\<rparr>, ok))
      else if is_field ''jid'' k then (case decode_str v (eJid e) of (x, ok) \<Rightarrow> (e\<lparr>eJid := x\<rparr>, ok))
      else if is_field ''from'' k then (case decode_str v (eFrom e) of (x, ok) \<Rightarrow> (e\<lparr>eFrom := x\<rparr>, ok))
      else if is_field ''to'' k then (case decode_str v (eTo e) of (x, ok) \<Rightarrow> (e\<lparr>eTo := x\<rparr>, ok))
      else if is_field ''type'' k then (case decode_uint v (eType e) of (x, ok) \<Rightarrow> (e\<lparr>eType := x\<rparr>, ok))
      else if is_field ''ack'' k then (case decode_uint v (eAck e) of (x, ok) \<Rightarrow> (e\<lparr>eAck := x\<rparr>, ok))
      else if is_field ''ct'' k then (case decode_str v (eCt e) of (x, ok) \<Rightarrow> (e\<lparr>eCt := x\<rparr>, ok))
      else if is_field ''pwd'' k then (case decode_str v (ePwd e) of (x, ok) \<Rightarrow> (e\<lparr>ePwd := x\<rparr>, ok))
      else if is_field ''gid'' k then (case decode_str v (eGid e) of (x, ok) \<Rightarrow> (e\<lparr>eGid := x\<rparr>, ok))
      else (e, True))"

text \<open>A wrong type does not stop the decoding; the first one becomes the error of the call.\<close>

fun decode_members :: "(bytes \<times> json \<Rightarrow> 'a \<Rightarrow> 'a \<times> bool) \<Rightarrow> (bytes \<times> json) list \<Rightarrow> 'a \<Rightarrow> 'a \<times> bool" where
  "decode_members f [] a = (a, True)"
| "decode_members f (kv # kvs) a =
     (let (a1, ok1) = f kv a; (a2, ok2) = decode_members f kvs a1 in (a2, ok1 \<and> ok2))"

fun decode_struct :: "(bytes \<times> json \<Rightarrow> 'a \<Rightarrow> 'a \<times> bool) \<Rightarrow> json \<Rightarrow> 'a \<Rightarrow> 'a \<times> bool" where
  "decode_struct f (JObj kvs) a = decode_members f kvs a"
| "decode_struct f JNull a = (a, True)"
| "decode_struct f _ a = (a, False)"

text \<open>
  \<open>json.Unmarshal(data, &x)\<close>: the value, or the error.  The text of a JSON error is a
  function of the rejected bytes; it is kept symbolic (\<open>EJson\<close>).
\<close>

datatype perr = EPacket | EJson bytes

definition unmarshal_struct :: "(bytes \<times> json \<Rightarrow> 'a \<Rightarrow> 'a \<times> bool) \<Rightarrow> bytes \<Rightarrow> 'a \<Rightarrow> perr + 'a" where
  "unmarshal_struct f data zero =
     (case json_parse data of
        None \<Rightarrow> Inl (EJson data)
      | Some v \<Rightarrow> (case decode_struct f v zero of (a, ok) \<Rightarrow> if ok then Inr a else Inl (EJson data)))"

definition NewPacket :: "bytes \<Rightarrow> perr + Packet" where
  "NewPacket jsonData =
     (let r = Get jsonData [''envelope''] in
      if \<not> Exists r then Inl EPacket
      else (case unmarshal_struct decode_envelope_member (rRaw r) zero_Envelope of
          Inl e \<Rightarrow> Inl e
        | Inr envelope \<Rightarrow> Inr (zero_Packet\<lparr>pEnvelope := envelope, raw := Some jsonData\<rparr>)))"

subsection \<open>Decoding into an interface value\<close>

definition upsert :: "bytes \<Rightarrow> json \<Rightarrow> (bytes \<times> json) list \<Rightarrow> (bytes \<times> json) list" where
  "upsert k v kvs = sort_key fst ((k, v) # filter (\<lambda>kv. fst kv \<noteq> k) kvs)"

fun iface_of :: "(string \<Rightarrow> string option) \<Rightarrow> json \<Rightarrow> json \<times> bool"
and iface_elems :: "(string \<Rightarrow> string option) \<Rightarrow> json list \<Rightarrow> json list \<times> bool"
and iface_members ::
  "(string \<Rightarrow> string option) \<Rightarrow> (bytes \<times> json) list \<Rightarrow> (bytes \<times> json) list \<Rightarrow> (bytes \<times> json) list \<times> bool"
where
  "iface_of fl (JNum l) = (case fl l of Some t \<Rightarrow> (JNum t, True) | None \<Rightarrow> (JNull, False))"
| "iface_of fl (JArr xs) = apfst JArr (iface_elems fl xs)"
| "iface_of fl (JObj kvs) = apfst JObj (iface_members fl kvs [])"
| "iface_of fl JNull = (JNull, True)"
| "iface_of fl (JBool b) = (JBool b, True)"
| "iface_of fl (JStr s) = (JStr s, True)"
| "iface_elems fl [] = ([], True)"
| "iface_elems fl (x # xs) =
     (case (iface_of fl x, iface_elems fl xs) of ((y, ok1), (ys, ok2)) \<Rightarrow> (y # ys, ok1 \<and> ok2))"
| "iface_members fl [] acc = (acc, True)"
| "iface_members fl ((k, v) # kvs) acc =
     (case iface_of fl v of (w, ok1) \<Rightarrow>
      case iface_members fl kvs (upsert k w acc) of (acc', ok2) \<Rightarrow> (acc', ok1 \<and> ok2))"

definition decode_iface :: "(string \<Rightarrow> string option) \<Rightarrow> json \<Rightarrow> json option \<Rightarrow> json option \<times> bool" where
  "decode_iface fl v old =
     (case v of
        JNull \<Rightarrow> (None, True)
      | JNum l \<Rightarrow> (case fl l of None \<Rightarrow> (old, False) | Some t \<Rightarrow> (Some (JNum t), True))
      | _ \<Rightarrow> apfst Some (iface_of fl v))"

definition decode_entity_member :: "bytes \<times> json \<Rightarrow> Entity \<Rightarrow> Entity \<times> bool" where
  "decode_entity_member kv n =
     (if is_field ''result'' (fst kv) then
        (case decode_str (snd kv) (nResult n) of (x, ok) \<Rightarrow> (n\<lparr>nResult := x\<rparr>, ok))
      else if is_field ''reason'' (fst kv) then
        (case decode_str (snd kv) (nReason n) of (x, ok) \<Rightarrow> (n\<lparr>nReason := x\<rparr>, ok))
      else (n, True))"

definition decode_entity_ptr :: "json \<Rightarrow> Entity option \<Rightarrow> Entity option \<times> bool" where
  "decode_entity_ptr v old =
     (if v = JNull then (None, True)
      else (case decode_struct decode_entity_member v
              (case old of None \<Rightarrow> \<lparr>nResult = [], nReason = []\<rparr> | Some n \<Rightarrow> n) of
            (n, ok) \<Rightarrow> (Some n, ok)))"

definition decode_base_member ::
  "(string \<Rightarrow> string option) \<Rightarrow> bytes \<times> json \<Rightarrow> BasePacket \<Rightarrow> BasePacket \<times> bool" where
  "decode_base_member fl kv p =
     (let k = fst kv; v = snd kv in
      if is_field ''envelope'' k then
        (case decode_struct decode_envelope_member v (pEnvelope p) of (x, ok) \<Rightarrow> (p\<lparr>pEnvelope := x\<rparr>, ok))
      else if is_field ''payload'' k then
        (case decode_iface fl v (pPayload p) of (x, ok) \<Rightarrow> (p\<lparr>pPayload := x\<rparr>, ok))
      else if is_field ''entity'' k then
        (case decode_entity_ptr v (pEntity p) of (x, ok) \<Rightarrow> (p\<lparr>pEntity := x\<rparr>, ok))
      else if is_field ''vsn'' k then
        (case decode_str v (pVsn p) of (x, ok) \<Rightarrow> (p\<lparr>pVsn := x\<rparr>, ok))
      else (p, True))"

definition NewBasePacket :: "(string \<Rightarrow> string option) \<Rightarrow> bytes \<Rightarrow> perr + BasePacket" where
  "NewBasePacket fl jsonData =
     unmarshal_struct (decode_base_member fl) jsonData
       \<lparr>pEnvelope = zero_Envelope, pPayload = None, pEntity = None, pVsn = []\<rparr>"

subsection \<open>The server's own packets\<close>

definition newPacketWithEntity :: "string \<Rightarrow> string \<Rightarrow> string \<Rightarrow> nat \<Rightarrow> Packet" where
  "newPacketWithEntity id' result reason msgtype =
     zero_Packet\<lparr>pEnvelope := zero_Envelope\<lparr>eId := id', eType := msgtype\<rparr>,
       pEntity := Some \<lparr>nResult = result, nReason = (if reason \<noteq> [] then reason else [])\<rparr>\<rparr>"

definition NewPacketSysNotify :: "string \<Rightarrow> string \<Rightarrow> Packet" where
  "NewPacketSysNotify id' msg = newPacketWithEntity id' ''sys_notify'' msg MSG_TYPE_SYSTEM"

definition NewPacketAuthFail :: "string \<Rightarrow> string \<Rightarrow> Packet" where
  "NewPacketAuthFail id' msg = newPacketWithEntity id' ''error'' msg MSG_TYPE_OPEN_SESSION"

definition NewPacketAuthSuccess :: "string \<Rightarrow> Packet" where
  "NewPacketAuthSuccess id' = newPacketWithEntity id' ''ok'' [] MSG_TYPE_OPEN_SESSION"

text \<open>The creation time is the clock's millisecond value, printed in decimal.\<close>

definition NewPacketAck :: "string \<Rightarrow> int \<Rightarrow> Packet" where
  "NewPacketAck id' now13 =
     zero_Packet\<lparr>pEnvelope := zero_Envelope\<lparr>eId := id', eType := MSG_TYPE_STATE, eCt := dec_int now13\<rparr>\<rparr>"

subsection \<open>Printing and reading back\<close>

text \<open>
  An envelope that survives its JSON form: its strings are valid UTF-8 (\<^verbatim>\<open>Marshal\<close> replaces
  other bytes) and its two numbers fit Go's 64-bit \<^verbatim>\<open>uint\<close>.
\<close>

definition wf_envelope :: "Envelope \<Rightarrow> bool" where
  "wf_envelope e \<longleftrightarrow> list_all utf8_ok [eId e, eJid e, eFrom e, eTo e, eCt e, ePwd e, eGid e] \<and>
     int (eType e) < 2 ^ 64 \<and> int (eAck e) < 2 ^ 64"

lemma wf_members_append [simp]: "wf_members (xs @ ys) \<longleftrightarrow> wf_members xs \<and> wf_members ys"
  by (induction xs) auto

lemma utf8_ok_ascii: "list_all (\<lambda>c. byte c < 0x80) s \<Longrightarrow> utf8_ok s"
  by (induction s) (auto simp: utf8_ok.simps)

lemma utf8_ok_dec_nat: "utf8_ok (dec_nat n)"
proof (rule utf8_ok_ascii)
  have "byte c < 0x80" if "c \<in> set (dec_nat n)" for c
    using dec_nat_digits [OF that] by (simp add: is_digit_def)
  then show "list_all (\<lambda>c. byte c < 0x80) (dec_nat n)" by (simp add: list_all_iff)
qed

lemma digit_0_iff: "n < 10 \<Longrightarrow> digit n = CHR ''0'' \<Longrightarrow> n = 0"
  using digit_props(2) [of n] by (simp add: digit_val_def)

lemma dec_nat_hd: "n \<noteq> 0 \<Longrightarrow> hd (dec_nat n) \<noteq> CHR ''0''"
proof (induction n rule: dec_nat.induct)
  case (1 n)
  then show ?case
    by (cases "n < 10") (auto simp: dec_nat.simps [of n] dest: digit_0_iff)
qed

lemma num_ok_dec_nat [simp]: "num_ok (dec_nat n)"
proof (cases "n = 0")
  case True
  then show ?thesis by (simp add: dec_nat.simps [of 0]) code_simp
next
  case False
  obtain c cs where d: "dec_nat n = c # cs" by (cases "dec_nat n") simp_all
  have dig: "is_digit x" if "x \<in> set (c # cs)" for x
    using dec_nat_digits [of x n] that d by simp
  have "takeWhile is_digit cs = cs" "dropWhile is_digit cs = []" "is_digit c"
    using dig by (simp_all add: takeWhile_eq_all_conv dropWhile_eq_Nil_conv)
  note rw = this
  have "c \<noteq> CHR ''-''" using dig [of c] by (auto simp: is_digit_def)
  moreover have "c \<noteq> CHR ''0''" using dec_nat_hd [OF False] d by simp
  ultimately show ?thesis
    by (simp add: num_ok_def parse_number_def parse_int_def parse_frac_def parse_exp_def d rw)
qed

lemma wf_str_field [simp]: "wf_members (str_field k v) \<longleftrightarrow> v = [] \<or> utf8_ok k \<and> utf8_ok v"
  by (simp add: str_field_def)

lemma wf_uint_field [simp]: "wf_members (uint_field k n) \<longleftrightarrow> n = 0 \<or> utf8_ok k"
  by (simp add: uint_field_def)

lemma wf_envelope_json: "wf_envelope e \<Longrightarrow> wf_json (envelope_json e)"
  by (simp add: wf_envelope_def envelope_json_def utf8_ok_ascii)

lemma parse_uint_dec_nat: "int n < 2 ^ 64 \<Longrightarrow> parse_uint (dec_nat n) = Some n"
  by (simp add: parse_uint_def list_all_iff dec_nat_digits)

lemma decode_members_append:
  "decode_members f (xs @ ys) a =
     (let (a1, ok1) = decode_members f xs a; (a2, ok2) = decode_members f ys a1 in (a2, ok1 \<and> ok2))"
  by (induction xs arbitrary: a) (auto simp: Let_def split: prod.splits)

lemma fold_names [simp]:
  "fold_key ''id'' = ''id''" "fold_key ''jid'' = ''jid''" "fold_key ''from'' = ''from''"
  "fold_key ''to'' = ''to''" "fold_key ''type'' = ''type''" "fold_key ''ack'' = ''ack''"
  "fold_key ''ct'' = ''ct''" "fold_key ''pwd'' = ''pwd''" "fold_key ''gid'' = ''gid''"
  by (simp_all add: lower_def)

lemma decode_envelope_fields:
  "decode_envelope_member (''id'', JStr v) e = (e\<lparr>eId := v\<rparr>, True)"
  "decode_envelope_member (''jid'', JStr v) e = (e\<lparr>eJid := v\<rparr>, True)"
  "decode_envelope_member (''from'', JStr v) e = (e\<lparr>eFrom := v\<rparr>, True)"
  "decode_envelope_member (''to'', JStr v) e = (e\<lparr>eTo := v\<rparr>, True)"
  "decode_envelope_member (''ct'', JStr v) e = (e\<lparr>eCt := v\<rparr>, True)"
  "decode_envelope_member (''pwd'', JStr v) e = (e\<lparr>ePwd := v\<rparr>, True)"
  "decode_envelope_member (''gid'', JStr v) e = (e\<lparr>eGid := v\<rparr>, True)"
  "int n < 2 ^ 64 \<Longrightarrow> decode_envelope_member (''type'', JNum (dec_nat n)) e = (e\<lparr>eType := n\<rparr>, True)"
  "int n < 2 ^ 64 \<Longrightarrow> decode_envelope_member (''ack'', JNum (dec_nat n)) e = (e\<lparr>eAck := n\<rparr>, True)"
  by (simp_all add: decode_envelope_member_def is_field_def parse_uint_dec_nat Let_def
      del: fold_key.simps)

lemma decode_str_fields:
  "eJid e = [] \<Longrightarrow> decode_members decode_envelope_member (str_field ''jid'' v @ rest) e =
     decode_members decode_envelope_member rest (e\<lparr>eJid := v\<rparr>)"
  "eFrom e = [] \<Longrightarrow> decode_members decode_envelope_member (str_field ''from'' v @ rest) e =
     decode_members decode_envelope_member rest (e\<lparr>eFrom := v\<rparr>)"
  "eTo e = [] \<Longrightarrow> decode_members decode_envelope_member (str_field ''to'' v @ rest) e =
     decode_members decode_envelope_member rest (e\<lparr>eTo := v\<rparr>)"
  "eCt e = [] \<Longrightarrow> decode_members decode_envelope_member (str_field ''ct'' v @ rest) e =
     decode_members decode_envelope_member rest (e\<lparr>eCt := v\<rparr>)"
  "ePwd e = [] \<Longrightarrow> decode_members decode_envelope_member (str_field ''pwd'' v @ rest) e =
     decode_members decode_envelope_member rest (e\<lparr>ePwd := v\<rparr>)"
  "eGid e = [] \<Longrightarrow> decode_members decode_envelope_member (str_field ''gid'' v) e = (e\<lparr>eGid := v\<rparr>, True)"
  "int n < 2 ^ 64 \<Longrightarrow> eAck e = 0 \<Longrightarrow> decode_members decode_envelope_member (uint_field ''ack'' n @ rest) e =
     decode_members decode_envelope_member rest (e\<lparr>eAck := n\<rparr>)"
  by (cases e, auto simp: str_field_def uint_field_def decode_envelope_fields)+

lemma decode_envelope_json:
  assumes "wf_envelope e"
  shows "decode_struct decode_envelope_member (envelope_json e) zero_Envelope = (e, True)"
  using assms
  by (simp add: envelope_json_def wf_envelope_def decode_envelope_fields decode_str_fields zero_Envelope_def)

definition wf_base :: "(string \<Rightarrow> string option) \<Rightarrow> BasePacket \<Rightarrow> bool" where
  "wf_base fl b \<longleftrightarrow> wf_envelope (pEnvelope b) \<and> utf8_ok (pVsn b) \<and>
     (case pEntity b of None \<Rightarrow> True | Some n \<Rightarrow> utf8_ok (nResult n) \<and> utf8_ok (nReason n)) \<and>
     (case pPayload b of None \<Rightarrow> True | Some v \<Rightarrow> wf_json v \<and> v \<noteq> JNull \<and> iface_of fl v = (v, True))"

lemma fold_base_names [simp]:
  "fold_key ''envelope'' = ''envelope''" "fold_key ''payload'' = ''payload''"
  "fold_key ''entity'' = ''entity''" "fold_key ''vsn'' = ''vsn''"
  "fold_key ''result'' = ''result''" "fold_key ''reason'' = ''reason''"
  by (simp_all add: lower_def)

lemma decode_entity_json:
  "decode_entity_ptr (entity_json n) None = (Some n, True)"
  by (cases n) (auto simp: decode_entity_ptr_def entity_json_def str_field_def
      decode_entity_member_def is_field_def simp del: fold_key.simps)

lemma decode_iface_id:
  "v \<noteq> JNull \<Longrightarrow> iface_of fl v = (v, True) \<Longrightarrow> decode_iface fl v old = (Some v, True)"
  by (cases v) (auto simp: decode_iface_def split: option.splits)

lemma decode_base_fields:
  assumes "wf_base fl b"
  shows "decode_members (decode_base_member fl) (base_fields b)
      \<lparr>pEnvelope = zero_Envelope, pPayload = None, pEntity = None, pVsn = []\<rparr> = (b, True)"
proof -
  have e: "decode_struct decode_envelope_member (envelope_json (pEnvelope b)) zero_Envelope =
      (pEnvelope b, True)"
    using assms decode_envelope_json by (auto simp: wf_base_def)
  show ?thesis
    using assms e
    by (cases b) (auto simp: base_fields_def decode_base_member_def is_field_def Let_def
        decode_iface_id decode_entity_json str_field_def wf_base_def
        simp del: fold_key.simps split: option.splits)
qed

lemma wf_base_fields:
  assumes "wf_base fl b"
  shows "wf_json (JObj (base_fields b))"
  using assms wf_envelope_json [of "pEnvelope b"]
  by (auto simp: wf_base_def base_fields_def entity_json_def utf8_ok_ascii split: option.splits)

lemma NewPacket_reads:
  assumes "wf_envelope (pEnvelope p)" "raw p = None"
  shows "NewPacket (ToJson p) = Inr (zero_Packet\<lparr>pEnvelope := pEnvelope p, raw := Some (ToJson p)\<rparr>)"
proof -
  obtain kvs where kvs: "envelope_json (pEnvelope p) = JObj kvs" by (simp add: envelope_json_def)
  have wf: "wf_members kvs" using wf_envelope_json [OF assms(1)] kvs by simp
  obtain rest where "ToJson p = marshal (JObj ((''envelope'', JObj kvs) # rest))"
    using assms(2) kvs by (auto simp: ToJson_def packet_json_def base_fields_def)
  moreover have "Get (marshal (JObj ((''envelope'', JObj kvs) # rest))) [''envelope''] =
      \<lparr>rType = TJSON, rRaw = marshal (JObj kvs), rStr = []\<rparr>"
    using Get_first [of "''envelope''" "JObj kvs" rest] wf by (simp add: utf8_ok_ascii)
  moreover have "json_parse (marshal (JObj kvs)) = Some (JObj kvs)"
    using wf by (intro json_parse_marshal) simp
  moreover have "decode_struct decode_envelope_member (JObj kvs) zero_Envelope = (pEnvelope p, True)"
    using decode_envelope_json [OF assms(1)] kvs by simp
  ultimately show ?thesis
    by (simp add: NewPacket_def Exists_def unmarshal_struct_def del: decode_struct.simps marshal.simps)
qed

text \<open>
  C35: What the server prints it can read back: for a packet built by the server (no raw
  bytes) whose envelope is UTF-8 and in range, \<open>NewPacket\<close> of \<open>ToJson\<close> succeeds with the same
  envelope and keeps the bytes, whatever payload, entity and delay list the packet
  carries.  The payload and version are not decoded: they come back unset.
\<close>

theorem NewPacket_ToJson:
  assumes "wf_envelope (pEnvelope p)" "raw p = None"
  shows "NewPacket (ToJson p) = Inr (zero_Packet\<lparr>pEnvelope := pEnvelope p, raw := Some (ToJson p)\<rparr>)"
  by (rule NewPacket_reads [OF assms])

theorem NewPacket_ToJson_witness:
  "NewPacket (ToJson (NewPacketSysNotify ''7'' ''hi'')) =
     Inr (zero_Packet\<lparr>pEnvelope := zero_Envelope\<lparr>eId := ''7'', eType := 4\<rparr>,
       raw := Some (ToJson (NewPacketSysNotify ''7'' ''hi''))\<rparr>)"
  using NewPacket_ToJson [of "NewPacketSysNotify ''7'' ''hi''"]
  by (simp add: NewPacketSysNotify_def newPacketWithEntity_def zero_Packet_def zero_Envelope_def
      wf_envelope_def utf8_ok.simps msg_type_defs)

lemma NewBasePacket_reads:
  assumes "wf_base fl b"
  shows "NewBasePacket fl (marshal (JObj (base_fields b))) = Inr b"
  using decode_base_fields [OF assms] json_parse_marshal [OF wf_base_fields [OF assms]]
  by (simp add: NewBasePacket_def unmarshal_struct_def del: marshal.simps)

text \<open>
  The decoder of stored messages inverts the printer: a base packet with UTF-8
  strings, numbers in range and a payload in the form Go's generic decoder produces comes
  back from its JSON text unchanged, payload, entity and version included.
\<close>

theorem NewBasePacket_roundtrip:
  assumes "wf_base fl b"
  shows "NewBasePacket fl (marshal (JObj (base_fields b))) = Inr b"
  by (rule NewBasePacket_reads [OF assms])

theorem NewBasePacket_roundtrip_witness:
  "NewBasePacket Some (marshal (JObj (base_fields
      \<lparr>pEnvelope = zero_Envelope\<lparr>eId := ''7'', eType := 1\<rparr>,
       pPayload = Some (JObj [(''body'', JStr ''hi'')]), pEntity = None, pVsn = ''v1''\<rparr>))) =
   Inr \<lparr>pEnvelope = zero_Envelope\<lparr>eId := ''7'', eType := 1\<rparr>,
       pPayload = Some (JObj [(''body'', JStr ''hi'')]), pEntity = None, pVsn = ''v1''\<rparr>"
  by (rule NewBasePacket_roundtrip)
    (simp add: wf_base_def wf_envelope_def zero_Envelope_def utf8_ok.simps upsert_def)

end
