(* ===== verification/Runtime.thy ===== *)
theory Runtime
  imports Packet
begin

text \<open>
  What the server takes from its surroundings, and the helpers over it: the clock
  (\<^verbatim>\<open>utils/dateutils.go\<close>), random identifiers (the vendored \<^verbatim>\<open>golibs/uuid\<close>) and HTTP posts
  (\<^verbatim>\<open>utils/httpclient.go\<close>).

  The surroundings are the record \<open>env\<close>, an argument of every operation that reads them:
  the \<open>n\<close>-th reading of the clock, the \<open>n\<close>-th block of random bytes, the answer to the
  \<open>n\<close>-th post, and the decimal texts and values of 64-bit floats.  The state counts the
  readings, so two readings may differ and nothing is said about how far apart they are.
  State records are extended by the later components; an operation works on every
  extension of the record it needs.
\<close>

datatype http_result =
    BadUrl             \<comment> \<open>the request could not be built\<close>
  | Failed string      \<comment> \<open>no answer; the error text\<close>
  | Body bytes         \<comment> \<open>the whole body of the answer\<close>

record env =
  float_json :: "string \<Rightarrow> string option"   \<comment> \<open>number literal to the text of its float\<close>
  float_text :: "bytes \<Rightarrow> bytes"            \<comment> \<open>the same, as \<open>gjson\<close> prints it\<close>
  float_int :: "bytes \<Rightarrow> int"              \<comment> \<open>number literal to its truncated float\<close>
  float_nz :: "bytes \<Rightarrow> bool"              \<comment> \<open>is the float different from zero\<close>
  json_err :: "bytes \<Rightarrow> string"            \<comment> \<open>text of the JSON error for rejected bytes\<close>
  time_at :: "nat \<Rightarrow> int"                  \<comment> \<open>nanoseconds since the epoch\<close>
  rand_at :: "nat \<Rightarrow> bytes"                \<comment> \<open>16 random bytes\<close>
  http :: "nat \<Rightarrow> string \<Rightarrow> bytes \<Rightarrow> http_result"   \<comment> \<open>post a form to a URL\<close>

record runtime =
  clock_n :: nat
  rand_n :: nat
  posts :: "(string \<times> bytes) list"

subsection \<open>The clock\<close>

text \<open>Integer division of Go truncates toward zero.\<close>

definition quot :: "int \<Rightarrow> int \<Rightarrow> int" where
  "quot a b = sgn a * sgn b * (\<bar>a\<bar> div \<bar>b\<bar>)"

definition now :: "'e env_scheme \<Rightarrow> ('z runtime_scheme, int) op" where
  "now E s = Ret (time_at E (clock_n s)) (s\<lparr>clock_n := Suc (clock_n s)\<rparr>)"

definition Timestamp10 :: "'e env_scheme \<Rightarrow> ('z runtime_scheme, int) op" where
  "Timestamp10 E = bindM (now E) (\<lambda>t. returnM (t div 1000000000))"

definition Timestamp13 :: "'e env_scheme \<Rightarrow> ('z runtime_scheme, int) op" where
  "Timestamp13 E = bindM (now E) (\<lambda>t. returnM (quot t 1000000))"

definition TimeoutTime :: "'e env_scheme \<Rightarrow> int \<Rightarrow> ('z runtime_scheme, int) op" where
  "TimeoutTime E second = bindM (now E) (\<lambda>t. returnM (t + 1000000000 * second))"

subsection \<open>Random identifiers\<close>

text \<open>\<open>Rand\<close> sets the version and variant bits of 16 random bytes; \<open>Hex\<close> prints them.\<close>

definition Rand :: "bytes \<Rightarrow> bytes" where
  "Rand x = x[6 := char_of (byte (x ! 6) mod 16 + 64), 8 := char_of (byte (x ! 8) mod 64 + 128)]"

definition hex2 :: "char \<Rightarrow> string" where
  "hex2 c = [hex_digit (byte c div 16), hex_digit (byte c mod 16)]"

definition Hex :: "bytes \<Rightarrow> string" where
  "Hex x = concat (map hex2 (take 4 x)) @ ''-'' @ concat (map hex2 (take 2 (drop 4 x))) @ ''-'' @
     concat (map hex2 (take 2 (drop 6 x))) @ ''-'' @ concat (map hex2 (take 2 (drop 8 x))) @ ''-'' @
     concat (map hex2 (take 6 (drop 10 x)))"

definition uuid_rand_hex :: "'e env_scheme \<Rightarrow> ('z runtime_scheme, string) op" where
  "uuid_rand_hex E s = Ret (Hex (Rand (rand_at E (rand_n s)))) (s\<lparr>rand_n := Suc (rand_n s)\<rparr>)"

subsection \<open>HTTP posts\<close>

text \<open>
  \<^verbatim>\<open>url.QueryEscape\<close> and the form encoding of one key and value.  \<open>PostRequest\<close> is only
  called with one pair; a pair without a value would be out of range.
\<close>

definition hex_up :: "nat \<Rightarrow> char" where
  "hex_up n = (if n < 10 then char_of (48 + n) else char_of (55 + n))"

definition unreserved :: "char \<Rightarrow> bool" where
  "unreserved c \<longleftrightarrow> is_digit c \<or> 65 \<le> byte c \<and> byte c \<le> 90 \<or> 97 \<le> byte c \<and> byte c \<le> 122 \<or>
     c = CHR ''-'' \<or> c = CHR ''_'' \<or> c = CHR ''.'' \<or> c = CHR ''~''"

definition QueryEscape :: "bytes \<Rightarrow> bytes" where
  "QueryEscape s = concat (map (\<lambda>c.
     if unreserved c then [c] else if c = CHR '' '' then ''+''
     else [CHR ''%'', hex_up (byte c div 16), hex_up (byte c mod 16)]) s)"

fun form_vals :: "bytes list \<Rightarrow> (bytes \<times> bytes) list \<Rightarrow> (bytes \<times> bytes) list go" where
  "form_vals [] acc = Inr acc"
| "form_vals [k] acc = Inl IndexRange"
| "form_vals (k # v # ps) acc =
     form_vals ps (sort_key fst ((k, v) # filter (\<lambda>kv. fst kv \<noteq> k) acc))"

definition form_encode :: "(bytes \<times> bytes) list \<Rightarrow> bytes" where
  "form_encode kvs = join ''&'' (map (\<lambda>(k, v). QueryEscape k @ ''='' @ QueryEscape v) kvs)"

definition PostRequest ::
  "'e env_scheme \<Rightarrow> string \<Rightarrow> bytes list \<Rightarrow> ('z runtime_scheme, string + bytes) op" where
  "PostRequest E urlStr params =
     bindM (liftM (form_vals params [])) (\<lambda>vals s.
       let form = form_encode vals; n = length (posts s) in
       case http E n urlStr form of
         BadUrl \<Rightarrow> Panic NilDeref s
       | Failed e \<Rightarrow> Ret (Inl e) (s\<lparr>posts := posts s @ [(urlStr, form)]\<rparr>)
       | Body b \<Rightarrow> Ret (Inr b) (s\<lparr>posts := posts s @ [(urlStr, form)]\<rparr>))"

text \<open>
  A concrete environment for examples: a clock that advances by a millisecond per reading,
  counting identifiers, whole numbers only, and a callback service that cannot be reached.
\<close>

definition sample_env :: env where
  "sample_env = \<lparr>float_json = Some, float_text = (\<lambda>l. l), float_int = parse_int64,
     float_nz = (\<lambda>l. parse_int64 l \<noteq> 0), json_err = (\<lambda>_. ''invalid json''),
     time_at = (\<lambda>n. 1700000000000000000 + 1000000 * int n),
     rand_at = (\<lambda>n. replicate 15 (CHR 0x00) @ [char_of n]),
     http = (\<lambda>n url form. Failed ''connection refused'')\<rparr>"

subsection \<open>Properties\<close>

lemma hex_digit_inj:
  assumes "m < 16" "n < 16" "hex_digit m = hex_digit n"
  shows "m = n"
  using hex_val_digit [OF assms(1)] hex_val_digit [OF assms(2)] unfolding assms(3) by simp

lemma byte_div_16: "byte c div 16 < 16"
  by (rule less_mult_imp_div_less) simp

lemma hex2_inj:
  assumes "hex2 c = hex2 d"
  shows "c = d"
proof -
  have "byte c div 16 = byte d div 16" "byte c mod 16 = byte d mod 16"
    using assms hex_digit_inj [OF byte_div_16 byte_div_16, of c d]
      hex_digit_inj [of "byte c mod 16" "byte d mod 16"] by (simp_all add: hex2_def)
  then have "byte c = byte d" by (metis div_mult_mod_eq)
  then show ?thesis by simp
qed

lemma hex2s_inj: "concat (map hex2 xs) = concat (map hex2 ys) \<Longrightarrow> length xs = length ys \<Longrightarrow> xs = ys"
proof (induction xs ys rule: list_induct2')
  case (4 x xs y ys)
  then have "hex2 x = hex2 y \<and> concat (map hex2 xs) = concat (map hex2 ys)"
    by (simp add: hex2_def)
  with 4 hex2_inj show ?case by simp
qed auto

lemma hex2s_length [simp]: "length (concat (map hex2 xs)) = 2 * length xs"
  by (induction xs) (simp_all add: hex2_def)

lemma Hex_inj:
  assumes "length x = 16" "length y = 16" "Hex x = Hex y"
  shows "x = y"
proof -
  have parts: "z = take 4 z @ take 2 (drop 4 z) @ take 2 (drop 6 z) @ take 2 (drop 8 z) @ take 6 (drop 10 z)"
    if "length z = 16" for z :: bytes
    using that append_take_drop_id [of 4 z] append_take_drop_id [of 2 "drop 4 z"]
      append_take_drop_id [of 2 "drop 6 z"] append_take_drop_id [of 2 "drop 8 z"]
    by simp
  have "take 4 x = take 4 y" "take 2 (drop 4 x) = take 2 (drop 4 y)" "take 2 (drop 6 x) = take 2 (drop 6 y)"
    "take 2 (drop 8 x) = take 2 (drop 8 y)" "take 6 (drop 10 x) = take 6 (drop 10 y)"
    using assms by (auto simp: Hex_def append_eq_append_conv intro!: hex2s_inj)
  then show ?thesis using parts [OF assms(1)] parts [OF assms(2)] by simp
qed

lemma Hex_length: "length x = 16 \<Longrightarrow> length (Hex x) = 36"
  by (simp add: Hex_def)

lemma Rand_length [simp]: "length (Rand x) = length x"
  by (simp add: Rand_def)

end
