(* ===== verification/Config.thy ===== *)
theory Config
  imports Runtime
begin

text \<open>
  The configuration table of \<^verbatim>\<open>config/config.go\<close>: a map from keys to values, filled at start
  with the built-in keys and then from the JSON file.  A value is dynamically typed
  (\<^verbatim>\<open>interface{}\<close>) and may be nil; reading it as another type panics.
\<close>

datatype conf_val = CString string | CInt int | CBool bool

record ConfVo =
  cKey :: string
  cVal :: "conf_val option"
  cDef :: "conf_val option"

record conf_state = runtime +
  conf :: "string \<rightharpoonup> ConfVo"

definition newConfVoKeyDef :: "string \<Rightarrow> conf_val \<Rightarrow> ConfVo" where
  "newConfVoKeyDef key def = \<lparr>cKey = key, cVal = None, cDef = Some def\<rparr>"

definition newConfVoKeyVal :: "string \<Rightarrow> conf_val \<Rightarrow> ConfVo" where
  "newConfVoKeyVal key val = \<lparr>cKey = key, cVal = Some val, cDef = Some val\<rparr>"

definition configs :: "ConfVo list" where
  "configs =
    [newConfVoKeyDef ''port'' (CInt 4222),
     newConfVoKeyDef ''wsport'' (CInt 4224),
     newConfVoKeyDef ''tlsport'' (CInt 4333),
     newConfVoKeyDef ''rpcport'' (CInt 4280),
     newConfVoKeyDef ''logfile'' (CString ''/tmp/sara.log''),
     newConfVoKeyDef ''loglevel'' (CInt 3),
     newConfVoKeyDef ''dbaddr'' (CString ''localhost:6379''),
     newConfVoKeyDef ''dbpool'' (CInt 1000),
     newConfVoKeyDef ''nodeaddr'' (CString ''localhost:4281''),
     newConfVoKeyDef ''callback'' (CString ''''),
     newConfVoKeyDef ''dc'' (CString ''dc01'')]"

text \<open>The package's \<open>init\<close>.\<close>

definition conf_init :: "string \<rightharpoonup> ConfVo" where
  "conf_init = foldl (\<lambda>m c. m(cKey c \<mapsto> c)) Map.empty configs"

subsection \<open>Access\<close>

definition set_conf :: "string \<Rightarrow> conf_val \<Rightarrow> ('z conf_state_scheme, unit) op" where
  "set_conf k v = modifyM (\<lambda>s. s\<lparr>conf := (conf s)(k \<mapsto> newConfVoKeyVal k v)\<rparr>)"

definition SetString :: "string \<Rightarrow> string \<Rightarrow> ('z conf_state_scheme, unit) op" where
  "SetString k val = set_conf k (CString val)"

definition SetInt :: "string \<Rightarrow> int \<Rightarrow> ('z conf_state_scheme, unit) op" where
  "SetInt k val = set_conf k (CInt val)"

definition SetBool :: "string \<Rightarrow> bool \<Rightarrow> ('z conf_state_scheme, unit) op" where
  "SetBool k val = set_conf k (CBool val)"

definition conf_string :: "(string \<rightharpoonup> ConfVo) \<Rightarrow> string \<Rightarrow> string \<Rightarrow> string go" where
  "conf_string m k def =
     (case m k of
        None \<Rightarrow> Inr def
      | Some c \<Rightarrow> (case cVal c of Some (CString v) \<Rightarrow> Inr v | _ \<Rightarrow> Inl TypeAssertion))"

definition conf_int :: "(string \<rightharpoonup> ConfVo) \<Rightarrow> string \<Rightarrow> int \<Rightarrow> int go" where
  "conf_int m k def =
     (case m k of
        None \<Rightarrow> Inr def
      | Some c \<Rightarrow> (case cVal c of Some (CInt v) \<Rightarrow> Inr v | _ \<Rightarrow> Inl TypeAssertion))"

definition conf_bool :: "(string \<rightharpoonup> ConfVo) \<Rightarrow> string \<Rightarrow> bool \<Rightarrow> bool go" where
  "conf_bool m k def =
     (case m k of
        None \<Rightarrow> Inr def
      | Some c \<Rightarrow> (case cVal c of Some (CBool v) \<Rightarrow> Inr v | _ \<Rightarrow> Inl TypeAssertion))"

definition GetString :: "string \<Rightarrow> string \<Rightarrow> ('z conf_state_scheme, string) op" where
  "GetString k def = bindM (getsM conf) (\<lambda>m. liftM (conf_string m k def))"

definition GetInt :: "string \<Rightarrow> int \<Rightarrow> ('z conf_state_scheme, int) op" where
  "GetInt k def = bindM (getsM conf) (\<lambda>m. liftM (conf_int m k def))"

definition GetBool :: "string \<Rightarrow> bool \<Rightarrow> ('z conf_state_scheme, bool) op" where
  "GetBool k def = bindM (getsM conf) (\<lambda>m. liftM (conf_bool m k def))"

definition GetDef :: "string \<Rightarrow> ('z conf_state_scheme, conf_val option) op" where
  "GetDef k = getsM (\<lambda>s. case conf s k of Some c \<Rightarrow> cDef c | None \<Rightarrow> None)"

lemmas conf_access_defs = set_conf_def SetString_def SetInt_def SetBool_def
  GetString_def GetInt_def GetBool_def GetDef_def conf_string_def conf_int_def conf_bool_def

subsection \<open>The configuration file\<close>

text \<open>
  \<open>LoadFromConf\<close> gets the content of the file, \<open>None\<close> when it cannot be read.  Its result
  tells whether it ended the process, which it does when no node id is known.
\<close>

datatype conf_kind = KString | KInt | KBool

definition conf_keys :: "(string \<times> conf_kind) list" where
  "conf_keys =
    [(''port'', KInt), (''wsport'', KInt), (''tlsport'', KInt), (''wssport'', KInt),
     (''rpcport'', KInt), (''accesstoken'', KString), (''logfile'', KString),
     (''loglevel'', KInt), (''dbaddr'', KString), (''dbpool'', KInt), (''nodeaddr'', KString),
     (''callback'', KString), (''dc'', KString), (''certfile'', KString), (''keyfile'', KString),
     (''enable_auth'', KBool), (''enable_offline_callback'', KBool), (''enable_tcp'', KBool),
     (''enable_tls'', KBool), (''enable_ws'', KBool), (''enable_wss'', KBool)]"

definition load_key ::
  "'e env_scheme \<Rightarrow> bytes \<Rightarrow> string \<times> conf_kind \<Rightarrow> ('z conf_state_scheme, unit) op" where
  "load_key E j kk =
     (let r = Get j [fst kk] in
      whenM (Exists r)
        (case snd kk of
           KString \<Rightarrow> SetString (fst kk) (ResultString (float_text E) r)
         | KInt \<Rightarrow> SetInt (fst kk) (ResultInt (float_int E) r)
         | KBool \<Rightarrow> SetBool (fst kk) (ResultBool (float_nz E) r)))"

definition LoadFromConf :: "'e env_scheme \<Rightarrow> bytes option \<Rightarrow> ('z conf_state_scheme, bool) op" where
  "LoadFromConf E buf =
     (case buf of
        None \<Rightarrow> returnM False
      | Some j \<Rightarrow>
          (let r = Get j [''nodeid'']; nid = ResultString (float_text E) r;
               rest = seqM (forM conf_keys (load_key E j)) (returnM False)
           in if Exists r \<and> nid \<noteq> [] then seqM (SetString ''nodeid'' nid) rest
              else bindM (GetString ''nodeid'' '''') (\<lambda>nid. if nid = [] then returnM True else rest)))"

definition LF :: string where
  "LF = [CHR 0x0A]"

definition Template :: string where
  "Template = concat (map (\<lambda>l. LF @ l)
    [''{'',
     ''    \"port\": 4222,'',
     ''    \"wsport\": 4224,'',
     ''    \"tlsport\": 4333,'',
     ''    \"wssport\": 4334,'',
     ''    \"rpcport\": 4280,'',
     ''    \"accesstoken\":\"http-rpc access token\",'',
     ''    \"nodeid\":\"n01\",'',
     ''    \"dbaddr\": \"localhost:6379\",'',
     ''    \"dbpool\":100,'',
     ''    \"callback\":\"\",'',
     ''    \"nodeaddr\": \"localhost:4281\",'',
     ''    \"logfile\":\"/tmp/sara.log\",'',
     ''    \"loglevel\":3,'',
     ''    \"dc\":\"dc01\",'',
     ''    \"certfile\":\"/etc/sara/server.pem\",'',
     ''    \"keyfile\":\"/etc/sara/server.key\",'',
     ''    \"enable_tcp\":true,'',
     ''    \"enable_tls\":false,'',
     ''    \"enable_ws\":true,'',
     ''    \"enable_wss\":false,'',
     ''    \"enable_auth\":false,'',
     ''    \"enable_offline_callback\":false'',
     ''}'', ''''])"

text \<open>The template is a JSON object, one member to a line.\<close>

definition template_settings :: "(string \<times> bytes \<times> json) list" where
  "template_settings =
    [(''port'', '': '', JNum ''4222''), (''wsport'', '': '', JNum ''4224''), (''tlsport'', '': '', JNum ''4333''),
     (''wssport'', '': '', JNum ''4334''), (''rpcport'', '': '', JNum ''4280''), (''accesstoken'', '':'', JStr ''http-rpc access token''),
     (''nodeid'', '':'', JStr ''n01''), (''dbaddr'', '': '', JStr ''localhost:6379''), (''dbpool'', '':'', JNum ''100''),
     (''callback'', '':'', JStr []), (''nodeaddr'', '': '', JStr ''localhost:4281''), (''logfile'', '':'', JStr ''/tmp/sara.log''),
     (''loglevel'', '':'', JNum ''3''), (''dc'', '':'', JStr ''dc01''), (''certfile'', '':'', JStr ''/etc/sara/server.pem''),
     (''keyfile'', '':'', JStr ''/etc/sara/server.key''), (''enable_tcp'', '':'', JBool True), (''enable_tls'', '':'', JBool False),
     (''enable_ws'', '':'', JBool True), (''enable_wss'', '':'', JBool False), (''enable_auth'', '':'', JBool False),
     (''enable_offline_callback'', '':'', JBool False)]"

fun template_lines :: "bytes \<Rightarrow> (string \<times> bytes \<times> json) list \<Rightarrow> (bytes \<times> bytes \<times> bytes \<times> json) list" where
  "template_lines sep [] = []"
| "template_lines sep ((k, mid, v) # xs) = (sep @ LF @ ''    '', k, mid, v) # template_lines '','' xs"

lemma Template_laid: "Template = LF @ CHR ''{'' # laid (template_lines [] template_settings) @ LF @ CHR ''}'' # LF"
  by code_simp

lemma Template_lookup:
  "Get Template [k] = (case map_of (map (\<lambda>(k, mid, v). (k, v)) template_settings) k of None \<Rightarrow> no_result | Some v \<Rightarrow> result_of v)"
proof -
  have "list_all laid_ok (template_lines [] template_settings)" "list_all laid_sep (tl (template_lines [] template_settings))"
    "map member (template_lines [] template_settings) = map (\<lambda>(k, mid, v). (k, v)) template_settings"
    "list_all (\<lambda>c. \<not> key_or_end c) LF" "value_end (hd (LF @ ''}''))" "list_all (\<lambda>c. c \<noteq> CHR ''{'' \<and> c \<noteq> CHR ''['' \<and> c \<noteq> BSLASH) LF"
    by code_simp+
  then show ?thesis unfolding Template_laid using Get_laid by simp
qed

subsection \<open>What the loaded table holds\<close>

definition file_val :: "'e env_scheme \<Rightarrow> bytes \<Rightarrow> string \<times> conf_kind \<Rightarrow> conf_val option" where
  "file_val E j kk =
     (let r = Get j [fst kk] in
      if Exists r then
        Some (case snd kk of
            KString \<Rightarrow> CString (ResultString (float_text E) r)
          | KInt \<Rightarrow> CInt (ResultInt (float_int E) r)
          | KBool \<Rightarrow> CBool (ResultBool (float_nz E) r))
      else None)"

definition upd_conf :: "string \<Rightarrow> conf_val option \<Rightarrow> (string \<rightharpoonup> ConfVo) \<Rightarrow> (string \<rightharpoonup> ConfVo)" where
  "upd_conf k v m = (case v of None \<Rightarrow> m | Some w \<Rightarrow> m(k \<mapsto> newConfVoKeyVal k w))"

lemma load_key_eq: "load_key E j kk s = Ret () (s\<lparr>conf := upd_conf (fst kk) (file_val E j kk) (conf s)\<rparr>)"
  by (cases "snd kk") (simp_all add: load_key_def file_val_def upd_conf_def Let_def conf_access_defs go_defs)

lemma forM_load_key:
  "forM ks (load_key E j) s =
     Ret () (s\<lparr>conf := fold (\<lambda>kk. upd_conf (fst kk) (file_val E j kk)) ks (conf s)\<rparr>)"
  by (induction ks arbitrary: s) (simp_all add: go_defs load_key_eq)

lemma fold_upd_conf_other:
  "k \<notin> fst ` set ks \<Longrightarrow> fold (\<lambda>kk. upd_conf (fst kk) (f kk)) ks m k = m k"
  by (induction ks arbitrary: m) (auto simp: upd_conf_def split: option.splits)

lemma fold_upd_conf_key:
  "distinct (map fst ks) \<Longrightarrow> (k, t) \<in> set ks \<Longrightarrow>
   fold (\<lambda>kk. upd_conf (fst kk) (f kk)) ks m k = upd_conf k (f (k, t)) m k"
proof (induction ks arbitrary: m)
  case (Cons kk ks)
  show ?case
  proof (cases "kk = (k, t)")
    case True
    with Cons.prems have "k \<notin> fst ` set ks" by simp
    with True show ?thesis by (simp add: fold_upd_conf_other)
  next
    case False
    with Cons.prems have "(k, t) \<in> set ks" by simp
    moreover from this have "k \<in> fst ` set ks" by force
    with Cons.prems have "fst kk \<noteq> k" by auto
    ultimately have "(k, t) \<in> set ks" "fst kk \<noteq> k" by simp_all
    then have "fold (\<lambda>kk. upd_conf (fst kk) (f kk)) ks (upd_conf (fst kk) (f kk) m) k =
        upd_conf k (f (k, t)) (upd_conf (fst kk) (f kk) m) k"
      using Cons by simp
    also have "\<dots> = upd_conf k (f (k, t)) m k"
      using \<open>fst kk \<noteq> k\<close> by (auto simp: upd_conf_def split: option.splits)
    finally show ?thesis by simp
  qed
qed simp

lemma load_rest:
  "seqM (forM conf_keys (load_key E j)) (returnM False) u =
     Ret False (u\<lparr>conf := fold (\<lambda>kk. upd_conf (fst kk) (file_val E j kk)) conf_keys (conf u)\<rparr>)"
  by (simp add: go_defs forM_load_key)

lemma conf_keys_distinct: "distinct (map fst conf_keys)" "''nodeid'' \<notin> fst ` set conf_keys"
  by (simp_all add: conf_keys_def)

text \<open>The table after a load that did not end the process.\<close>

lemma LoadFromConf_table:
  assumes "LoadFromConf E (Some j) s = Ret False t"
  obtains nid where "nid \<noteq> []" "conf_string (conf t) ''nodeid'' [] = Inr nid"
    "\<And>k kind. (k, kind) \<in> set conf_keys \<Longrightarrow> conf t k = upd_conf k (file_val E j (k, kind)) (conf s) k"
proof -
  define F where "F = fold (\<lambda>kk. upd_conf (fst kk) (file_val E j kk)) conf_keys"
  note step = load_rest [of E j, folded F_def]
  have kn: "k \<noteq> ''nodeid''" if "(k, kind) \<in> set conf_keys" for k kind
    using that conf_keys_distinct(2) by force
  obtain u nid where t: "t = u\<lparr>conf := F (conf u)\<rparr>" and nid: "nid \<noteq> []" "conf_string (conf u) ''nodeid'' [] = Inr nid"
    and u: "\<And>k kind. (k, kind) \<in> set conf_keys \<Longrightarrow> conf u k = conf s k"
  proof (cases "Exists (Get j [''nodeid'']) \<and> ResultString (float_text E) (Get j [''nodeid'']) \<noteq> []")
    case True
    let ?n = "ResultString (float_text E) (Get j [''nodeid''])"
    let ?u = "s\<lparr>conf := (conf s)(''nodeid'' \<mapsto> newConfVoKeyVal ''nodeid'' (CString ?n))\<rparr>"
    have "LoadFromConf E (Some j) s = seqM (forM conf_keys (load_key E j)) (returnM False) ?u"
      using True by (simp add: LoadFromConf_def Let_def SetString_def set_conf_def seqM_def bindM_def modifyM_def)
    then show ?thesis
      using True assms(1) kn
      by (intro that [of ?u ?n]) (auto simp: step conf_string_def newConfVoKeyVal_def)
  next
    case False
    then show ?thesis
      using assms(1)
      by (intro that [of s "projr (conf_string (conf s) ''nodeid'' [])"])
        (auto simp: LoadFromConf_def Let_def GetString_def bindM_def getsM_def liftM_def returnM_def step
          split: sum.splits if_splits)
  qed
  have "conf t ''nodeid'' = conf u ''nodeid''"
    using fold_upd_conf_other [OF conf_keys_distinct(2), of "file_val E j"] by (simp add: t F_def)
  then have "conf_string (conf t) ''nodeid'' [] = Inr nid" using nid(2) by (simp add: conf_string_def)
  then show thesis
  proof (rule that [OF nid(1)])
    fix k kind assume k: "(k, kind) \<in> set conf_keys"
    show "conf t k = upd_conf k (file_val E j (k, kind)) (conf s) k"
      using fold_upd_conf_key [OF conf_keys_distinct(1) k, of "file_val E j" "conf u"] u [OF k]
      by (simp add: t F_def upd_conf_def split: option.splits)
  qed
qed

text \<open>
  The configuration file decides: when loading does not end the process, every key
  the file contains reads back with the file's value (so a getter of the key's own type
  returns it whatever default it is given), every other known key keeps its old entry,
  and the node id is set and not empty.
\<close>

theorem LoadFromConf_loads:
  assumes "LoadFromConf E (Some j) s = Ret False t" and "(k, kind) \<in> set conf_keys"
  shows "(case file_val E j (k, kind) of
            None \<Rightarrow> conf t k = conf s k
          | Some (CString v) \<Rightarrow> (\<forall>d. GetString k d t = Ret v t)
          | Some (CInt v) \<Rightarrow> (\<forall>d. GetInt k d t = Ret v t)
          | Some (CBool v) \<Rightarrow> (\<forall>d. GetBool k d t = Ret v t)) \<and>
         (\<exists>nid. nid \<noteq> [] \<and> GetString ''nodeid'' [] t = Ret nid t)"
proof -
  obtain nid where nid: "nid \<noteq> []" "conf_string (conf t) ''nodeid'' [] = Inr nid"
    and val: "conf t k = upd_conf k (file_val E j (k, kind)) (conf s) k"
    using LoadFromConf_table [OF assms(1)] assms(2) by metis
  then have "GetString ''nodeid'' [] t = Ret nid t" by (simp add: GetString_def go_defs)
  with nid(1) val show ?thesis
    by (auto simp: upd_conf_def newConfVoKeyVal_def conf_access_defs go_defs split: option.splits conf_val.splits)
qed

definition sample_conf_file :: bytes where
  "sample_conf_file = marshal (JObj [(''nodeid'', JStr ''n1''), (''port'', JNum ''4222'')])"

lemma sample_conf_lookup:
  "Get sample_conf_file [k] =
     (case map_of [(''nodeid'', JStr ''n1''), (''port'', JNum ''4222'')] k of
        None \<Rightarrow> no_result | Some v \<Rightarrow> result_of v)"
proof -
  have "num_ok ''4222''" by code_simp
  then show ?thesis unfolding sample_conf_file_def by (intro Get_members) (simp add: utf8_ok.simps)
qed

definition sample_conf_state :: conf_state where
  "sample_conf_state = \<lparr>clock_n = 0, rand_n = 0, posts = [], conf = conf_init\<rparr>"

theorem LoadFromConf_loads_witness:
  "\<exists>t. LoadFromConf sample_env (Some sample_conf_file) sample_conf_state = Ret False t \<and>
     (\<forall>d. GetInt ''port'' d t = Ret 4222 t)"
proof -
  obtain t where t: "LoadFromConf sample_env (Some sample_conf_file) sample_conf_state = Ret False t"
    by (simp add: LoadFromConf_def sample_conf_lookup Let_def Exists_def ResultString_def SetString_def
        set_conf_def seqM_def bindM_def modifyM_def load_rest [unfolded seqM_def bindM_def])
  have "file_val sample_env sample_conf_file (''port'', KInt) = Some (CInt 4222)"
    by (simp add: file_val_def sample_conf_lookup Exists_def ResultInt_def sample_env_def) code_simp
  with LoadFromConf_loads [OF t, of "''port''" KInt] have "\<forall>d. GetInt ''port'' d t = Ret 4222 t"
    by (simp add: conf_keys_def)
  with t show ?thesis by blast
qed

text \<open>
  The built-in defaults cannot be read.  The table starts with an entry for every
  built-in key, but the entry has a default and no value, so every getter of such a key
  panics whatever default the caller passes, until the configuration file sets the key.
\<close>

theorem builtin_defaults_unreadable:
  assumes "c \<in> set configs" and "conf s = conf_init"
  shows "GetString (cKey c) d1 s = Panic TypeAssertion s \<and> GetInt (cKey c) d2 s = Panic TypeAssertion s \<and>
    GetBool (cKey c) d3 s = Panic TypeAssertion s"
proof -
  have "\<exists>e. conf_init (cKey c) = Some e \<and> cVal e = None"
    using assms(1) by (auto simp: configs_def conf_init_def newConfVoKeyDef_def)
  then show ?thesis using assms(2) by (auto simp: conf_access_defs go_defs)
qed

theorem builtin_defaults_unreadable_witness:
  "GetInt ''port'' 4222 sample_conf_state = Panic TypeAssertion sample_conf_state"
  using builtin_defaults_unreadable [of "newConfVoKeyDef ''port'' (CInt 4222)" sample_conf_state]
  by (simp add: configs_def newConfVoKeyDef_def sample_conf_state_def)

end
