(* ===== verification/External.thy ===== *)
theory External
  imports Config
begin

text \<open>
  The calls to the operator's callback service, \<^verbatim>\<open>external/*.go\<close>: the login check \<open>Auth\<close>, the
  group member lookup \<open>GetGroupUserList\<close> and the notification \<open>OfflineCallback\<close>.  The
  service itself is the \<open>http\<close> field of the environment; requests are recorded in \<open>posts\<close>.
\<close>

record Params =
  aSn :: string
  aService :: string
  aMethod :: string
  aParams :: "(bytes \<times> json) list option"   \<comment> \<open>a map, sorted by key; \<open>None\<close> is nil\<close>

text \<open>The answer struct \<^verbatim>\<open>rpcserver.Success\<close>.\<close>

record Success =
  sSn :: string
  sSuccess :: bool
  sEntity :: "json option"

definition Params_ToJson :: "Params \<Rightarrow> string + bytes" where
  "Params_ToJson self = Inr (marshal (JObj
     [(''sn'', JStr (aSn self)), (''service'', JStr (aService self)),
      (''method'', JStr (aMethod self)),
      (''params'', case aParams self of None \<Rightarrow> JNull | Some m \<Rightarrow> JObj m)]))"

fun params_map :: "string list \<Rightarrow> (bytes \<times> json) list \<Rightarrow> (bytes \<times> json) list" where
  "params_map (k # v # ps) acc = params_map ps (upsert k (JStr v) acc)"
| "params_map _ acc = acc"

definition NewParams ::
  "'e env_scheme \<Rightarrow> string \<Rightarrow> string \<Rightarrow> string list \<Rightarrow> ('z conf_state_scheme, Params) op" where
  "NewParams E service method params =
     bindM (uuid_rand_hex E) (\<lambda>sn. returnM
       \<lparr>aSn = sn, aService = service, aMethod = method,
        aParams = (if length params > 0 \<and> length params mod 2 = 0 then Some (params_map params []) else None)\<rparr>)"

fun decode_bool :: "json \<Rightarrow> bool \<Rightarrow> bool \<times> bool" where
  "decode_bool (JBool b) old = (b, True)"
| "decode_bool JNull old = (old, True)"
| "decode_bool _ old = (old, False)"

definition decode_success_member ::
  "(string \<Rightarrow> string option) \<Rightarrow> bytes \<times> json \<Rightarrow> Success \<Rightarrow> Success \<times> bool" where
  "decode_success_member fl kv p =
     (if is_field ''sn'' (fst kv) then
        (case decode_str (snd kv) (sSn p) of (x, ok) \<Rightarrow> (p\<lparr>sSn := x\<rparr>, ok))
      else if is_field ''success'' (fst kv) then
        (case decode_bool (snd kv) (sSuccess p) of (x, ok) \<Rightarrow> (p\<lparr>sSuccess := x\<rparr>, ok))
      else if is_field ''entity'' (fst kv) then
        (case decode_iface fl (snd kv) (sEntity p) of (x, ok) \<Rightarrow> (p\<lparr>sEntity := x\<rparr>, ok))
      else (p, True))"

text \<open>\<open>json.Unmarshal\<close> into the struct: what it holds afterwards, and whether there was no error.\<close>

definition unmarshal_success :: "(string \<Rightarrow> string option) \<Rightarrow> bytes \<Rightarrow> Success \<times> bool" where
  "unmarshal_success fl s =
     (let zero = \<lparr>sSn = [], sSuccess = False, sEntity = None\<rparr> in
      case json_parse s of
        None \<Rightarrow> (zero, False)
      | Some v \<Rightarrow> decode_struct (decode_success_member fl) v zero)"

subsection \<open>The three calls\<close>

definition Auth :: "'e env_scheme \<Rightarrow> string \<Rightarrow> string \<Rightarrow> ('z conf_state_scheme, bool) op" where
  "Auth E uid pwd =
     bindM (GetBool ''enable_auth'' True) (\<lambda>enabled.
     if \<not> enabled then returnM True else
     bindM (GetString ''callback'' []) (\<lambda>url.
     if url = [] then returnM True else
     bindM (NewParams E ''emsg_auth'' ''auth'' [''uid'', uid, ''token'', pwd]) (\<lambda>ps.
     case Params_ToJson ps of
       Inl body_err \<Rightarrow> returnM False
     | Inr body \<Rightarrow>
         bindM (PostRequest E url [''body'', body]) (\<lambda>r.
         case r of
           Inl e \<Rightarrow> returnM False
         | Inr s \<Rightarrow>
             (case unmarshal_success (float_json E) s of
                (success, ok) \<Rightarrow>
                  if \<not> ok then returnM False
                  else if sSuccess success then returnM True else returnM False)))))"

text \<open>
  \<open>GetGroupUserList\<close> does not return at its first error; it goes on with the empty answer
  and reports the last error it met, together with the list.
\<close>

definition GetGroupUserList ::
  "'e env_scheme \<Rightarrow> string \<Rightarrow> ('z conf_state_scheme, string list \<times> string option) op" where
  "GetGroupUserList E gid =
     bindM (GetString ''callback'' []) (\<lambda>url.
     if url = [] then returnM ([], Some ''callback_url_not_define'') else
     bindM (NewParams E ''emsg_group'' ''get_user_list'' [''gid'', gid]) (\<lambda>ps.
     case Params_ToJson ps of
       Inl body_err \<Rightarrow> returnM ([], Some body_err)
     | Inr body \<Rightarrow>
         bindM (PostRequest E url [''body'', body]) (\<lambda>r.
         let (s, err1) = (case r of Inl e \<Rightarrow> ([], Some e) | Inr s \<Rightarrow> (s, None));
             (success, ok) = unmarshal_success (float_json E) s;
             err2 = (if ok then err1 else Some (json_err E s))
         in if sSuccess success then
              returnM (map (ResultString (float_text E)) (Array (Get s [''entity'', ''users''])), err2)
            else returnM ([], Some (ResultString (float_text E) (Get s [''entity'']))))))"

text \<open>
  \<open>OfflineCallback\<close> decodes the packet text into a fresh map; the error is not looked at,
  so what the decoder managed to store is sent.
\<close>

definition unmarshal_map :: "(string \<Rightarrow> string option) \<Rightarrow> bytes \<Rightarrow> (bytes \<times> json) list option" where
  "unmarshal_map fl s =
     (case json_parse s of
        Some (JObj kvs) \<Rightarrow> Some (fst (iface_members fl kvs []))
      | Some JNull \<Rightarrow> None
      | _ \<Rightarrow> Some [])"

definition OfflineCallback :: "'e env_scheme \<Rightarrow> bytes \<Rightarrow> ('z conf_state_scheme, bool) op" where
  "OfflineCallback E packetStr =
     bindM (GetBool ''enable_offline_callback'' True) (\<lambda>enabled.
     if \<not> enabled then returnM True else
     bindM (GetString ''callback'' []) (\<lambda>url.
     if url = [] then returnM True else
     bindM (NewParams E ''user_message'' ''offline'' []) (\<lambda>ps.
     let ps' = ps\<lparr>aParams := unmarshal_map (float_json E) packetStr\<rparr>;
         body = (case Params_ToJson ps' of Inl _ \<Rightarrow> [] | Inr b \<Rightarrow> b)
     in bindM (PostRequest E url [''body'', body]) (\<lambda>r.
         case r of
           Inl e \<Rightarrow> returnM False
         | Inr s \<Rightarrow>
             (case unmarshal_success (float_json E) s of
                (success, ok) \<Rightarrow>
                  if \<not> ok then returnM False
                  else if sSuccess success then returnM True else returnM False)))))"

subsection \<open>Properties\<close>

text \<open>
  The calls change nothing but the supply of identifiers and the record of posts, in
  every extension of the state.
\<close>

definition ext_frame :: "'z conf_state_scheme \<Rightarrow> 'z conf_state_scheme \<Rightarrow> bool" where
  "ext_frame s t \<longleftrightarrow> (\<exists>n ps. t = s\<lparr>rand_n := n, posts := ps\<rparr>)"

lemma ext_frame_refl [simp]: "ext_frame s s"
  unfolding ext_frame_def by (rule exI [of _ "rand_n s"], rule exI [of _ "posts s"]) simp

lemma ext_frame_upd [simp]:
  "ext_frame s (s\<lparr>rand_n := n\<rparr>)" "ext_frame s (s\<lparr>posts := ps\<rparr>)" "ext_frame s (s\<lparr>rand_n := n, posts := ps\<rparr>)"
proof -
  have "s\<lparr>rand_n := n\<rparr> = s\<lparr>rand_n := n, posts := posts s\<rparr>" "s\<lparr>posts := ps\<rparr> = s\<lparr>rand_n := rand_n s, posts := ps\<rparr>"
    by simp_all
  then show "ext_frame s (s\<lparr>rand_n := n\<rparr>)" "ext_frame s (s\<lparr>posts := ps\<rparr>)" "ext_frame s (s\<lparr>rand_n := n, posts := ps\<rparr>)"
    unfolding ext_frame_def by blast+
qed

lemmas external_defs = Auth_def GetGroupUserList_def OfflineCallback_def NewParams_def PostRequest_def
  Params_ToJson_def GetBool_def GetString_def uuid_rand_hex_def

lemma Auth_frame [frame]: "ext_frame s (state_of (Auth E uid pwd s))"
  by (auto simp: external_defs go_defs Let_def split: sum.splits http_result.splits prod.splits)

lemma GetGroupUserList_frame [frame]: "ext_frame s (state_of (GetGroupUserList E gid s))"
  by (auto simp: external_defs go_defs Let_def split: sum.splits http_result.splits prod.splits)

lemma OfflineCallback_frame [frame]: "ext_frame s (state_of (OfflineCallback E pk s))"
  by (auto simp: external_defs go_defs Let_def split: sum.splits http_result.splits prod.splits)

text \<open>
  C37: The login check fails closed.  With authentication switched on and a callback URL
  set, \<open>Auth\<close> accepts only when the service answered the one post it made, which carries
  the user and the token, with a JSON document whose \<^verbatim>\<open>success\<close> is true and which decodes
  without an error; a transport error, an unreadable or a negative answer refuses.
\<close>

theorem Auth_fails_closed:
  assumes "GetBool ''enable_auth'' True s = Ret True s" and "GetString ''callback'' [] s = Ret url s"
    and "url \<noteq> []" and "Auth E uid pwd s = Ret True t"
  shows "\<exists>sn answer success. posts t = posts s @ [(url, form_encode [(''body'', marshal (JObj
      [(''sn'', JStr sn), (''service'', JStr ''emsg_auth''), (''method'', JStr ''auth''),
       (''params'', JObj [(''token'', JStr pwd), (''uid'', JStr uid)])]))])] \<and>
    http E (length (posts s)) url (snd (last (posts t))) = Body answer \<and>
    unmarshal_success (float_json E) answer = (success, True) \<and> sSuccess success"
proof -
  have p: "params_map [''uid'', uid, ''token'', pwd] [] = [(''token'', JStr pwd), (''uid'', JStr uid)]"
    by (simp add: upsert_def)
  have b: "Auth E uid pwd s = bindM (NewParams E ''emsg_auth'' ''auth'' [''uid'', uid, ''token'', pwd]) (\<lambda>ps.
     case Params_ToJson ps of
       Inl body_err \<Rightarrow> returnM False
     | Inr body \<Rightarrow>
         bindM (PostRequest E url [''body'', body]) (\<lambda>r.
         case r of
           Inl e \<Rightarrow> returnM False
         | Inr s \<Rightarrow>
             (case unmarshal_success (float_json E) s of
                (success, ok) \<Rightarrow>
                  if \<not> ok then returnM False
                  else if sSuccess success then returnM True else returnM False))) s"
    unfolding Auth_def by (simp add: bindM_def [of "GetBool _ _"] bindM_def [of "GetString _ _"] assms(1-3))
  show ?thesis
    using assms(4) unfolding b
    by (auto simp: NewParams_def uuid_rand_hex_def Params_ToJson_def PostRequest_def go_defs Let_def p
        simp del: params_map.simps marshal.simps split: http_result.splits prod.splits if_splits)
qed

text \<open>An environment whose callback service answers every post with a fixed text.\<close>

definition answering_env :: "bytes \<Rightarrow> env" where
  "answering_env b = sample_env\<lparr>http := (\<lambda>n url form. Body b)\<rparr>"

definition callback_state :: conf_state where
  "callback_state = sample_conf_state\<lparr>conf := [''callback'' \<mapsto> newConfVoKeyVal ''callback'' (CString ''http://cb'')]\<rparr>"

lemma callback_state_reads:
  "GetBool ''enable_auth'' True callback_state = Ret True callback_state"
  "GetString ''callback'' [] callback_state = Ret ''http://cb'' callback_state"
  by (simp_all add: callback_state_def conf_access_defs newConfVoKeyVal_def go_defs)

lemma answer_decodes:
  assumes "wf_members kvs"
  shows "unmarshal_success fl (marshal (JObj kvs)) =
    decode_members (decode_success_member fl) kvs \<lparr>sSn = [], sSuccess = False, sEntity = None\<rparr>"
  using json_parse_marshal [of "JObj kvs"] assms by (simp add: unmarshal_success_def del: marshal.simps)

lemma fold_success_names [simp]:
  "fold_key ''sn'' = ''sn''" "fold_key ''success'' = ''success''"
  by (simp_all add: lower_def)

lemma Auth_answer:
  assumes "unmarshal_success (float_json (answering_env b)) b = (success, ok)"
  shows "\<exists>t. Auth (answering_env b) uid pwd callback_state = Ret (ok \<and> sSuccess success) t"
  using assms
  by (simp add: Auth_def bindM_def [of "GetBool _ _"] bindM_def [of "GetString _ _"] callback_state_reads)
    (auto simp: NewParams_def uuid_rand_hex_def Params_ToJson_def PostRequest_def go_defs answering_env_def
      simp del: params_map.simps marshal.simps)

theorem Auth_fails_closed_witness:
  "\<exists>t. Auth (answering_env (marshal (JObj [(''success'', JBool True)]))) ''u'' ''p'' callback_state = Ret True t \<and>
     length (posts t) = 1"
proof -
  let ?E = "answering_env (marshal (JObj [(''success'', JBool True)]))"
  have "unmarshal_success (float_json ?E) (marshal (JObj [(''success'', JBool True)])) =
      (\<lparr>sSn = [], sSuccess = True, sEntity = None\<rparr>, True)"
    by (subst answer_decodes)
      (simp_all add: utf8_ok_ascii decode_success_member_def is_field_def del: fold_key.simps)
  from Auth_answer [OF this] obtain t where t: "Auth ?E ''u'' ''p'' callback_state = Ret True t" by auto
  from Auth_fails_closed [OF callback_state_reads _ t] have "length (posts t) = 1"
    by (auto simp: callback_state_def sample_conf_state_def)
  with t show ?thesis by blast
qed

text \<open>
  The answer format the source documents is refused.  The comments of the callbacks
  give \<^verbatim>\<open>"success":"true"\<close>, a string; the struct field is a boolean, so decoding such an
  answer is an error and the login check returns false for it.
\<close>

theorem documented_answer_rejected:
  assumes "utf8_ok sn"
  defines "answer \<equiv> marshal (JObj [(''sn'', JStr sn), (''success'', JStr ''true'')])"
  shows "\<exists>t. Auth (answering_env answer) uid pwd callback_state = Ret False t"
proof -
  have "unmarshal_success (float_json (answering_env answer)) answer =
      (\<lparr>sSn = sn, sSuccess = False, sEntity = None\<rparr>, False)"
    unfolding answer_def using assms(1)
    by (subst answer_decodes)
      (simp_all add: utf8_ok_ascii decode_success_member_def is_field_def del: fold_key.simps)
  from Auth_answer [OF this] show ?thesis by simp
qed

theorem documented_answer_rejected_witness:
  "\<exists>t. Auth (answering_env (marshal (JObj [(''sn'', JStr ''789456123''), (''success'', JStr ''true'')])))
     ''u'' ''p'' callback_state = Ret False t"
  by (rule documented_answer_rejected) (simp add: utf8_ok_ascii)

end
