(* ===== verification/Jid.thy ===== *)
theory Jid
  imports Defines
begin

text \<open>
  The JID addresses of \<^verbatim>\<open>core/types/packet.go\<close>: \<^verbatim>\<open>user@domain/resource\<close>, their
  parser \<open>NewJID\<close> and the methods of \<^verbatim>\<open>*JID\<close>.  A pointer is an \<open>option\<close>; a method
  called on the nil pointer panics, as the field access in its body does.  The code
  often ignores the error of \<open>NewJID\<close> and keeps the pointer: \<open>NewJID_ptr\<close>.
\<close>

record JID =
  user :: string
  domain :: string
  resource :: string

definition NewJID :: "string \<Rightarrow> string + JID" where
  "NewJID str =
     (let arr = split_on (CHR ''@'') str in
      if length arr > 1 then
        (let arr2 = split_on (CHR ''/'') (arr ! 1) in
         Inr \<lparr>user = arr ! 0, domain = arr2 ! 0,
              resource = (if length arr2 = 2 then arr2 ! 1 else [])\<rparr>)
      else Inl (''fail format of jid :'' @ str))"

definition NewJID_ptr :: "string \<Rightarrow> JID option" where
  "NewJID_ptr str = (case NewJID str of Inl e \<Rightarrow> None | Inr j \<Rightarrow> Some j)"

definition deref :: "'a option \<Rightarrow> 'a go" where
  "deref p = (case p of None \<Rightarrow> Inl NilDeref | Some x \<Rightarrow> Inr x)"

definition StringWithoutResource :: "JID option \<Rightarrow> string go" where
  "StringWithoutResource self =
     bindG (deref self) (\<lambda>j. Inr (user j @ ''@'' @ domain j))"

definition String :: "JID option \<Rightarrow> string go" where
  "String self =
     bindG (deref self) (\<lambda>j.
       if resource j \<noteq> [] then Inr (user j @ ''@'' @ domain j @ ''/'' @ resource j)
       else Inr (user j @ ''@'' @ domain j))"

definition GetUser :: "JID option \<Rightarrow> string go" where
  "GetUser self = bindG (deref self) (\<lambda>j. Inr (user j))"

definition GetDomain :: "JID option \<Rightarrow> string go" where
  "GetDomain self = bindG (deref self) (\<lambda>j. Inr (domain j))"

definition GetResource :: "JID option \<Rightarrow> string go" where
  "GetResource self = bindG (deref self) (\<lambda>j. Inr (resource j))"

definition Equal :: "JID option \<Rightarrow> string \<Rightarrow> bool go" where
  "Equal self j = bindG (String self) (\<lambda>s. Inr (s = j))"

definition EqualWithoutResource :: "JID option \<Rightarrow> string \<Rightarrow> bool go" where
  "EqualWithoutResource self j =
     (let jj = NewJID_ptr j in
      bindG (StringWithoutResource jj) (\<lambda>j'.
      bindG (StringWithoutResource self) (\<lambda>s. Inr (s = j'))))"

definition ToSessionid :: "JID option \<Rightarrow> bytes go" where
  "ToSessionid self = bindG (StringWithoutResource self) (\<lambda>s. Inr (SESSION_PERFIX @ s))"

definition ToOfflineKey :: "JID option \<Rightarrow> bytes go" where
  "ToOfflineKey self = bindG (StringWithoutResource self) (\<lambda>s. Inr (OFFLINE_PERFIX @ s))"

definition NewJIDByUidDomain :: "string \<Rightarrow> string \<Rightarrow> string + JID" where
  "NewJIDByUidDomain uid d = NewJID (uid @ ''@'' @ d)"

subsection \<open>Well-formed addresses\<close>

text \<open>What the parser can produce: the separators do not occur inside the parts.\<close>

definition wf_jid :: "JID \<Rightarrow> bool" where
  "wf_jid j \<longleftrightarrow> CHR ''@'' \<notin> set (user j) \<and>
     CHR ''@'' \<notin> set (domain j) \<and> CHR ''/'' \<notin> set (domain j) \<and>
     CHR ''@'' \<notin> set (resource j) \<and> CHR ''/'' \<notin> set (resource j)"

text \<open>The address without its resource, and the keys the database stores it under.\<close>

definition bare :: "JID \<Rightarrow> string" where
  "bare j = user j @ ''@'' @ domain j"

abbreviation session_key :: "JID \<Rightarrow> bytes" where
  "session_key j \<equiv> SESSION_PERFIX @ bare j"

abbreviation offline_key :: "JID \<Rightarrow> bytes" where
  "offline_key j \<equiv> OFFLINE_PERFIX @ bare j"

lemma deref_simps [simp]: "deref None = Inl NilDeref" "deref (Some x) = Inr x"
  by (simp_all add: deref_def)

lemma bindG_simps [simp]: "bindG (Inl p) f = Inl p" "bindG (Inr a) f = f a"
  by (simp_all add: bindG_def)

lemma jid_method_simps [simp]:
  "StringWithoutResource (Some j) = Inr (bare j)"
  "StringWithoutResource None = Inl NilDeref"
  "GetUser (Some j) = Inr (user j)" "GetUser None = Inl NilDeref"
  "GetDomain (Some j) = Inr (domain j)" "GetDomain None = Inl NilDeref"
  "GetResource (Some j) = Inr (resource j)" "GetResource None = Inl NilDeref"
  "ToSessionid (Some j) = Inr (session_key j)" "ToSessionid None = Inl NilDeref"
  "ToOfflineKey (Some j) = Inr (offline_key j)" "ToOfflineKey None = Inl NilDeref"
  by (simp_all add: StringWithoutResource_def GetUser_def GetDomain_def GetResource_def
      ToSessionid_def ToOfflineKey_def bare_def)

lemma NewJID_error_iff: "(\<exists>e. NewJID s = Inl e) \<longleftrightarrow> CHR ''@'' \<notin> set s"
  by (simp add: NewJID_def Let_def split_on_many_iff)

lemma NewJID_ptr_None_iff: "NewJID_ptr s = None \<longleftrightarrow> CHR ''@'' \<notin> set s"
  using NewJID_error_iff [of s] by (auto simp: NewJID_ptr_def split: sum.splits)

lemma NewJID_ptr_Some [simp]: "NewJID_ptr s = Some j \<longleftrightarrow> NewJID s = Inr j"
  by (auto simp: NewJID_ptr_def split: sum.splits)

lemma NewJID_Inr_ptr: "NewJID s = Inr j \<Longrightarrow> NewJID_ptr s = Some j"
  by simp

lemma NewJID_Inl_ptr: "NewJID s = Inl e \<Longrightarrow> NewJID_ptr s = None"
  by (simp add: NewJID_ptr_def)

lemma split_on_nth: "i < length (split_on c s) \<Longrightarrow> c \<notin> set (split_on c s ! i)"
  by (auto intro!: split_on_parts [of _ c s])

lemma set_split_on: "p \<in> set (split_on c s) \<Longrightarrow> set p \<subseteq> set s"
  by (induction s arbitrary: p) (fastforce split: if_splits list.splits)+

lemma NewJID_wf:
  assumes "NewJID s = Inr j"
  shows "wf_jid j"
proof -
  define arr where "arr = split_on (CHR ''@'') s"
  define arr2 where "arr2 = split_on (CHR ''/'') (arr ! 1)"
  have len: "length arr > 1"
    and j: "j = \<lparr>user = arr ! 0, domain = arr2 ! 0,
              resource = (if length arr2 = 2 then arr2 ! 1 else [])\<rparr>"
    using assms unfolding NewJID_def arr_def arr2_def Let_def by (simp_all split: if_splits)
  have at: "CHR ''@'' \<notin> set (arr ! 0)" "CHR ''@'' \<notin> set (arr ! 1)"
    using len split_on_nth [of 0 "CHR ''@''" s] split_on_nth [of 1 "CHR ''@''" s]
    unfolding arr_def by simp_all
  have ne: "arr2 \<noteq> []" by (simp add: arr2_def)
  have parts: "p \<in> set arr2 \<Longrightarrow> CHR ''@'' \<notin> set p \<and> CHR ''/'' \<notin> set p" for p
    using at(2) set_split_on [of p "CHR ''/''" "arr ! 1"] split_on_parts [of p "CHR ''/''" "arr ! 1"]
    unfolding arr2_def by blast
  have p0: "arr2 ! 0 \<in> set arr2" using ne by simp
  have p1: "length arr2 = 2 \<Longrightarrow> arr2 ! 1 \<in> set arr2" by simp
  show ?thesis
    using at(1) parts [OF p0] parts [OF p1] by (simp add: j wf_jid_def)
qed

text \<open>A well-formed address is what its own printed form parses to.\<close>

lemma NewJID_bare: "wf_jid j \<Longrightarrow> NewJID (bare j) = Inr (j\<lparr>resource := []\<rparr>)"
  by (simp add: NewJID_def bare_def wf_jid_def split_on_no_sep)

lemma NewJID_full:
  assumes "wf_jid j"
  shows "NewJID (user j @ ''@'' @ domain j @ ''/'' @ resource j) = Inr j"
  using assms by (simp add: NewJID_def wf_jid_def split_on_no_sep)

lemma String_Some: "String (Some j) =
  Inr (if resource j = [] then bare j else user j @ ''@'' @ domain j @ ''/'' @ resource j)"
  by (simp add: String_def bare_def)

lemma NewJID_String:
  assumes "wf_jid j" and "String (Some j) = Inr s"
  shows "NewJID s = Inr j"
proof (cases "resource j = []")
  case True
  with assms show ?thesis by (auto simp: String_Some NewJID_bare)
next
  case False
  with assms(2) NewJID_full [OF assms(1)] show ?thesis by (simp add: String_Some)
qed

lemma bare_inj:
  assumes "wf_jid i" "wf_jid j" "bare i = bare j"
  shows "user i = user j" "domain i = domain j"
proof -
  have "Inr (i\<lparr>resource := []\<rparr>) = (Inr (j\<lparr>resource := []\<rparr>) :: string + JID)"
    using NewJID_bare [OF assms(1)] NewJID_bare [OF assms(2)] assms(3) by metis
  then have eq: "i\<lparr>resource := []\<rparr> = j\<lparr>resource := []\<rparr>" by simp
  show "user i = user j" using arg_cong [OF eq, of user] by simp
  show "domain i = domain j" using arg_cong [OF eq, of domain] by simp
qed

lemma bare_eq_iff:
  "wf_jid i \<Longrightarrow> wf_jid j \<Longrightarrow> bare i = bare j \<longleftrightarrow> user i = user j \<and> domain i = domain j"
  by (rule iffI) (blast intro: bare_inj, simp add: bare_def)

lemma EqualWithoutResource_Some:
  "NewJID s = Inr j' \<Longrightarrow> EqualWithoutResource (Some j) s = Inr (bare j = bare j')"
  by (simp add: EqualWithoutResource_def NewJID_Inr_ptr)

lemma EqualWithoutResource_bad:
  "NewJID s = Inl e \<Longrightarrow> EqualWithoutResource p s = Inl NilDeref"
  by (simp add: EqualWithoutResource_def NewJID_Inl_ptr)

lemma bare_session_key_inj [simp]: "session_key i = session_key j \<longleftrightarrow> bare i = bare j"
  by simp

text \<open>
  Addresses round trip.  Whatever text \<open>NewJID\<close> accepts, printing the parsed address
  with \<open>String\<close> gives a text that parses to the same address: the printed form is a
  canonical representative of the address.
\<close>

theorem NewJID_String_roundtrip:
  assumes "NewJID s = Inr j"
  shows "\<exists>t. String (Some j) = Inr t \<and> NewJID t = Inr j"
proof -
  obtain t where t: "String (Some j) = Inr t" by (simp add: String_Some)
  with NewJID_String [OF NewJID_wf [OF assms]] show ?thesis by blast
qed

theorem NewJID_String_roundtrip_witness:
  "NewJID ''foo@bar.com/helloworld'' =
     Inr \<lparr>user = ''foo'', domain = ''bar.com'', resource = ''helloworld''\<rparr> \<and>
   (\<exists>t. String (Some \<lparr>user = ''foo'', domain = ''bar.com'', resource = ''helloworld''\<rparr>) = Inr t \<and>
        NewJID t = Inr \<lparr>user = ''foo'', domain = ''bar.com'', resource = ''helloworld''\<rparr>)"
proof -
  have h: "NewJID ''foo@bar.com/helloworld'' =
     Inr \<lparr>user = ''foo'', domain = ''bar.com'', resource = ''helloworld''\<rparr>"
    by code_simp
  show ?thesis using h NewJID_String_roundtrip [OF h] by blast
qed

text \<open>
  Database keys are collision free.  Two addresses that were parsed from client text
  get the same session key exactly when they name the same user of the same domain
  (whatever the resource), the same holds for the offline key, and a session key is never
  an offline key.
\<close>

theorem jid_keys_injective:
  assumes "NewJID s = Inr i" and "NewJID t = Inr j"
  shows "(ToSessionid (Some i) = ToSessionid (Some j) \<longleftrightarrow> user i = user j \<and> domain i = domain j) \<and>
         (ToOfflineKey (Some i) = ToOfflineKey (Some j) \<longleftrightarrow> user i = user j \<and> domain i = domain j) \<and>
         ToSessionid (Some i) \<noteq> ToOfflineKey (Some j)"
  by (simp add: bare_eq_iff [OF NewJID_wf [OF assms(1)] NewJID_wf [OF assms(2)]])

theorem jid_keys_injective_witness:
  "NewJID ''a@b/pc'' = Inr \<lparr>user = ''a'', domain = ''b'', resource = ''pc''\<rparr> \<and>
   NewJID ''a@b'' = Inr \<lparr>user = ''a'', domain = ''b'', resource = []\<rparr> \<and>
   ToSessionid (Some \<lparr>user = ''a'', domain = ''b'', resource = ''pc''\<rparr>) =
   ToSessionid (Some \<lparr>user = ''a'', domain = ''b'', resource = []\<rparr>)"
proof -
  have h1: "NewJID ''a@b/pc'' = Inr \<lparr>user = ''a'', domain = ''b'', resource = ''pc''\<rparr>"
    by code_simp
  have h2: "NewJID ''a@b'' = Inr \<lparr>user = ''a'', domain = ''b'', resource = []\<rparr>"
    by code_simp
  show ?thesis using h1 h2 jid_keys_injective [OF h1 h2] by simp
qed

end
