(* ===== verification/Database.thy ===== *)
theory Database
  imports External Jid
begin

text \<open>
  The database layer of \<^verbatim>\<open>saradb/database.go\<close> over a Redis server.  Session keys are written
  synchronously (\<open>executeDirect\<close>) and deleted through the queue \<open>wbCh4s\<close>; everything else is
  written through the queue \<open>wbCh\<close>, which a closing database closes.  The workers that
  drain the queues are in theory \<open>Write_Buffer\<close>.

  The server is outside the program: the environment gives the reply to a command and the
  server's next state (\<open>exec\<close>).  Replies are the client library's \<open>Resp\<close> values with its
  conversions \<open>Bytes\<close>, \<open>Int\<close> and \<open>ListBytes\<close>.
\<close>

datatype redis_cmd =
    SET bytes bytes | SETEX bytes int bytes | GET bytes | DEL bytes
  | HSET bytes bytes bytes | HDEL bytes bytes | HKEYS bytes | HVALS bytes | HLEN bytes
  | EXPIRE bytes int | PUBLISH bytes bytes

datatype Resp =
    RSimple bytes | RBulk bytes | RIOErr string | RAppErr string | RInt int
  | RArray "Resp list" | RNil

datatype DBMODEL = MODEL_CLUSTER | MODEL_SINGLE

text \<open>An element of a write queue: a command, or the request to a worker to stop.\<close>

datatype writeBufArgs = Wb redis_cmd | WbKill

text \<open>The local variables of a queue worker, and the command it has taken but not yet run.\<close>

record worker =
  wbTotal :: int
  kill :: bool
  send_kill :: bool
  w_hold :: "redis_cmd option"
  w_done :: bool

record 'r db_env = env +
  exec :: "DBMODEL \<Rightarrow> redis_cmd \<Rightarrow> 'r \<Rightarrow> Resp \<times> 'r"

record 'r db_state = conf_state +
  redis :: 'r
  db_model :: DBMODEL
  wbCh :: "writeBufArgs list"
  wbCh4s :: "writeBufArgs list"
  wbClosed :: bool
  wk :: "worker list"
  wk4s :: "worker list"

subsection \<open>Replies\<close>

definition Bytes :: "Resp \<Rightarrow> string + bytes" where
  "Bytes r =
     (case r of
        RIOErr e \<Rightarrow> Inl e | RAppErr e \<Rightarrow> Inl e
      | RSimple b \<Rightarrow> Inr b | RBulk b \<Rightarrow> Inr b
      | _ \<Rightarrow> Inl ''wrong type'')"

definition resp_err :: "Resp \<Rightarrow> string option" where
  "resp_err r = (case r of RIOErr e \<Rightarrow> Some e | RAppErr e \<Rightarrow> Some e | _ \<Rightarrow> None)"

definition is_int64 :: "bytes \<Rightarrow> bool" where
  "is_int64 s \<longleftrightarrow>
     (let ds = (if s \<noteq> [] \<and> (hd s = CHR ''-'' \<or> hd s = CHR ''+'') then tl s else s)
      in ds \<noteq> [] \<and> list_all is_digit ds \<and>
         (if hd s = CHR ''-'' then int (dec_val ds) \<le> 2 ^ 63 else int (dec_val ds) < 2 ^ 63))"

definition Int64 :: "Resp \<Rightarrow> string + int" where
  "Int64 r =
     (case r of
        RIOErr e \<Rightarrow> Inl e | RAppErr e \<Rightarrow> Inl e
      | RInt i \<Rightarrow> Inr i
      | _ \<Rightarrow>
          (case Bytes r of
             Inr s \<Rightarrow> if is_int64 s then Inr (parse_int64 s) else Inl (''strconv.ParseInt: parsing '' @ s)
           | Inl _ \<Rightarrow> Inl ''could not convert to int''))"

fun list_bytes :: "Resp list \<Rightarrow> string + bytes list" where
  "list_bytes [] = Inr []"
| "list_bytes (m # ms) =
     (case (if m = RNil then Inr [] else Bytes m) of
        Inl e \<Rightarrow> Inl e
      | Inr b \<Rightarrow> (case list_bytes ms of Inl e \<Rightarrow> Inl e | Inr bs \<Rightarrow> Inr (b # bs)))"

definition ListBytes :: "Resp \<Rightarrow> string + bytes list" where
  "ListBytes r =
     (case r of
        RIOErr e \<Rightarrow> Inl e | RAppErr e \<Rightarrow> Inl e
      | RArray ms \<Rightarrow> list_bytes ms
      | _ \<Rightarrow> Inl ''could not convert to array'')"

subsection \<open>Sending commands\<close>

type_synonym ('r, 'z, 'a) db_op = "(('r, 'z) db_state_scheme, 'a) op"

definition executeDirect :: "('r, 'e) db_env_scheme \<Rightarrow> redis_cmd \<Rightarrow> ('r, 'z, Resp) db_op" where
  "executeDirect E cmd s = (case exec E (db_model s) cmd (redis s) of (r, db) \<Rightarrow> Ret r (s\<lparr>redis := db\<rparr>))"

definition execute :: "redis_cmd \<Rightarrow> ('r, 'z, Resp option) db_op" where
  "execute cmd s = (if wbClosed s then Panic SendClosed s else Ret None (s\<lparr>wbCh := wbCh s @ [Wb cmd]\<rparr>))"

definition execute4s :: "redis_cmd \<Rightarrow> ('r, 'z, Resp option) db_op" where
  "execute4s cmd s = Ret None (s\<lparr>wbCh4s := wbCh4s s @ [Wb cmd]\<rparr>)"

definition is4s :: "bytes \<Rightarrow> bool" where
  "is4s key \<longleftrightarrow> index_of SESSION_PERFIX key = Some 0"

definition IDX_SUFFIX :: bytes where
  "IDX_SUFFIX = ''_idx''"

text \<open>A function body with a deferred \<open>recover\<close>: a panic ends it with the zero result.\<close>

definition recovering :: "'a \<Rightarrow> ('s, 'a) op \<Rightarrow> ('s, 'a) op" where
  "recovering zero m s = (case m s of Ret a t \<Rightarrow> Ret a t | Panic p t \<Rightarrow> Ret zero t)"

declare recovering_def [go_defs]

subsection \<open>The operations of the interface\<close>

definition ResetExpire :: "('r, 'e) db_env_scheme \<Rightarrow> bytes \<Rightarrow> int \<Rightarrow> ('r, 'z, int \<times> string option) db_op" where
  "ResetExpire E key ex =
     bindM (executeDirect E (EXPIRE key ex)) (\<lambda>r.
       case resp_err r of
         Some e \<Rightarrow> returnM (0, Some e)
       | None \<Rightarrow>
           (case Int64 r of
              Inl e \<Rightarrow> returnM (0, Some e)
            | Inr i \<Rightarrow> if i = 0 then returnM (0, Some ''key_not_found'') else returnM (i, None)))"

definition Put :: "('r, 'e) db_env_scheme \<Rightarrow> bytes \<Rightarrow> bytes \<Rightarrow> ('r, 'z, string option) db_op" where
  "Put E key val =
     (if is4s key then bindM (executeDirect E (SET key val)) (\<lambda>r. returnM (resp_err r))
      else seqM (execute (SET key val)) (returnM None))"

definition PutEx :: "('r, 'e) db_env_scheme \<Rightarrow> bytes \<Rightarrow> bytes \<Rightarrow> int \<Rightarrow> ('r, 'z, string option) db_op" where
  "PutEx E key val ex =
     (if is4s key then bindM (executeDirect E (SETEX key ex val)) (\<lambda>r. returnM (resp_err r))
      else seqM (execute (SETEX key ex val)) (returnM None))"

definition db_Get :: "('r, 'e) db_env_scheme \<Rightarrow> bytes \<Rightarrow> ('r, 'z, string + bytes) db_op" where
  "db_Get E key = bindM (executeDirect E (GET key)) (\<lambda>r. returnM (Bytes r))"

definition Delete :: "bytes \<Rightarrow> ('r, 'z, string option) db_op" where
  "Delete key =
     bindM (if is4s key then execute4s (DEL key) else execute (DEL key)) (\<lambda>r.
       case r of None \<Rightarrow> returnM None | Some r' \<Rightarrow> returnM (resp_err r'))"

definition PutExWithIdx ::
  "('r, 'e) db_env_scheme \<Rightarrow> bytes \<Rightarrow> bytes \<Rightarrow> bytes \<Rightarrow> int \<Rightarrow> ('r, 'z, string option) db_op" where
  "PutExWithIdx E idx key val ex =
     (let idx = idx @ IDX_SUFFIX in
      if is4s key then
        bindM (executeDirect E (HSET idx key val)) (\<lambda>r.
          case resp_err r of
            Some e \<Rightarrow> returnM (Some e)
          | None \<Rightarrow>
              bindM (if ex > 0 then executeDirect E (SETEX key ex val) else executeDirect E (SET key val))
                (\<lambda>r. returnM (resp_err r)))
      else recovering None
        (seqM (execute (HSET idx key val))
          (seqM (if ex > 0 then execute (SETEX key ex val) else execute (SET key val)) (returnM None))))"

definition DeleteByIdx :: "('r, 'e) db_env_scheme \<Rightarrow> bytes \<Rightarrow> ('r, 'z, string option) db_op" where
  "DeleteByIdx E idx =
     (let idx = idx @ IDX_SUFFIX in
      bindM (executeDirect E (HKEYS idx)) (\<lambda>r.
        case ListBytes r of
          Inl err \<Rightarrow> returnM (Some err)
        | Inr ids \<Rightarrow>
            seqM (forM ids (\<lambda>k. seqM (Delete k) (returnM ())))
              (seqM (Delete idx) (returnM None))))"

definition DeleteByIdxKey :: "bytes \<Rightarrow> bytes \<Rightarrow> ('r, 'z, string option) db_op" where
  "DeleteByIdxKey idx key =
     (let idx = idx @ IDX_SUFFIX in
      seqM (if is4s key then execute4s (HDEL idx key) else execute (HDEL idx key))
        (seqM (Delete key) (returnM None)))"

definition CountByIdx :: "('r, 'e) db_env_scheme \<Rightarrow> bytes \<Rightarrow> ('r, 'z, string + int) db_op" where
  "CountByIdx E idx = bindM (executeDirect E (HLEN (idx @ IDX_SUFFIX))) (\<lambda>r. returnM (Int64 r))"

definition GetByIdx :: "('r, 'e) db_env_scheme \<Rightarrow> bytes \<Rightarrow> ('r, 'z, string + bytes list) db_op" where
  "GetByIdx E idx = bindM (executeDirect E (HVALS (idx @ IDX_SUFFIX))) (\<lambda>r. returnM (ListBytes r))"

lemmas db_defs = ResetExpire_def Put_def PutEx_def db_Get_def Delete_def PutExWithIdx_def
  DeleteByIdx_def DeleteByIdxKey_def CountByIdx_def GetByIdx_def execute_def execute4s_def

end
