(* ===== verification/Redis.thy ===== *)
theory Redis
  imports Database "HOL-Library.AList"
begin

text \<open>
  What the database layer relies on of the Redis server, as documented for the commands it
  sends: a keyspace of strings and hashes, the effect of a command on it and its reply.
  Expiry is not an effect of a command but of the passage of time, so it is not part of
  these laws; a key with a time to live is in the keyspace as long as it lives.

  The laws are the locale \<open>redis_server\<close>; an in-memory server that computes satisfies them.
\<close>

datatype rval = VStr bytes | VHash "bytes \<rightharpoonup> bytes"

type_synonym keyspace = "bytes \<rightharpoonup> rval"

definition WRONGTYPE :: string where
  "WRONGTYPE = ''WRONGTYPE Operation against a key holding the wrong kind of value''"

definition hash_of :: "keyspace \<Rightarrow> bytes \<Rightarrow> (bytes \<rightharpoonup> bytes)" where
  "hash_of v h = (case v h of Some (VHash m) \<Rightarrow> m | _ \<Rightarrow> Map.empty)"

definition is_str :: "keyspace \<Rightarrow> bytes \<Rightarrow> bool" where
  "is_str v k \<longleftrightarrow> (\<exists>s. v k = Some (VStr s))"

text \<open>The effect of a command on the keyspace.  A hash without fields does not exist.\<close>

fun redis_upd :: "redis_cmd \<Rightarrow> keyspace \<Rightarrow> keyspace" where
  "redis_upd (SET k x) v = v(k \<mapsto> VStr x)"
| "redis_upd (SETEX k n x) v = (if n > 0 then v(k \<mapsto> VStr x) else v)"
| "redis_upd (DEL k) v = v(k := None)"
| "redis_upd (HSET h k x) v = (if is_str v h then v else v(h \<mapsto> VHash ((hash_of v h)(k \<mapsto> x))))"
| "redis_upd (HDEL h k) v =
     (case v h of
        Some (VHash m) \<Rightarrow> v(h := if m(k := None) = Map.empty then None else Some (VHash (m(k := None))))
      | _ \<Rightarrow> v)"
| "redis_upd (EXPIRE k n) v = (if n > 0 then v else v(k := None))"
| "redis_upd _ v = v"

text \<open>The reply: the order in which the fields of a hash are listed is not specified.\<close>

fun redis_reply :: "redis_cmd \<Rightarrow> keyspace \<Rightarrow> Resp \<Rightarrow> bool" where
  "redis_reply (GET k) v r =
     (r = (case v k of None \<Rightarrow> RNil | Some (VStr x) \<Rightarrow> RBulk x | Some (VHash _) \<Rightarrow> RAppErr WRONGTYPE))"
| "redis_reply (SET k x) v r = (r = RSimple ''OK'')"
| "redis_reply (SETEX k n x) v r =
     (if n > 0 then r = RSimple ''OK'' else (\<exists>e. r = RAppErr e))"
| "redis_reply (DEL k) v r = (r = RInt (if v k = None then 0 else 1))"
| "redis_reply (HSET h k x) v r =
     (if is_str v h then r = RAppErr WRONGTYPE else r = RInt (if hash_of v h k = None then 1 else 0))"
| "redis_reply (HDEL h k) v r =
     (if is_str v h then r = RAppErr WRONGTYPE else r = RInt (if hash_of v h k = None then 0 else 1))"
| "redis_reply (HKEYS h) v r =
     (if is_str v h then r = RAppErr WRONGTYPE
      else \<exists>ks. distinct ks \<and> set ks = dom (hash_of v h) \<and> r = RArray (map RBulk ks))"
| "redis_reply (HVALS h) v r =
     (if is_str v h then r = RAppErr WRONGTYPE
      else \<exists>ks. distinct ks \<and> set ks = dom (hash_of v h) \<and>
             r = RArray (map (\<lambda>k. RBulk (the (hash_of v h k))) ks))"
| "redis_reply (HLEN h) v r =
     (if is_str v h then r = RAppErr WRONGTYPE else r = RInt (int (card (dom (hash_of v h)))))"
| "redis_reply (EXPIRE k n) v r = (r = RInt (if v k = None then 0 else 1))"
| "redis_reply (PUBLISH c x) v r = (\<exists>n. r = RInt n)"

locale redis_server =
  fixes exec :: "DBMODEL \<Rightarrow> redis_cmd \<Rightarrow> 'r \<Rightarrow> Resp \<times> 'r"
    and view :: "'r \<Rightarrow> keyspace"
  assumes effect: "view (snd (exec m c r)) = redis_upd c (view r)"
    and reply: "redis_reply c (view r) (fst (exec m c r))"
begin

lemma exec_cases:
  obtains a r' where "exec m c r = (a, r')" "view r' = redis_upd c (view r)" "redis_reply c (view r) a"
  using effect [of m c r] reply [of c r m] by (cases "exec m c r") auto

end

subsection \<open>An in-memory server\<close>

record mem =
  mstrs :: "(bytes \<times> bytes) list"
  mhashes :: "(bytes \<times> (bytes \<times> bytes) list) list"

definition aupd :: "'k \<Rightarrow> 'v \<Rightarrow> ('k \<times> 'v) list \<Rightarrow> ('k \<times> 'v) list" where
  "aupd k v xs = (k, v) # filter (\<lambda>kv. fst kv \<noteq> k) xs"

definition adel :: "'k \<Rightarrow> ('k \<times> 'v) list \<Rightarrow> ('k \<times> 'v) list" where
  "adel k xs = filter (\<lambda>kv. fst kv \<noteq> k) xs"

definition mem_view :: "mem \<Rightarrow> keyspace" where
  "mem_view r k =
     (case map_of (mstrs r) k of
        Some s \<Rightarrow> Some (VStr s)
      | None \<Rightarrow>
          (case map_of (mhashes r) k of
             Some (x # xs) \<Rightarrow> Some (VHash (map_of (x # xs)))
           | _ \<Rightarrow> None))"

definition mhash :: "mem \<Rightarrow> bytes \<Rightarrow> (bytes \<times> bytes) list" where
  "mhash r h = (case map_of (mhashes r) h of None \<Rightarrow> [] | Some xs \<Rightarrow> AList.clearjunk xs)"

definition mis_str :: "mem \<Rightarrow> bytes \<Rightarrow> bool" where
  "mis_str r h \<longleftrightarrow> map_of (mstrs r) h \<noteq> None"

definition mexists :: "mem \<Rightarrow> bytes \<Rightarrow> bool" where
  "mexists r k \<longleftrightarrow> mis_str r k \<or> mhash r k \<noteq> []"

definition mset_key :: "bytes \<Rightarrow> bytes \<Rightarrow> mem \<Rightarrow> mem" where
  "mset_key k x r = \<lparr>mstrs = aupd k x (mstrs r), mhashes = adel k (mhashes r)\<rparr>"

definition mdel_key :: "bytes \<Rightarrow> mem \<Rightarrow> mem" where
  "mdel_key k r = \<lparr>mstrs = adel k (mstrs r), mhashes = adel k (mhashes r)\<rparr>"

definition mset_hash :: "bytes \<Rightarrow> (bytes \<times> bytes) list \<Rightarrow> mem \<Rightarrow> mem" where
  "mset_hash h xs r = r\<lparr>mhashes := aupd h xs (mhashes r)\<rparr>"

fun mem_exec :: "DBMODEL \<Rightarrow> redis_cmd \<Rightarrow> mem \<Rightarrow> Resp \<times> mem" where
  "mem_exec m (GET k) r =
     (case map_of (mstrs r) k of
        Some x \<Rightarrow> RBulk x
      | None \<Rightarrow> if mhash r k \<noteq> [] then RAppErr WRONGTYPE else RNil, r)"
| "mem_exec m (SET k x) r = (RSimple ''OK'', mset_key k x r)"
| "mem_exec m (SETEX k n x) r =
     (if n > 0 then (RSimple ''OK'', mset_key k x r) else (RAppErr ''ERR invalid expire time in setex'', r))"
| "mem_exec m (DEL k) r = (RInt (if mexists r k then 1 else 0), mdel_key k r)"
| "mem_exec m (HSET h k x) r =
     (if mis_str r h then (RAppErr WRONGTYPE, r)
      else (RInt (if map_of (mhash r h) k = None then 1 else 0), mset_hash h (aupd k x (mhash r h)) r))"
| "mem_exec m (HDEL h k) r =
     (if mis_str r h then (RAppErr WRONGTYPE, r)
      else (RInt (if map_of (mhash r h) k = None then 0 else 1), mset_hash h (adel k (mhash r h)) r))"
| "mem_exec m (HKEYS h) r =
     (if mis_str r h then RAppErr WRONGTYPE else RArray (map (RBulk \<circ> fst) (mhash r h)), r)"
| "mem_exec m (HVALS h) r =
     (if mis_str r h then RAppErr WRONGTYPE else RArray (map (RBulk \<circ> snd) (mhash r h)), r)"
| "mem_exec m (HLEN h) r =
     (if mis_str r h then RAppErr WRONGTYPE else RInt (int (length (mhash r h))), r)"
| "mem_exec m (EXPIRE k n) r =
     (RInt (if mexists r k then 1 else 0), if n > 0 then r else mdel_key k r)"
| "mem_exec m (PUBLISH c x) r = (RInt 0, r)"

lemma map_of_adel [simp]: "map_of (adel k xs) = (map_of xs)(k := None)"
  by (induction xs) (auto simp: adel_def)

lemma map_of_aupd [simp]: "map_of (aupd k v xs) = (map_of xs)(k \<mapsto> v)"
  using map_of_adel [of k xs] by (simp add: aupd_def adel_def)

lemma aupd_ne [simp]: "aupd k v xs \<noteq> []"
  by (simp add: aupd_def)

lemma mem_view_set_key [simp]: "mem_view (mset_key k x r) = (mem_view r)(k \<mapsto> VStr x)"
  by (rule ext) (simp add: mem_view_def mset_key_def cong: option.case_cong)

lemma mem_view_del_key [simp]: "mem_view (mdel_key k r) = (mem_view r)(k := None)"
  by (rule ext) (simp add: mem_view_def mdel_key_def cong: option.case_cong)

lemma mem_view_set_hash [simp]:
  "\<not> mis_str r h \<Longrightarrow>
   mem_view (mset_hash h xs r) = (mem_view r)(h := if xs = [] then None else Some (VHash (map_of xs)))"
  by (rule ext) (auto simp: mem_view_def mset_hash_def mis_str_def cong: option.case_cong split: list.splits)

lemma is_str_mem [simp]: "is_str (mem_view r) h \<longleftrightarrow> mis_str r h"
  by (auto simp: is_str_def mem_view_def mis_str_def split: option.splits list.splits)

lemma mhash_Nil: "mhash r h = [] \<longleftrightarrow> map_of (mhashes r) h = None \<or> map_of (mhashes r) h = Some []"
  by (auto simp: mhash_def split: option.splits) (metis AList.map_of_clearjunk map_of.simps(1) map_of_eq_empty_iff)

lemma hash_of_mem [simp]: "\<not> mis_str r h \<Longrightarrow> hash_of (mem_view r) h = map_of (mhash r h)"
  by (auto simp: hash_of_def mem_view_def mis_str_def mhash_def map_of_clearjunk split: option.splits list.splits)

lemma mem_view_key: "\<not> mis_str r h \<Longrightarrow> mem_view r h = (if mhash r h = [] then None else Some (VHash (map_of (mhash r h))))"
  by (auto simp: mem_view_def mis_str_def mhash_Nil) (auto simp: mhash_def map_of_clearjunk split: list.splits)

lemma mem_view_str: "mis_str r h \<Longrightarrow> mem_view r h = Some (VStr (the (map_of (mstrs r) h)))"
  by (auto simp: mem_view_def mis_str_def)

lemma mem_view_None: "mem_view r k = None \<longleftrightarrow> \<not> mexists r k"
  by (cases "mis_str r k") (simp_all add: mem_view_key mem_view_str mexists_def)

lemma mhash_distinct [simp]: "distinct (map fst (mhash r h))"
  by (simp add: mhash_def distinct_clearjunk split: option.splits)

lemma adel_Nil: "adel k xs = [] \<longleftrightarrow> (map_of xs)(k := None) = Map.empty"
  by (metis map_of_adel map_of_eq_empty_iff)

lemma mem_effect: "mem_view (snd (mem_exec m c r)) = redis_upd c (mem_view r)"
proof (cases c)
  case (HDEL h k)
  show ?thesis
  proof (cases "mis_str r h")
    case False
    have "mem_view (mset_hash h (adel k (mhash r h)) r) =
        (mem_view r)(h := if adel k (mhash r h) = [] then None else Some (VHash (map_of (adel k (mhash r h)))))"
      by (rule mem_view_set_hash [OF False])
    moreover have "adel k [] = []" by (simp add: adel_def)
    ultimately show ?thesis
      using HDEL False mem_view_key [OF False] by (auto simp: adel_Nil fun_upd_idem)
  qed (simp add: HDEL mem_view_str)
qed (auto simp: mem_view_key mem_view_str)

lemma mem_fields:
  "distinct (map fst (mhash r h))" "set (map fst (mhash r h)) = dom (map_of (mhash r h))"
  "map (\<lambda>k. the (map_of (mhash r h) k)) (map fst (mhash r h)) = map snd (mhash r h)"
  "length (mhash r h) = card (dom (map_of (mhash r h)))"
proof -
  show d: "distinct (map fst (mhash r h))" by simp
  show s: "set (map fst (mhash r h)) = dom (map_of (mhash r h))" by (simp add: dom_map_of_conv_image_fst)
  show "map (\<lambda>k. the (map_of (mhash r h) k)) (map fst (mhash r h)) = map snd (mhash r h)"
    using d by (auto simp: map_of_is_SomeI)
  show "length (mhash r h) = card (dom (map_of (mhash r h)))"
    using distinct_card [OF d] s by simp
qed

lemma mem_reply: "redis_reply c (mem_view r) (fst (mem_exec m c r))"
proof (cases c)
  case (GET k)
  then show ?thesis
    by (cases "mis_str r k") (auto simp: mem_view_key mem_view_str mis_str_def)
next
  case (HKEYS h)
  then show ?thesis using mem_fields(1,2) [of r h] by (auto intro!: exI [of _ "map fst (mhash r h)"])
next
  case (HVALS h)
  have "map (RBulk \<circ> snd) (mhash r h) = map RBulk (map snd (mhash r h))" by simp
  also have "\<dots> = map (\<lambda>k. RBulk (the (map_of (mhash r h) k))) (map fst (mhash r h))"
    unfolding mem_fields(3) [symmetric] by simp
  finally show ?thesis
    using HVALS mem_fields(1,2) [of r h] by (auto intro!: exI [of _ "map fst (mhash r h)"])
next
  case (HLEN h)
  then show ?thesis using mem_fields(4) [of r h] by auto
qed (auto simp: mem_view_None)

interpretation mem: redis_server mem_exec mem_view
  by unfold_locales (rule mem_effect, rule mem_reply)

end
