(* ===== verification/Framing.thy ===== *)
theory Framing
  imports Defines
begin

text \<open>
  The byte stream of a client connection: \<open>DecodePacket\<close> of \<^verbatim>\<open>core/decoder.go\<close>, the
  receive loops of \<^verbatim>\<open>core/conn_tcp.go\<close> and \<^verbatim>\<open>core/conn_ws.go\<close>, and the adaptive read
  buffer \<open>change_buff_len\<close>.  The specification is \<open>frame_spec\<close>: the non-empty
  pieces between terminators, and the unterminated rest.
\<close>

definition NUL :: char where "NUL = CHR 0x00"

definition max_buf_len :: nat where "max_buf_len = 4096"

subsection \<open>DecodePacket\<close>

text \<open>The loop over \<open>dataList\<close>, with the index \<open>i\<close> and the two result variables.\<close>

fun decode_frames ::
  "nat \<Rightarrow> nat \<Rightarrow> char \<Rightarrow> bytes \<Rightarrow> bytes list \<Rightarrow> bytes list \<Rightarrow> bytes \<Rightarrow> bytes list \<times> bytes" where
  "decode_frames i sz lastByte part [] packets new_part = (packets, new_part)"
| "decode_frames i sz lastByte part (packet # ps) packets new_part =
     (if length packet > 0 then
        if i = 0 \<and> length part > 0 then
          decode_frames (Suc i) sz lastByte part ps (packets @ [part @ packet]) new_part
        else if i = sz \<and> lastByte \<noteq> END_FLAG then
          decode_frames (Suc i) sz lastByte part ps packets packet
        else
          decode_frames (Suc i) sz lastByte part ps (packets @ [packet]) new_part
      else decode_frames (Suc i) sz lastByte part ps packets new_part)"

definition trim_nul :: "bytes \<Rightarrow> bytes" where
  "trim_nul data = takeWhile (\<lambda>c. c \<noteq> NUL) data"

definition DecodePacket :: "bytes \<Rightarrow> bytes \<Rightarrow> bytes list \<times> bytes" where
  "DecodePacket data0 part =
     (let data = trim_nul data0 in
      if length data = 0 then ([], part)
      else
        (let dataList = split_on END_FLAG data;
             lastByte = last data;
             sz = length dataList - 1
         in if sz > 0 then decode_frames 0 sz lastByte part dataList [] []
            else
              (let packet = (if length part > 0 then part @ dataList ! 0 else dataList ! 0)
               in if lastByte \<noteq> END_FLAG then ([], packet) else ([packet], []))))"

subsection \<open>The adaptive read buffer\<close>

definition change_buff_len :: "nat \<Rightarrow> nat \<Rightarrow> nat" where
  "change_buff_len buff_len n =
     (if n > 2 then
        (let b = (if n = buff_len then buff_len + buff_len div 4
                  else if n < buff_len then buff_len - buff_len div 4
                  else buff_len)
         in if b > max_buf_len then max_buf_len
            else if b < n then n + n div 4
            else b)
      else buff_len)"

subsection \<open>The receive loops\<close>

text \<open>
  A read of the connection returns bytes or an error.  A callback of the packet handler
  is a \<open>ReadPacketResult\<close>; the loops return the callbacks they make, in order, and
  the state they end in.  The TCP loop ends at the first read error; the list of reads
  is what the peer and the network produced so far.
\<close>

datatype read_event = ReadData bytes | ReadErr string

record ReadPacketResult =
  rp_packets :: "bytes list"
  rp_err :: "string option"

record TcpSessionConn =
  tc_part :: bytes
  tc_buff_len :: nat

definition NewTcpSessionConn :: TcpSessionConn where
  "NewTcpSessionConn = \<lparr>tc_part = [], tc_buff_len = 1024\<rparr>"

fun tcp_recv :: "TcpSessionConn \<Rightarrow> read_event list \<Rightarrow> ReadPacketResult list \<times> TcpSessionConn" where
  "tcp_recv c [] = ([], c)"
| "tcp_recv c (ReadErr e # rs) = ([\<lparr>rp_packets = [], rp_err = Some e\<rparr>], c)"
| "tcp_recv c (ReadData d # rs) =
     (let (packetList, newPart) = DecodePacket d (tc_part c);
          c' = \<lparr>tc_part = newPart, tc_buff_len = change_buff_len (tc_buff_len c) (length d)\<rparr>;
          (cbs, c'') = tcp_recv c' rs
      in ((if length packetList > 0 then [\<lparr>rp_packets = packetList, rp_err = None\<rparr>] else []) @ cbs, c''))"

text \<open>A websocket message is a packet of its own; an empty message is ignored.\<close>

fun ws_recv :: "read_event list \<Rightarrow> ReadPacketResult list" where
  "ws_recv [] = []"
| "ws_recv (ReadErr e # rs) = [\<lparr>rp_packets = [], rp_err = Some e\<rparr>]"
| "ws_recv (ReadData p # rs) =
     (if length p > 0 then \<lparr>rp_packets = [p], rp_err = None\<rparr> # ws_recv rs else ws_recv rs)"

subsection \<open>The framing specification\<close>

definition frame_spec :: "bytes \<Rightarrow> bytes list \<times> bytes" where
  "frame_spec s =
     (let fs = split_on END_FLAG s in (filter (\<lambda>f. f \<noteq> []) (butlast fs), last fs))"

text \<open>The sender's side: every packet followed by the terminator.\<close>

definition encode_frames :: "bytes list \<Rightarrow> bytes" where
  "encode_frames ps = concat (map (\<lambda>p. p @ [END_FLAG]) ps)"

lemma split_on_append:
  "split_on c (s @ t) =
     butlast (split_on c s) @ (last (split_on c s) @ hd (split_on c t)) # tl (split_on c t)"
proof (induction s)
  case Nil
  then show ?case by simp
next
  case (Cons x xs)
  obtain y ys where ys: "split_on c xs = y # ys" by (meson neq_Nil_conv split_on_ne)
  show ?case using Cons ys by (cases ys) auto
qed

lemma last_split_on_no_sep: "c \<notin> set (last (split_on c s))"
  by (rule split_on_parts [of _ c s]) simp

lemma last_split_on_Nil_iff: "s \<noteq> [] \<Longrightarrow> last (split_on c s) = [] \<longleftrightarrow> last s = c"
proof (induction s)
  case Nil
  then show ?case by simp
next
  case (Cons x xs)
  obtain y ys where ys: "split_on c xs = y # ys" by (meson neq_Nil_conv split_on_ne)
  show ?case
  proof (cases "xs = []")
    case True
    then show ?thesis by simp
  next
    case False
    with Cons.IH ys have IH: "last (y # ys) = [] \<longleftrightarrow> last xs = c" by simp
    show ?thesis
    proof (cases "ys = []")
      case True
      with ys have "c \<notin> set xs" using split_on_single_iff [of c xs] by simp
      with False have "last xs \<noteq> c" by auto
      with True ys False show ?thesis using \<open>c \<notin> set xs\<close> by (simp add: split_on_no_sep)
    next
      case ne: False
      with ys IH False show ?thesis by simp
    qed
  qed
qed

lemma frame_spec_Nil [simp]: "frame_spec [] = ([], [])"
  by (simp add: frame_spec_def)

lemma frame_spec_no_end: "END_FLAG \<notin> set s \<Longrightarrow> frame_spec s = ([], s)"
  by (simp add: frame_spec_def split_on_no_sep)

text \<open>Framing a stream piece by piece is framing the whole of it.\<close>

lemma frame_spec_append:
  assumes "frame_spec s = (ps, r)"
  shows "frame_spec (s @ t) =
    (let (qs, r') = frame_spec (r @ t) in (ps @ qs, r'))"
proof -
  define fs where "fs = split_on END_FLAG s"
  have r: "r = last fs" and ps: "ps = filter (\<lambda>f. f \<noteq> []) (butlast fs)"
    using assms by (auto simp: frame_spec_def fs_def Let_def)
  have nr: "END_FLAG \<notin> set r" unfolding r fs_def by (rule last_split_on_no_sep)
  have rt: "split_on END_FLAG (r @ t) = (r @ hd (split_on END_FLAG t)) # tl (split_on END_FLAG t)"
    by (simp add: split_on_append split_on_no_sep [OF nr])
  have st: "split_on END_FLAG (s @ t) = butlast fs @ split_on END_FLAG (r @ t)"
    unfolding rt by (simp add: split_on_append r fs_def)
  show ?thesis
    by (simp add: frame_spec_def st ps butlast_append Let_def)
qed

lemma frame_spec_encode:
  assumes "\<And>p. p \<in> set ps \<Longrightarrow> p \<noteq> [] \<and> END_FLAG \<notin> set p"
  shows "frame_spec (encode_frames ps) = (ps, [])"
  using assms
proof (induction ps)
  case Nil
  then show ?case by (simp add: encode_frames_def)
next
  case (Cons p ps)
  have eq: "encode_frames (p # ps) = p @ END_FLAG # encode_frames ps"
    by (simp add: encode_frames_def)
  from Cons have "frame_spec (encode_frames ps) = (ps, [])" by simp
  with Cons.prems show ?case
    by (auto simp: eq frame_spec_def Let_def)
qed

subsection \<open>DecodePacket implements the framing\<close>

lemma decode_frames_later:
  "i > 0 \<Longrightarrow> i + length fs = Suc sz \<Longrightarrow> fs \<noteq> [] \<Longrightarrow>
   (lastByte = END_FLAG \<longleftrightarrow> last fs = []) \<Longrightarrow>
   decode_frames i sz lastByte part fs acc np =
     (acc @ filter (\<lambda>f. f \<noteq> []) (butlast fs), if last fs = [] then np else last fs)"
proof (induction fs arbitrary: i acc np)
  case Nil
  then show ?case by simp
next
  case (Cons f fs)
  show ?case
  proof (cases "fs = []")
    case True
    with Cons.prems show ?thesis by auto
  next
    case False
    with Cons.prems have "i \<noteq> sz" by (cases fs) auto
    with False Cons show ?thesis by auto
  qed
qed

lemma trim_nul_id: "NUL \<notin> set d \<Longrightarrow> trim_nul d = d"
  by (simp add: trim_nul_def takeWhile_eq_all_conv) auto

lemma trim_nul_no_nul: "NUL \<notin> set (trim_nul d)"
  unfolding trim_nul_def by (auto dest: set_takeWhileD)

lemma DecodePacket_empty: "trim_nul d = [] \<Longrightarrow> DecodePacket d p = ([], p)"
  by (simp add: DecodePacket_def)

lemma DecodePacket_no_end:
  assumes "trim_nul d \<noteq> []" and "END_FLAG \<notin> set (trim_nul d)"
  shows "DecodePacket d p = ([], p @ trim_nul d)"
proof -
  have "last (trim_nul d) \<noteq> END_FLAG" using assms by (metis last_in_set)
  with assms show ?thesis by (simp add: DecodePacket_def split_on_no_sep Let_def)
qed

lemma DecodePacket_end:
  assumes ne: "trim_nul d \<noteq> []" and e: "END_FLAG \<in> set (trim_nul d)"
  shows "DecodePacket d p =
    (let fs = split_on END_FLAG (trim_nul d);
         f0 = (if hd fs = [] then [] else [p @ hd fs])
     in (f0 @ filter (\<lambda>f. f \<noteq> []) (butlast (tl fs)), last fs))"
proof -
  define fs where "fs = split_on END_FLAG (trim_nul d)"
  have len: "Suc 0 < length fs" using e by (simp add: fs_def split_on_many_iff)
  then obtain f fs' where fs: "fs = f # fs'" and ne': "fs' \<noteq> []"
    by (cases fs) auto
  have lb: "last (trim_nul d) = END_FLAG \<longleftrightarrow> last fs' = []"
    using last_split_on_Nil_iff [OF ne, of END_FLAG] ne' fs by (simp add: fs_def)
  have later: "decode_frames (Suc 0) (length fs - 1) (last (trim_nul d)) p fs' acc [] =
      (acc @ filter (\<lambda>f. f \<noteq> []) (butlast fs'), last fs')" for acc
    using ne' lb fs by (subst decode_frames_later) auto
  have sz0: "0 \<noteq> length fs - 1" using len by simp
  show ?thesis
    using ne len fs ne' sz0 later
    by (auto simp: DecodePacket_def Let_def fs_def [symmetric] simp del: decode_frames.simps)
      (auto simp: fs)
qed

text \<open>
  The condition under which a read continues the pending fragment correctly: there is no
  fragment, or the read does not begin with the terminator of that fragment.
\<close>

definition continues :: "bytes \<Rightarrow> bytes \<Rightarrow> bool" where
  "continues p d \<longleftrightarrow> p = [] \<or> d = [] \<or> hd d \<noteq> END_FLAG"

lemma DecodePacket_frames:
  assumes p: "END_FLAG \<notin> set p" and c: "continues p (trim_nul d)"
  shows "DecodePacket d p = frame_spec (p @ trim_nul d)"
proof (cases "END_FLAG \<in> set (trim_nul d)")
  case False
  then show ?thesis
    using p by (cases "trim_nul d = []")
      (simp_all add: DecodePacket_empty DecodePacket_no_end frame_spec_no_end)
next
  case True
  then have ne: "trim_nul d \<noteq> []" by auto
  define fs where "fs = split_on END_FLAG (trim_nul d)"
  have len: "Suc 0 < length fs" using True by (simp add: fs_def split_on_many_iff)
  then obtain f fs' where fs: "fs = f # fs'" and ne': "fs' \<noteq> []"
    by (cases fs) auto
  have hd0: "f = [] \<longleftrightarrow> hd (trim_nul d) = END_FLAG"
  proof (cases "trim_nul d")
    case Nil
    with ne show ?thesis by simp
  next
    case (Cons a l)
    then show ?thesis using fs by (auto simp: fs_def split: list.splits if_splits)
  qed
  have spec: "split_on END_FLAG (p @ trim_nul d) = (p @ f) # fs'"
    using p fs by (simp add: split_on_append split_on_no_sep fs_def)
  show ?thesis
    using c ne hd0 ne'
    by (auto simp: DecodePacket_end [OF ne True] frame_spec_def spec fs_def [symmetric] fs
        continues_def Let_def)
qed

lemma frame_spec_props:
  assumes "frame_spec s = (ps, r)"
  shows "q \<in> set ps \<Longrightarrow> q \<noteq> [] \<and> END_FLAG \<notin> set q" and "END_FLAG \<notin> set r"
proof -
  have ps: "ps = filter (\<lambda>f. f \<noteq> []) (butlast (split_on END_FLAG s))" and r: "r = last (split_on END_FLAG s)"
    using assms by (auto simp: frame_spec_def Let_def)
  show "q \<in> set ps \<Longrightarrow> q \<noteq> [] \<and> END_FLAG \<notin> set q"
    using split_on_parts [of q END_FLAG s] by (auto simp: ps dest: in_set_butlastD)
  show "END_FLAG \<notin> set r" unfolding r by (rule last_split_on_no_sep)
qed

text \<open>When the read does begin with the terminator, the pending fragment has no influence.\<close>

lemma DecodePacket_drop:
  assumes "trim_nul d \<noteq> []" and "hd (trim_nul d) = END_FLAG"
  shows "DecodePacket d p = DecodePacket d q"
proof -
  have e: "END_FLAG \<in> set (trim_nul d)" using assms by (metis hd_in_set)
  have "hd (split_on END_FLAG (trim_nul d)) = []"
    using assms by (cases "trim_nul d") auto
  then show ?thesis by (simp add: DecodePacket_end [OF assms(1) e])
qed

lemma DecodePacket_part_ok:
  assumes "END_FLAG \<notin> set p" and "DecodePacket d p = (ps, r)"
  shows "END_FLAG \<notin> set r \<and> (\<forall>q \<in> set ps. q \<noteq> [] \<and> END_FLAG \<notin> set q)"
proof (cases "continues p (trim_nul d)")
  case True
  with assms have "frame_spec (p @ trim_nul d) = (ps, r)" by (simp add: DecodePacket_frames)
  from frame_spec_props [OF this] show ?thesis by blast
next
  case False
  then have "DecodePacket d p = DecodePacket d []"
    by (intro DecodePacket_drop) (auto simp: continues_def)
  also have "\<dots> = frame_spec (trim_nul d)"
    using DecodePacket_frames [of "[]" d] by (simp add: continues_def)
  finally have "frame_spec (trim_nul d) = (ps, r)" using assms by simp
  from frame_spec_props [OF this] show ?thesis by blast
qed

subsection \<open>The receive loop over a stream\<close>

text \<open>The reads of a healthy stream: no zero bytes, no read that begins with a terminator.\<close>

definition good_read :: "bytes \<Rightarrow> bool" where
  "good_read d \<longleftrightarrow> NUL \<notin> set d \<and> (d = [] \<or> hd d \<noteq> END_FLAG)"

definition received :: "ReadPacketResult list \<Rightarrow> bytes list" where
  "received cbs = concat (map rp_packets cbs)"

lemma tcp_recv_stream:
  assumes "\<And>d. d \<in> set ds \<Longrightarrow> good_read d" and "END_FLAG \<notin> set (tc_part c)"
    and "tcp_recv c (map ReadData ds) = (cbs, c')"
  shows "frame_spec (tc_part c @ concat ds) = (received cbs, tc_part c')"
  using assms
proof (induction ds arbitrary: c cbs)
  case Nil
  then show ?case by (auto simp: received_def frame_spec_no_end)
next
  case (Cons d ds)
  obtain ps r where dp: "DecodePacket d (tc_part c) = (ps, r)" by fastforce
  define c1 where "c1 = \<lparr>tc_part = r, tc_buff_len = change_buff_len (tc_buff_len c) (length d)\<rparr>"
  obtain cbs' where rest: "tcp_recv c1 (map ReadData ds) = (cbs', c')"
    and cbs: "received cbs = ps @ received cbs'"
    using Cons.prems(3) by (cases ps) (auto simp: dp c1_def received_def Let_def split: prod.splits)
  have "good_read d" using Cons.prems(1) by simp
  then have fr: "frame_spec (tc_part c @ d) = (ps, r)"
    using DecodePacket_frames [OF Cons.prems(2), of d] dp
    by (auto simp: good_read_def trim_nul_id continues_def)
  have r: "END_FLAG \<notin> set (tc_part c1)" using frame_spec_props(2) [OF fr] by (simp add: c1_def)
  have IH: "frame_spec (tc_part c1 @ concat ds) = (received cbs', tc_part c')"
    using Cons.prems(1) r rest by (intro Cons.IH) auto
  show ?case
    using frame_spec_append [OF fr, of "concat ds"] IH cbs by (simp add: c1_def)
qed



text \<open>
  What one side sends the other side receives.  Packets that are non-empty and free of
  the terminator and of zero bytes, each sent with a terminator behind it, arrive unchanged
  and in order, and nothing is left over, for every cut of the byte stream into reads of
  which none begins with the terminator.
\<close>

theorem framing_roundtrip:
  assumes "\<And>p. p \<in> set ps \<Longrightarrow> p \<noteq> [] \<and> END_FLAG \<notin> set p"
    and "concat ds = encode_frames ps" and "\<And>d. d \<in> set ds \<Longrightarrow> good_read d"
    and "tcp_recv NewTcpSessionConn (map ReadData ds) = (cbs, c')"
  shows "received cbs = ps \<and> tc_part c' = []"
  using tcp_recv_stream [OF assms(3), of ds NewTcpSessionConn cbs c'] assms(2,4)
    frame_spec_encode [OF assms(1)]
  by (simp add: NewTcpSessionConn_def)

theorem framing_roundtrip_witness:
  "received (fst (tcp_recv NewTcpSessionConn
     (map ReadData [''he'', ''llo'' @ [END_FLAG] @ ''wor'', ''ld'' @ [END_FLAG]]))) = [''hello'', ''world'']"
proof -
  let ?ds = "[''he'', ''llo'' @ [END_FLAG] @ ''wor'', ''ld'' @ [END_FLAG]]"
  obtain cbs c' where r: "tcp_recv NewTcpSessionConn (map ReadData ?ds) = (cbs, c')" by fastforce
  have p: "p \<in> set [''hello'', ''world''] \<Longrightarrow> p \<noteq> [] \<and> END_FLAG \<notin> set p" for p
    by (auto simp: END_FLAG_def)
  have g: "d \<in> set ?ds \<Longrightarrow> good_read d" for d
    by (auto simp: good_read_def NUL_def END_FLAG_def)
  have e: "concat ?ds = encode_frames [''hello'', ''world'']" by (simp add: encode_frames_def)
  show ?thesis using framing_roundtrip [OF p e g r] r by simp
qed

text \<open>
  A terminator that arrives at the head of a read destroys the packet it should have
  completed.  Whatever fragment was pending, a read that begins with the terminator is
  decoded as if there were none, so the pending packet is neither delivered nor kept,
  although the framing of the stream contains it.
\<close>

theorem terminator_first_loses_packet:
  assumes "p \<noteq> []" and "END_FLAG \<notin> set p" and "NUL \<notin> set rest"
  shows "DecodePacket (END_FLAG # rest) p = DecodePacket (END_FLAG # rest) [] \<and>
         fst (frame_spec (p @ END_FLAG # rest)) = p # fst (DecodePacket (END_FLAG # rest) p)"
proof -
  have t: "trim_nul (END_FLAG # rest) = END_FLAG # rest"
    using assms(3) by (intro trim_nul_id) (auto simp: NUL_def END_FLAG_def)
  have d: "DecodePacket (END_FLAG # rest) p = DecodePacket (END_FLAG # rest) []"
    by (rule DecodePacket_drop) (simp_all add: t)
  have "DecodePacket (END_FLAG # rest) [] = frame_spec (END_FLAG # rest)"
    using DecodePacket_frames [of "[]" "END_FLAG # rest"] t by (simp add: continues_def)
  with d show ?thesis
    using assms(1,2) by (simp add: frame_spec_def Let_def)
qed

theorem terminator_first_loses_packet_witness:
  "DecodePacket [END_FLAG] ''hello'' = DecodePacket [END_FLAG] [] \<and>
   fst (frame_spec (''hello'' @ [END_FLAG])) = [''hello''] \<and> DecodePacket [END_FLAG] ''hello'' = ([], [])"
proof -
  have h: "''hello'' \<noteq> ([] :: string)" "END_FLAG \<notin> set ''hello''" "NUL \<notin> set []"
    by (simp_all add: END_FLAG_def)
  have d: "DecodePacket [END_FLAG] [] = ([], [])" by code_simp
  show ?thesis using terminator_first_loses_packet [OF h] d by simp
qed

text \<open>
  C40: The read buffer stays usable and bounded.  After every read of at most the buffer's
  length, the adapted length is between 3 and 6825 bytes, and it is at least the number of
  bytes just read unless it was cut to \<open>max_buf_len\<close>.
\<close>

theorem change_buff_len_bounds:
  assumes "3 \<le> b" and "b \<le> 6825" and "n \<le> b"
  shows "3 \<le> change_buff_len b n \<and> change_buff_len b n \<le> 6825 \<and>
         (n \<le> change_buff_len b n \<or> change_buff_len b n = max_buf_len)"
  using assms by (auto simp: change_buff_len_def max_buf_len_def Let_def)

theorem change_buff_len_bounds_witness:
  "3 \<le> change_buff_len 4096 4095 \<and> change_buff_len 4096 4095 \<le> 6825 \<and> change_buff_len 4096 4095 = 5118"
  using change_buff_len_bounds [of 4096 4095] by (simp add: change_buff_len_def max_buf_len_def)

end
