(* ===== verification/Conn.thy ===== *)
theory Conn
  imports Redis Framing "HOL-Library.Word"
begin

text \<open>
  The writing side of a client connection (\<^verbatim>\<open>core/conn_tcp.go\<close>, \<^verbatim>\<open>core/conn_ws.go\<close>), the
  counters of \<^verbatim>\<open>core/measure.go\<close>, the offline message cache of \<^verbatim>\<open>core/cache.go\<close> and the queue of
  the router (\<open>Route\<close> in \<^verbatim>\<open>node/router.go\<close>): what a session calls besides the database.

  A connection records the messages it wrote.  Writing to a closed connection, or to one
  whose peer is gone, is an error value, not a panic.
\<close>

datatype conn_kind = TCP | WS

record conn =
  c_kind :: conn_kind
  c_open :: bool
  c_broken :: bool
  c_sent :: "bytes list"
  c_deadline :: "int option"

definition new_conn :: "conn_kind \<Rightarrow> conn" where
  "new_conn k = \<lparr>c_kind = k, c_open = True, c_broken = False, c_sent = [], c_deadline = None\<rparr>"

record routerItem =
  rChannel :: string
  rSid :: string
  rPacket :: "Packet option"
  rSignal :: char

record 'r router_state = "'r db_state" +
  m_read :: "64 word"
  m_write :: "64 word"
  ofl_cache :: "string \<rightharpoonup> string list"
  routerItemCh :: "routerItem list"

subsection \<open>Counters\<close>

definition MeasureReadAdd :: "int \<Rightarrow> (('r, 'z) router_state_scheme, unit) op" where
  "MeasureReadAdd i = modifyM (\<lambda>s. s\<lparr>m_read := m_read s + word_of_int i\<rparr>)"

definition MeasureWriteAdd :: "int \<Rightarrow> (('r, 'z) router_state_scheme, unit) op" where
  "MeasureWriteAdd i = modifyM (\<lambda>s. s\<lparr>m_write := m_write s + word_of_int i\<rparr>)"

definition MeasureReadGet :: "(('r, 'z) router_state_scheme, int) op" where
  "MeasureReadGet = getsM (\<lambda>s. sint (m_read s))"

definition MeasureWriteGet :: "(('r, 'z) router_state_scheme, int) op" where
  "MeasureWriteGet = getsM (\<lambda>s. sint (m_write s))"

subsection \<open>The offline message cache\<close>

definition ofl_put :: "string \<Rightarrow> string list \<Rightarrow> (('r, 'z) router_state_scheme, unit) op" where
  "ofl_put key val = modifyM (\<lambda>s. s\<lparr>ofl_cache := (ofl_cache s)(key \<mapsto> val)\<rparr>)"

definition ofl_get :: "string \<Rightarrow> (('r, 'z) router_state_scheme, string + string list) op" where
  "ofl_get key = getsM (\<lambda>s. case ofl_cache s key of Some v \<Rightarrow> Inr v | None \<Rightarrow> Inl ''key notfound'')"

definition ofl_del :: "string \<Rightarrow> (('r, 'z) router_state_scheme, unit) op" where
  "ofl_del key = modifyM (\<lambda>s. s\<lparr>ofl_cache := (ofl_cache s)(key := None)\<rparr>)"

subsection \<open>The router's queue\<close>

text \<open>The send does not block: a full queue refuses the item with an error.\<close>

definition Route ::
  "string \<Rightarrow> string \<Rightarrow> Packet option \<Rightarrow> char option \<Rightarrow> (('r, 'z) router_state_scheme, string option) op" where
  "Route channel sid packet signal s =
     (let item = \<lparr>rChannel = channel, rSid = sid, rPacket = packet,
                  rSignal = (case signal of Some c \<Rightarrow> c | None \<Rightarrow> CHR 0x00)\<rparr>
      in if length (routerItemCh s) < ROUTER_QUEUE_SIZE
         then Ret None (s\<lparr>routerItemCh := routerItemCh s @ [item]\<rparr>)
         else Ret (Some ''load_over'') s)"

subsection \<open>Writing\<close>

text \<open>One message to the peer: the connection afterwards, the byte count and the error.\<close>

definition conn_write :: "bytes \<Rightarrow> conn \<Rightarrow> conn \<times> int \<times> string option" where
  "conn_write m c =
     (if c_open c \<and> \<not> c_broken c then (c\<lparr>c_sent := c_sent c @ [m]\<rparr>, int (length m), None)
      else (c, 0, Some (if c_open c then ''broken pipe'' else ''use of closed network connection'')))"

definition tcp_WritePacket ::
  "bytes \<Rightarrow> conn \<Rightarrow> (('r, 'z) router_state_scheme, conn \<times> int \<times> string option) op" where
  "tcp_WritePacket packet c = seqM (MeasureWriteAdd 1) (returnM (conn_write packet c))"

definition ws_WritePacket ::
  "bytes \<Rightarrow> conn \<Rightarrow> (('r, 'z) router_state_scheme, conn \<times> int \<times> string option) op" where
  "ws_WritePacket packet c =
     (if packet = [] then liftM (Inl IndexRange)
      else
        (let r0 = butlast packet;
             r = (if r0 = [HEART_BEAT] then BSLASH # ''02'' else if r0 = [KILL] then BSLASH # ''03'' else r0)
         in case conn_write r c of (c', _, err) \<Rightarrow> returnM (c', int (length r), err)))"

definition WritePacket ::
  "bytes \<Rightarrow> conn \<Rightarrow> (('r, 'z) router_state_scheme, conn \<times> int \<times> string option) op" where
  "WritePacket packet c = (case c_kind c of TCP \<Rightarrow> tcp_WritePacket packet c | WS \<Rightarrow> ws_WritePacket packet c)"

definition SetReadTimeout :: "int \<Rightarrow> conn \<Rightarrow> conn" where
  "SetReadTimeout t c = c\<lparr>c_deadline := Some t\<rparr>"

definition conn_Close :: "conn \<Rightarrow> conn" where
  "conn_Close c = c\<lparr>c_open := False\<rparr>"

text \<open>What a client on this kind of connection sees of a packet the server sends.\<close>

fun wire :: "conn_kind \<Rightarrow> bytes \<Rightarrow> bytes" where
  "wire TCP d = d @ [END_FLAG]"
| "wire WS d = (if d = [HEART_BEAT] then BSLASH # ''02'' else if d = [KILL] then BSLASH # ''03'' else d)"

lemma WritePacket_wire:
  "\<exists>n err s'. WritePacket (d @ [END_FLAG]) c s =
     Ret (if c_open c \<and> \<not> c_broken c then c\<lparr>c_sent := c_sent c @ [wire (c_kind c) d]\<rparr> else c, n, err) s' \<and>
     (s' = s \<or> s' = s\<lparr>m_write := m_write s + 1\<rparr>)"
  by (cases "c_kind c")
    (simp_all add: WritePacket_def tcp_WritePacket_def ws_WritePacket_def MeasureWriteAdd_def conn_write_def
      go_defs Let_def)

lemmas conn_defs = WritePacket_def tcp_WritePacket_def ws_WritePacket_def MeasureWriteAdd_def
  MeasureReadAdd_def MeasureReadGet_def MeasureWriteGet_def ofl_put_def ofl_get_def ofl_del_def Route_def

end
