(* ===== verification/Session.thy ===== *)
theory Session
  imports Conn
begin

text \<open>
  A client session, \<^verbatim>\<open>core/session.go\<close>: logging in, routing packets, buffering packets until the
  client acknowledges them, and closing.  The operations work on the state of the server
  extended by the session they are called on (\<open>me\<close>) and the channel of closed session ids
  (\<open>clean\<close>).  The session's connection is a pointer: it is nil until the constructor has
  set it.
\<close>

record SessionStatus =
  Sid :: string
  Jid :: string
  Status :: string
  Nodeid :: string
  Channel :: string
  Ct :: int

record Session =
  st :: SessionStatus
  sc :: "conn option"
  pkgBuff :: "(string \<times> Packet) list"

record 'r sess_state = "'r router_state" +
  clean :: "string list"
  me :: Session

text \<open>The order in which a Go map is visited is not specified; it is part of the environment.\<close>

record 'r sess_env = "'r db_env" +
  map_order :: "string list \<Rightarrow> string list"

type_synonym ('r, 'z, 'a) sess_op = "(('r, 'z) sess_state_scheme, 'a) op"
type_synonym ('r, 'e) senv = "('r, 'e) sess_env_scheme"

definition get_st :: "(SessionStatus \<Rightarrow> 'a) \<Rightarrow> ('r, 'z, 'a) sess_op" where
  "get_st f = getsM (\<lambda>s. f (st (me s)))"

definition upd_st :: "(SessionStatus \<Rightarrow> SessionStatus) \<Rightarrow> ('r, 'z, unit) sess_op" where
  "upd_st f = modifyM (\<lambda>s. s\<lparr>me := (me s)\<lparr>st := f (st (me s))\<rparr>\<rparr>)"

definition set_sc :: "conn \<Rightarrow> ('r, 'z, unit) sess_op" where
  "set_sc c = modifyM (\<lambda>s. s\<lparr>me := (me s)\<lparr>sc := Some c\<rparr>\<rparr>)"

definition get_sc :: "('r, 'z, conn) sess_op" where
  "get_sc = bindM (getsM (\<lambda>s. sc (me s))) (\<lambda>c. liftM (case c of None \<Rightarrow> Inl NilDeref | Some c \<Rightarrow> Inr c))"

subsection \<open>The session record in the database\<close>

definition status_json :: "SessionStatus \<Rightarrow> json" where
  "status_json self = JObj
     [(''Sid'', JStr (Sid self)), (''Jid'', JStr (Jid self)), (''Status'', JStr (Status self)),
      (''Nodeid'', JStr (Nodeid self)), (''Channel'', JStr (Channel self)), (''Ct'', JNum (dec_int (Ct self)))]"

definition status_ToJson :: "SessionStatus \<Rightarrow> bytes" where
  "status_ToJson self = marshal (status_json self)"

definition zero_status :: SessionStatus where
  "zero_status = \<lparr>Sid = [], Jid = [], Status = [], Nodeid = [], Channel = [], Ct = 0\<rparr>"

fun decode_int64 :: "json \<Rightarrow> int \<Rightarrow> int \<times> bool" where
  "decode_int64 (JNum l) old = (if is_int64 l then (parse_int64 l, True) else (old, False))"
| "decode_int64 JNull old = (old, True)"
| "decode_int64 _ old = (old, False)"

definition decode_status_member :: "bytes \<times> json \<Rightarrow> SessionStatus \<Rightarrow> SessionStatus \<times> bool" where
  "decode_status_member kv e =
     (let k = fst kv; v = snd kv in
      if is_field ''Sid'' k then (case decode_str v (Sid e) of (x, ok) \<Rightarrow> (e\<lparr>Sid := x\<rparr>, ok))
      else if is_field ''Jid'' k then (case decode_str v (Jid e) of (x, ok) \<Rightarrow> (e\<lparr>Jid := x\<rparr>, ok))
      else if is_field ''Status'' k then (case decode_str v (Status e) of (x, ok) \<Rightarrow> (e\<lparr>Status := x\<rparr>, ok))
      else if is_field ''Nodeid'' k then (case decode_str v (Nodeid e) of (x, ok) \<Rightarrow> (e\<lparr>Nodeid := x\<rparr>, ok))
      else if is_field ''Channel'' k then (case decode_str v (Channel e) of (x, ok) \<Rightarrow> (e\<lparr>Channel := x\<rparr>, ok))
      else if is_field ''Ct'' k then (case decode_int64 v (Ct e) of (x, ok) \<Rightarrow> (e\<lparr>Ct := x\<rparr>, ok))
      else (e, True))"

text \<open>A decoding error is only logged; what was decoded is returned.\<close>

definition NewSessionStatusFromJson :: "bytes \<Rightarrow> SessionStatus" where
  "NewSessionStatusFromJson data =
     (case json_parse data of
        None \<Rightarrow> zero_status
      | Some v \<Rightarrow> fst (decode_struct decode_status_member v zero_status))"

subsection \<open>Sending and deadlines\<close>

definition SendMessage :: "bytes \<Rightarrow> ('r, 'z, int \<times> string option) sess_op" where
  "SendMessage data =
     bindM get_sc (\<lambda>c.
     bindM (WritePacket (data @ [END_FLAG]) c) (\<lambda>(c', n, err).
     seqM (set_sc c') (returnM (n, err))))"

definition answer :: "Packet \<Rightarrow> ('r, 'z, unit) sess_op" where
  "answer packet = seqM (SendMessage (ToJson packet)) (returnM ())"

definition setSessionTimeout :: "('r, 'e) senv \<Rightarrow> int \<Rightarrow> ('r, 'z, unit) sess_op" where
  "setSessionTimeout E sec =
     bindM (get_st Status) (\<lambda>status.
     bindM (if sec > 0 then TimeoutTime E sec
            else if status = STATUS_CONN then TimeoutTime E LOGIN_TIMEOUT
            else TimeoutTime E SESSION_TIMEOUT) (\<lambda>t.
     bindM get_sc (\<lambda>c. set_sc (SetReadTimeout t c))))"

subsection \<open>Packets that wait for an acknowledgement\<close>

text \<open>
  \<open>pkgBuffWrite\<close> takes an action and a dynamically typed value; the type assertion is part
  of the model.
\<close>

datatype buff_arg = ArgPacket Packet | ArgString string

definition pkgBuffWrite :: "string \<Rightarrow> buff_arg \<Rightarrow> ('r, 'z, unit) sess_op" where
  "pkgBuffWrite action vo =
     (if action \<in> {''add'', ''ADD'', ''Add''} then
        (case vo of
           ArgPacket p \<Rightarrow>
             modifyM (\<lambda>s. s\<lparr>me := (me s)\<lparr>pkgBuff := aupd (eId (pEnvelope p)) p (pkgBuff (me s))\<rparr>\<rparr>)
         | ArgString _ \<Rightarrow> liftM (Inl TypeAssertion))
      else if action \<in> {''del'', ''DEL'', ''Del''} then
        (case vo of
           ArgString i \<Rightarrow> modifyM (\<lambda>s. s\<lparr>me := (me s)\<lparr>pkgBuff := adel i (pkgBuff (me s))\<rparr>\<rparr>)
         | ArgPacket _ \<Rightarrow> liftM (Inl TypeAssertion))
      else returnM ())"

definition StorePacket :: "('r, 'e) db_env_scheme \<Rightarrow> Packet \<Rightarrow> ('r, 'z, unit) db_op" where
  "StorePacket E packet =
     (case EnvelopeIdFromToType packet of (id', _, to, _) \<Rightarrow>
      bindM (liftM (ToOfflineKey (NewJID_ptr to))) (\<lambda>idx.
      seqM (PutExWithIdx E idx id' (ToJson packet) OFFLINE_EXPIRED) (returnM ())))"

definition pkgBuffToStore :: "('r, 'e) senv \<Rightarrow> ('r, 'z, unit) sess_op" where
  "pkgBuffToStore E =
     bindM (getsM (\<lambda>s. pkgBuff (me s))) (\<lambda>buff.
     if length buff = 0 then returnM ()
     else forM (map_order E (map fst buff)) (\<lambda>k.
       case map_of buff k of None \<Rightarrow> returnM () | Some v \<Rightarrow> StorePacket E v))"

subsection \<open>Closing\<close>

definition close_rest :: "('r, 'e) senv \<Rightarrow> string \<Rightarrow> ('r, 'z, unit) sess_op" where
  "close_rest E status =
     seqM (whenM (status = STATUS_LOGIN)
       (bindM (get_st Jid) (\<lambda>jidStr.
        bindM (liftM (ToSessionid (NewJID_ptr jidStr))) (\<lambda>k.
        bindM (get_st Nodeid) (\<lambda>idx.
        seqM (DeleteByIdxKey idx k) (returnM ()))))))
     (seqM (upd_st (\<lambda>x. x\<lparr>Status := STATUS_CLOSE\<rparr>))
     (seqM (bindM get_sc (\<lambda>c. set_sc (conn_Close c)))
       (pkgBuffToStore E)))"

definition CloseSession :: "('r, 'e) senv \<Rightarrow> ('r, 'z, unit) sess_op" where
  "CloseSession E =
     bindM (get_st Status) (\<lambda>status.
     if status = STATUS_CLOSE then returnM () else
     bindM (get_st Sid) (\<lambda>sid.
     seqM (modifyM (\<lambda>s. s\<lparr>clean := clean s @ [sid]\<rparr>)) (close_rest E status)))"

definition Kill :: "('r, 'e) senv \<Rightarrow> ('r, 'z, unit) sess_op" where
  "Kill E = seqM (SendMessage [KILL]) (CloseSession E)"

subsection \<open>Routing\<close>

text \<open>The two cases for a packet that is not addressed to this session's user.\<close>

definition route_out :: "('r, 'e) senv \<Rightarrow> JID option \<Rightarrow> Packet \<Rightarrow> ('r, 'z, unit) sess_op" where
  "route_out E jid packet =
     (case EnvelopeIdFromToType packet of (id', from, to, _) \<Rightarrow>
      bindM (liftM (EqualWithoutResource jid from)) (\<lambda>from_me.
      if from_me then
        (case NewJID to of
           Inl err \<Rightarrow> answer (NewPacketSysNotify id' err)
         | Inr to_jid \<Rightarrow>
             bindM (liftM (ToSessionid (Some to_jid))) (\<lambda>to_key.
             bindM (db_Get E to_key) (\<lambda>r.
             case r of
               Inr ssb \<Rightarrow>
                 (let ss = NewSessionStatusFromJson ssb in
                  seqM (Route (Channel ss) (Sid ss) (Some packet) None) (returnM ()))
             | Inl _ \<Rightarrow>
                 seqM (StorePacket E packet)
                   (seqM (OfflineCallback E (ToJson packet)) (returnM ())))))
      else returnM ()))"

definition RoutePacket :: "('r, 'e) senv \<Rightarrow> Packet \<Rightarrow> ('r, 'z, unit) sess_op" where
  "RoutePacket E packet =
     bindM (get_st Status) (\<lambda>status.
     if status \<noteq> STATUS_LOGIN then returnM () else
     bindM (get_st Jid) (\<lambda>jidStr.
     let jid = NewJID_ptr jidStr in
     case EnvelopeIdFromToType packet of (id', from, to, _) \<Rightarrow>
     bindM (liftM (EqualWithoutResource jid to)) (\<lambda>to_me.
     if to_me then
       seqM (pkgBuffWrite ''add'' (ArgPacket packet))
         (seqM (SendMessage (ToJson packet)) (returnM ()))
     else route_out E jid packet)))"

definition RoutePacketList :: "('r, 'e) senv \<Rightarrow> Packet list \<Rightarrow> ('r, 'z, unit) sess_op" where
  "RoutePacketList E packetList = forM packetList (RoutePacket E)"

subsection \<open>Group messages\<close>

fun gen_group :: "('r, 'e) db_env_scheme \<Rightarrow> string \<Rightarrow> JID \<Rightarrow> Packet \<Rightarrow> string list \<Rightarrow> ('r, 'z, Packet list) db_op" where
  "gen_group E from fromJid packet [] = returnM []"
| "gen_group E from fromJid packet (toUser # us) =
     (if user fromJid \<noteq> toUser then
        bindM (liftM (StringWithoutResource
            (case NewJIDByUidDomain toUser (domain fromJid) of Inl _ \<Rightarrow> None | Inr j \<Rightarrow> Some j))) (\<lambda>to.
        bindM (uuid_rand_hex E) (\<lambda>id'.
        bindM (Timestamp13 E) (\<lambda>now.
        let p = zero_Packet\<lparr>
              pEnvelope := zero_Envelope\<lparr>eId := id', eType := MSG_TYPE_GROUP_CHAT, eFrom := from, eTo := to,
                eGid := eGid (pEnvelope packet), eCt := dec_int now\<rparr>,
              pPayload := pPayload packet, pVsn := pVsn packet\<rparr>
        in bindM (gen_group E from fromJid packet us) (\<lambda>ps. returnM (p # ps)))))
      else gen_group E from fromJid packet us)"

definition genGroupPackets :: "('r, 'e) db_env_scheme \<Rightarrow> bytes \<Rightarrow> Packet \<Rightarrow> ('r, 'z, Packet list) db_op" where
  "genGroupPackets E users packet =
     (let from = eFrom (pEnvelope packet) in
      bindM (liftM (deref (NewJID_ptr from))) (\<lambda>fromJid.
      gen_group E from fromJid packet (split_on (CHR '','') users)))"

definition group_packets ::
  "('r, 'e) db_env_scheme \<Rightarrow> JID option \<Rightarrow> bytes \<Rightarrow> Packet \<Rightarrow> ('r, 'z, string + Packet list) db_op" where
  "group_packets E from_jid users packet =
     bindM (liftM (GetUser from_jid)) (\<lambda>uid.
     if contains users uid then bindM (genGroupPackets E users packet) (\<lambda>ps. returnM (Inr ps))
     else returnM (Inl ''no_permission''))"

definition GenerateGroupPackets ::
  "('r, 'e) db_env_scheme \<Rightarrow> Packet \<Rightarrow> ('r, 'z, string + Packet list) db_op" where
  "GenerateGroupPackets E packet =
     (let gid = eGid (pEnvelope packet); from_jid = NewJID_ptr (eFrom (pEnvelope packet)) in
      bindM (liftM (GetDomain from_jid)) (\<lambda>dmn.
      let groupUsersKey = ''group_'' @ gid @ ''@'' @ dmn in
      bindM (db_Get E groupUsersKey) (\<lambda>r.
      case r of
        Inr users \<Rightarrow> group_packets E from_jid users packet
      | Inl _ \<Rightarrow>
          bindM (GetGroupUserList E gid) (\<lambda>(ulist, ulist_err).
          if ulist_err = None \<and> length ulist > 1 then
            (let us = join '','' ulist in
             seqM (PutEx E groupUsersKey us 3600) (group_packets E from_jid us packet))
          else returnM (Inl ''group_notfound'')))))"

subsection \<open>Acknowledgements and offline messages\<close>

definition serverAck :: "Packet \<Rightarrow> ('r, 'z, unit) sess_op" where
  "serverAck packet =
     bindM (get_st Jid) (\<lambda>jidStr.
     bindM (liftM (ToOfflineKey (NewJID_ptr jidStr))) (\<lambda>idx.
     bindM (ofl_get (eId (pEnvelope packet))) (\<lambda>r.
     case r of
       Inr ids \<Rightarrow> forM ids (\<lambda>i. seqM (DeleteByIdxKey idx i) (returnM ()))
     | Inl _ \<Rightarrow> pkgBuffWrite ''del'' (ArgString (eId (pEnvelope packet))))))"

fun offline_packets :: "(string \<Rightarrow> string option) \<Rightarrow> bytes list \<Rightarrow> BasePacket list \<times> string list" where
  "offline_packets fl [] = ([], [])"
| "offline_packets fl (d # ds) =
     (case offline_packets fl ds of (pks, ids) \<Rightarrow>
      case NewBasePacket fl d of
        Inr pk \<Rightarrow> (pk # pks, eId (pEnvelope pk) # ids)
      | Inl _ \<Rightarrow> (pks, ids))"

definition fetchOfflinePacket ::
  "('r, 'e) senv \<Rightarrow> ('r, 'z, string + (BasePacket list \<times> string list)) sess_op" where
  "fetchOfflinePacket E =
     bindM (get_st Jid) (\<lambda>jidStr.
     bindM (liftM (ToOfflineKey (NewJID_ptr jidStr))) (\<lambda>idx.
     bindM (GetByIdx E idx) (\<lambda>r.
     returnM (case r of Inl e \<Rightarrow> Inl e | Inr ddata \<Rightarrow> Inr (offline_packets (float_json E) ddata)))))"

subsection \<open>Login\<close>

text \<open>A session that is already registered for the user is told to stop.\<close>

definition kick_previous :: "('r, 'e) senv \<Rightarrow> JID \<Rightarrow> ('r, 'z, unit) sess_op" where
  "kick_previous E jid_obj =
     bindM (liftM (ToSessionid (Some jid_obj))) (\<lambda>skey.
     bindM (db_Get E skey) (\<lambda>r.
     case r of
       Inr s \<Rightarrow>
         (let ss = NewSessionStatusFromJson s in
          seqM (Route (Channel ss) (Sid ss) None (Some KILL)) (returnM ()))
     | Inl _ \<Rightarrow> returnM ()))"

text \<open>\<open>verify\<close> returns the packet when the login is accepted; every refusal has closed the session.\<close>

definition verify :: "('r, 'e) senv \<Rightarrow> bytes \<Rightarrow> ('r, 'z, Packet option) sess_op" where
  "verify E p =
     (case NewPacket p of
        Inl err \<Rightarrow>
          bindM (uuid_rand_hex E) (\<lambda>id'.
          seqM (answer (NewPacketAuthFail id' FAIL_PACKET)) (seqM (CloseSession E) (returnM None)))
      | Inr packet \<Rightarrow>
          (let envelope = pEnvelope packet in
           if eType envelope \<noteq> MSG_TYPE_OPEN_SESSION then
             seqM (answer (NewPacketAuthFail (eId envelope) FAIL_TYPE)) (seqM (CloseSession E) (returnM None))
           else
             (case NewJID (eJid envelope) of
                Inl _ \<Rightarrow>
                  seqM (answer (NewPacketAuthFail (eId envelope) FAIL_PACKET)) (seqM (CloseSession E) (returnM None))
              | Inr jid_obj \<Rightarrow>
                  seqM (kick_previous E jid_obj)
                  (bindM (liftM (GetUser (Some jid_obj))) (\<lambda>uid.
                   bindM (Auth E uid (ePwd envelope)) (\<lambda>accepted.
                   if \<not> accepted then
                     seqM (answer (NewPacketAuthFail (eId envelope) FAIL_TOKEN))
                       (seqM (CloseSession E) (returnM None))
                   else returnM (Some packet)))))))"

definition storeSessionStatus :: "('r, 'e) senv \<Rightarrow> ('r, 'z, unit) sess_op" where
  "storeSessionStatus E =
     bindM (get_st Jid) (\<lambda>jidStr.
     bindM (liftM (ToSessionid (NewJID_ptr jidStr))) (\<lambda>key.
     bindM (get_st status_ToJson) (\<lambda>val.
     bindM (get_st Nodeid) (\<lambda>idx.
     seqM (PutExWithIdx E idx key val (-1)) (returnM ())))))"

text \<open>What \<open>openSession\<close> does once the login is accepted.\<close>

definition logged_in :: "('r, 'e) senv \<Rightarrow> Envelope \<Rightarrow> ('r, 'z, unit) sess_op" where
  "logged_in E envelope =
     (let p0 = AddDelay [] (NewPacketAuthSuccess (eId envelope)) in
      bindM (fetchOfflinePacket E) (\<lambda>r.
      bindM (case r of
          Inr (ofl_pks, ofl_ids) \<Rightarrow>
            seqM (whenM (length ofl_ids > 0) (ofl_put (eId envelope) ofl_ids))
              (returnM (AddDelay ofl_pks p0))
        | Inl _ \<Rightarrow> returnM p0) (\<lambda>p1.
      seqM (storeSessionStatus E) (answer p1))))"

definition openSession :: "('r, 'e) senv \<Rightarrow> bytes \<Rightarrow> ('r, 'z, unit) sess_op" where
  "openSession E p =
     bindM (verify E p) (\<lambda>v.
     case v of
       None \<Rightarrow> returnM ()
     | Some packet \<Rightarrow>
         bindM (Timestamp10 E) (\<lambda>ct.
         seqM (upd_st (\<lambda>x. x\<lparr>Jid := eJid (pEnvelope packet), Status := STATUS_LOGIN, Ct := ct\<rparr>))
           (logged_in E (pEnvelope packet))))"

subsection \<open>The packet handler\<close>

definition heartbeat :: "('r, 'z, unit) sess_op" where
  "heartbeat =
     bindM (get_st Status) (\<lambda>status.
     whenM (status = STATUS_LOGIN) (seqM (SendMessage [HEART_BEAT]) (returnM ())))"

definition err_text :: "'e env_scheme \<Rightarrow> perr \<Rightarrow> string" where
  "err_text E e = (case e of EPacket \<Rightarrow> ''error_packet'' | EJson b \<Rightarrow> json_err E b)"

definition handle_message :: "('r, 'e) senv \<Rightarrow> bytes \<Rightarrow> ('r, 'z, unit) sess_op" where
  "handle_message E p =
     (case NewPacket p of
        Inr packet0 \<Rightarrow>
          bindM (Timestamp13 E) (\<lambda>now.
          let packet = packet0\<lparr>pEnvelope := (pEnvelope packet0)\<lparr>eCt := dec_int now\<rparr>\<rparr> in
          case EnvelopeIdFromToType packet of (id', from, to, msgtype) \<Rightarrow>
          if msgtype = MSG_TYPE_STATE \<and> SERVER_ACK = to then serverAck packet
          else if msgtype = MSG_TYPE_GROUP_CHAT then
            bindM (GenerateGroupPackets E packet) (\<lambda>r.
            case r of
              Inr packets \<Rightarrow>
                bindM (Timestamp13 E) (\<lambda>t. seqM (answer (NewPacketAck id' t)) (RoutePacketList E packets))
            | Inl gerr \<Rightarrow> answer (NewPacketSysNotify id' gerr))
          else
            seqM (whenM (eAck (pEnvelope packet) \<noteq> 0)
              (bindM (Timestamp13 E) (\<lambda>t. answer (NewPacketAck id' t))))
              (RoutePacket E packet))
      | Inl err \<Rightarrow>
          bindM (uuid_rand_hex E) (\<lambda>id'.
          seqM (answer (NewPacketSysNotify id' (err_text E err))) (CloseSession E)))"

definition handle_packet :: "('r, 'e) senv \<Rightarrow> bytes \<Rightarrow> ('r, 'z, unit) sess_op" where
  "handle_packet E p =
     bindM (get_st Status) (\<lambda>status.
     if status = STATUS_CONN then openSession E p
     else if length p = 1 \<and> p ! 0 = HEART_BEAT then heartbeat
     else handle_message E p)"

definition handle_result :: "('r, 'e) senv \<Rightarrow> ReadPacketResult \<Rightarrow> ('r, 'z, unit) sess_op" where
  "handle_result E result =
     (case rp_err result of
        Some _ \<Rightarrow> bindM (get_st Status) (\<lambda>status. whenM (status \<noteq> STATUS_CLOSE) (CloseSession E))
      | None \<Rightarrow> forM (rp_packets result) (handle_packet E))"

text \<open>
  The handler sets a deadline, works through the batch and resets the deadline; a panic
  in between is recovered and the deadline is then left as it is.  A panic in the first
  step is not recovered here.
\<close>

definition packetHandler :: "('r, 'e) senv \<Rightarrow> ReadPacketResult \<Rightarrow> ('r, 'z, unit) sess_op" where
  "packetHandler E result =
     seqM (setSessionTimeout E PACKET_HANDLER_TIMEOUT) (\<lambda>s.
       case handle_result E result s of
         Ret _ t \<Rightarrow> setSessionTimeout E 0 t
       | Panic _ t \<Rightarrow> Ret () t)"

subsection \<open>Constructors\<close>

definition newSession :: "('r, 'e) db_env_scheme \<Rightarrow> string \<Rightarrow> ('r, 'z, Session) db_op" where
  "newSession E c =
     bindM (uuid_rand_hex E) (\<lambda>sid.
     bindM (GetString ''nodeid'' []) (\<lambda>nodeid.
     returnM \<lparr>st = zero_status\<lparr>Sid := sid, Status := STATUS_CONN, Nodeid := nodeid, Channel := c\<rparr>,
              sc = None, pkgBuff = []\<rparr>))"

text \<open>The connection is attached and given the login deadline once the reader has been started.\<close>

definition attach_conn :: "('r, 'e) senv \<Rightarrow> conn_kind \<Rightarrow> ('r, 'z, unit) sess_op" where
  "attach_conn E kind = seqM (set_sc (new_conn kind)) (setSessionTimeout E 0)"

lemmas session_access_defs = get_st_def upd_st_def get_sc_def set_sc_def

lemma bindM_get_st [steps]: "bindM (get_st f) g s = g (f (st (me s))) s"
  by (simp add: get_st_def steps)

lemma seqM_upd_st [steps]: "seqM (upd_st f) m s = m (s\<lparr>me := (me s)\<lparr>st := f (st (me s))\<rparr>\<rparr>)"
  by (simp add: upd_st_def steps)

end
