(* ===== verification/Rpc.thy ===== *)
theory Rpc
  imports Session
begin

text \<open>
  The channel between nodes, \<^verbatim>\<open>sararpc/*.go\<close>: the queue of incoming messages, the pool of RPC
  connections per peer address, \<open>Publish\<close> to a channel and the RPC handlers \<open>Process\<close> and
  \<open>ProcessBatch\<close> that feed the queue.

  Peers are outside the node: the environment says whether the \<open>n\<close>-th dial succeeds and what
  the \<open>n\<close>-th call returns.  A connection is named by the number of its dial.
\<close>

record 'r rpc_env = "'r sess_env" +
  dial :: "nat \<Rightarrow> string \<Rightarrow> string option"        \<comment> \<open>the error, if any\<close>
  rpc_process :: "nat \<Rightarrow> string \<Rightarrow> string \<Rightarrow> string + string"   \<comment> \<open>address and content to error or result\<close>

record 'r rpc_state = "'r sess_state" +
  chan_id :: string
  dataCh :: "string list"
  clientPool :: "string \<rightharpoonup> nat list"
  dials :: nat
  calls :: "(string \<times> string) list"
  closed_clients :: "nat list"

type_synonym ('r, 'e) renv = "('r, 'e) rpc_env_scheme"
type_synonym ('r, 'z, 'a) rpc_op = "(('r, 'z) rpc_state_scheme, 'a) op"

definition PPSize :: nat where "PPSize = 100"

definition LICENCE :: string where "LICENCE = ''ABECDD3C-B737-42BA-8F49-92A3267BB822''"

subsection \<open>The connection pool\<close>

definition newClient :: "('r, 'e) renv \<Rightarrow> string \<Rightarrow> ('r, 'z, string + nat) rpc_op" where
  "newClient E addr s =
     (case dial E (dials s) addr of
        Some err \<Rightarrow> Ret (Inl err) (s\<lparr>dials := Suc (dials s)\<rparr>)
      | None \<Rightarrow> Ret (Inr (dials s)) (s\<lparr>dials := Suc (dials s)\<rparr>))"

definition pool_of :: "string \<Rightarrow> ('r, 'z) rpc_state_scheme \<Rightarrow> nat list" where
  "pool_of addr s = (case clientPool s addr of Some q \<Rightarrow> q | None \<Rightarrow> [])"

definition putClient :: "string \<Rightarrow> nat \<Rightarrow> ('r, 'z, unit) rpc_op" where
  "putClient addr c s =
     (let queue = pool_of addr s in
      if length queue < PPSize then Ret () (s\<lparr>clientPool := (clientPool s)(addr \<mapsto> queue @ [c])\<rparr>)
      else Ret () (s\<lparr>clientPool := (clientPool s)(addr \<mapsto> queue), closed_clients := c # closed_clients s\<rparr>))"

definition getClient :: "('r, 'e) renv \<Rightarrow> string \<Rightarrow> ('r, 'z, string + nat) rpc_op" where
  "getClient E addr s =
     (case pool_of addr s of
        client # queue \<Rightarrow> Ret (Inr client) (s\<lparr>clientPool := (clientPool s)(addr \<mapsto> queue)\<rparr>)
      | [] \<Rightarrow> newClient E addr (s\<lparr>clientPool := (clientPool s)(addr \<mapsto> [])\<rparr>))"

definition rpc_Process :: "('r, 'e) renv \<Rightarrow> string \<Rightarrow> string \<Rightarrow> ('r, 'z, string + string) rpc_op" where
  "rpc_Process E addr content s =
     Ret (rpc_process E (length (calls s)) addr content) (s\<lparr>calls := calls s @ [(addr, content)]\<rparr>)"

definition Call :: "('r, 'e) renv \<Rightarrow> string \<Rightarrow> string \<Rightarrow> string \<Rightarrow> string \<Rightarrow> ('r, 'z, string + string) rpc_op" where
  "Call E addr licence sn content =
     bindM (getClient E addr) (\<lambda>r.
     case r of
       Inl err \<Rightarrow> returnM (Inl err)
     | Inr client \<Rightarrow>
         bindM (rpc_Process E addr content) (\<lambda>rtn.
         case rtn of
           Inl e \<Rightarrow> returnM (Inl e)
         | Inr v \<Rightarrow> seqM (putClient addr client) (returnM (Inr v))))"

subsection \<open>Channels\<close>

definition GetChannel :: "('r, 'z, string) rpc_op" where
  "GetChannel = getsM chan_id"

definition Publish :: "('r, 'e) renv \<Rightarrow> string \<Rightarrow> string \<Rightarrow> ('r, 'z, string option) rpc_op" where
  "Publish E channel message =
     bindM GetChannel (\<lambda>own.
     if channel = own then seqM (modifyM (\<lambda>s. s\<lparr>dataCh := dataCh s @ [message]\<rparr>)) (returnM None)
     else
       bindM (uuid_rand_hex E) (\<lambda>sn.
       bindM (Call E channel LICENCE sn message) (\<lambda>r.
       returnM (case r of Inl e \<Rightarrow> Some e | Inr _ \<Rightarrow> None))))"

definition Process :: "('r, 'e) renv \<Rightarrow> string \<Rightarrow> string \<Rightarrow> string \<Rightarrow> ('r, 'z, string + string) rpc_op" where
  "Process E licence sn content =
     bindM GetChannel (\<lambda>own. seqM (Publish E own content) (returnM (Inr ''success'')))"

definition ProcessBatch :: "('r, 'e) renv \<Rightarrow> string \<Rightarrow> string \<Rightarrow> string list \<Rightarrow> ('r, 'z, string + string) rpc_op" where
  "ProcessBatch E licence sn contents =
     seqM (forM contents (\<lambda>content. bindM GetChannel (\<lambda>own. seqM (Publish E own content) (returnM ()))))
       (returnM (Inr ''success''))"

lemmas rpc_defs = newClient_def putClient_def getClient_def rpc_Process_def Call_def Publish_def
  GetChannel_def Process_def ProcessBatch_def pool_of_def uuid_rand_hex_def

end
