(* ===== verification/Write_Buffer.thy ===== *)
theory Write_Buffer
  imports Redis "HOL-Library.Multiset"
begin

text \<open>
  The workers behind the two write queues (\<open>wbfConsumerWorker\<close> and \<open>wbfConsumer\<close> of
  \<^verbatim>\<open>saradb/database.go\<close>), and \<open>Close\<close>.  A worker takes a command off its queue and runs it in a
  second step, so that the commands of different workers may run in another order than
  they were queued in.  Each turn of a worker's loop is one of the operations
  \<open>worker_recv\<close>, \<open>worker_sync\<close> and \<open>worker_timeout\<close>; a panic in one of them is not recovered.
\<close>

subsection \<open>A worker\<close>

definition new_worker :: "int \<Rightarrow> worker" where
  "new_worker n = \<lparr>wbTotal = n, kill = False, send_kill = False, w_hold = None, w_done = False\<rparr>"

text \<open>\<open>four_s\<close> selects the queue and the workers for session commands.\<close>

definition wqueue :: "bool \<Rightarrow> ('r, 'z) db_state_scheme \<Rightarrow> writeBufArgs list" where
  "wqueue four_s s = (if four_s then wbCh4s s else wbCh s)"

definition set_wqueue :: "bool \<Rightarrow> writeBufArgs list \<Rightarrow> ('r, 'z) db_state_scheme \<Rightarrow> ('r, 'z) db_state_scheme" where
  "set_wqueue four_s q s = (if four_s then s\<lparr>wbCh4s := q\<rparr> else s\<lparr>wbCh := q\<rparr>)"

definition workers :: "bool \<Rightarrow> ('r, 'z) db_state_scheme \<Rightarrow> worker list" where
  "workers four_s s = (if four_s then wk4s s else wk s)"

definition upd_worker ::
  "bool \<Rightarrow> nat \<Rightarrow> (worker \<Rightarrow> worker) \<Rightarrow> ('r, 'z) db_state_scheme \<Rightarrow> ('r, 'z) db_state_scheme" where
  "upd_worker four_s i f s =
     (if four_s then s\<lparr>wk4s := (wk4s s)[i := f (wk4s s ! i)]\<rparr> else s\<lparr>wk := (wk s)[i := f (wk s ! i)]\<rparr>)"

text \<open>
  Receiving: with a kill signal pending and not yet passed on, the worker first sends a
  stop request to the common queue.  A stop request ends the worker unless its own
  counter says it is the last one.
\<close>

definition worker_recv :: "bool \<Rightarrow> nat \<Rightarrow> ('r, 'z, unit) db_op" where
  "worker_recv four_s i s =
     (case wqueue four_s s of
        [] \<Rightarrow>
          if \<not> four_s \<and> wbClosed s then Ret () (upd_worker four_s i (\<lambda>w. w\<lparr>w_done := True\<rparr>) s)
          else Ret () s
      | x # q \<Rightarrow>
          (let w = workers four_s s ! i; s1 = set_wqueue four_s q s in
           bindM
             (if kill w \<and> \<not> send_kill w then
                (\<lambda>s. if wbClosed s then Panic SendClosed s
                     else Ret () (upd_worker four_s i (\<lambda>w. w\<lparr>send_kill := True\<rparr>) (s\<lparr>wbCh := wbCh s @ [WbKill]\<rparr>)))
              else returnM ())
             (\<lambda>_. case x of
                WbKill \<Rightarrow>
                  if wbTotal w > 1 then
                    modifyM (upd_worker four_s i (\<lambda>w. w\<lparr>wbTotal := wbTotal w - 1, w_done := True\<rparr>))
                  else returnM ()
              | Wb cmd \<Rightarrow> modifyM (upd_worker four_s i (\<lambda>w. w\<lparr>w_hold := Some cmd\<rparr>))) s1))"

definition worker_exec :: "('r, 'e) db_env_scheme \<Rightarrow> bool \<Rightarrow> nat \<Rightarrow> ('r, 'z, unit) db_op" where
  "worker_exec E four_s i s =
     (case w_hold (workers four_s s ! i) of
        None \<Rightarrow> Ret () s
      | Some cmd \<Rightarrow>
          seqM (executeDirect E cmd) (modifyM (upd_worker four_s i (\<lambda>w. w\<lparr>w_hold := None\<rparr>))) s)"

definition worker_sync :: "bool \<Rightarrow> nat \<Rightarrow> ('r, 'z, unit) db_op" where
  "worker_sync four_s i = modifyM (upd_worker four_s i (\<lambda>w. w\<lparr>kill := True\<rparr>))"

definition worker_timeout :: "bool \<Rightarrow> nat \<Rightarrow> ('r, 'z, unit) db_op" where
  "worker_timeout four_s i =
     modifyM (upd_worker four_s i
       (\<lambda>w. if kill w then w\<lparr>wbTotal := wbTotal w - 1, w_done := True\<rparr> else w))"

subsection \<open>Starting and closing\<close>

definition consumerTotal :: "int \<Rightarrow> int" where
  "consumerTotal PoolSize = (if PoolSize > 100 then quot PoolSize 5 else 20)"

definition wbfConsumer :: "int \<Rightarrow> ('r, 'z, unit) db_op" where
  "wbfConsumer PoolSize =
     modifyM (\<lambda>s. s\<lparr>wk := replicate (nat (consumerTotal PoolSize)) (new_worker (consumerTotal PoolSize)),
                  wk4s := replicate (nat (consumerTotal PoolSize)) (new_worker (consumerTotal PoolSize))\<rparr>)"

text \<open>
  \<open>Close\<close> closes the common queue and hands the kill signal to every session worker; then
  it waits for the workers.
\<close>

definition db_Close :: "('r, 'z, unit) db_op" where
  "db_Close =
     seqM (modifyM (\<lambda>s. s\<lparr>wbClosed := True\<rparr>))
       (bindM (getsM (\<lambda>s. length (wk4s s))) (\<lambda>n. forM [0..<n] (worker_sync True)))"

end
