(* ===== verification/Node.thy ===== *)
theory Node
  imports Rpc Write_Buffer
begin

text \<open>
  A node (\<^verbatim>\<open>node/node.go\<close>, \<^verbatim>\<open>node/router.go\<close>, \<^verbatim>\<open>node/sessionmap.go\<close>): the table of sessions, the router
  workers that drain the router's queue, the handler of messages from other nodes, the
  registration of the node, and the shutdown.

  Session objects live on a heap; the session table maps session ids to addresses.  A
  session's operation runs with the session loaded into \<open>me\<close> and is written back, also
  when it panics.  A panic that reaches the level of this theory in a worker goroutine is
  not recovered: it ends the process.
\<close>

record 'r node_state = "'r rpc_state" +
  nNodeid :: string
  heap :: "nat \<rightharpoonup> Session"
  next_addr :: nat
  sessionMap :: "string \<rightharpoonup> nat"
  acceptCh :: "conn_kind list"
  acceptClosed :: bool
  listeners :: "string list"    \<comment> \<open>the open listeners\<close>

type_synonym ('r, 'z, 'a) node_op = "(('r, 'z) node_state_scheme, 'a) op"

subsection \<open>Sessions on the heap\<close>

definition store_me :: "nat \<Rightarrow> ('r, 'z) node_state_scheme \<Rightarrow> ('r, 'z) node_state_scheme" where
  "store_me a s = s\<lparr>heap := (heap s)(a \<mapsto> me s)\<rparr>"

definition on_session :: "nat \<Rightarrow> ('r, 'z, 'a) node_op \<Rightarrow> ('r, 'z, 'a) node_op" where
  "on_session a m s =
     (case heap s a of
        None \<Rightarrow> Panic NilDeref s
      | Some S \<Rightarrow>
          (case m (s\<lparr>me := S\<rparr>) of
             Ret x t \<Rightarrow> Ret x (store_me a t)
           | Panic p t \<Rightarrow> Panic p (store_me a t)))"

definition registerSession :: "nat \<Rightarrow> ('r, 'z, unit) node_op" where
  "registerSession a =
     bindM (getsM (\<lambda>s. Sid (st (the (heap s a))))) (\<lambda>sid.
     whenM (sid \<noteq> []) (modifyM (\<lambda>s. s\<lparr>sessionMap := (sessionMap s)(sid \<mapsto> a)\<rparr>)))"

definition fetchSession :: "string \<Rightarrow> ('r, 'z, nat option) node_op" where
  "fetchSession sid = getsM (\<lambda>s. sessionMap s sid)"

text \<open>One round of the goroutine that removes closed sessions from the table.\<close>

definition node_clean :: "('r, 'z, unit) node_op" where
  "node_clean s =
     (case clean s of
        [] \<Rightarrow> Ret () s
      | sid # rest \<Rightarrow> Ret () (s\<lparr>clean := rest, sessionMap := (sessionMap s)(sid := None)\<rparr>))"

subsection \<open>Accepting connections\<close>

definition accept :: "conn_kind \<Rightarrow> ('r, 'z, unit) node_op" where
  "accept kind s = (if acceptClosed s then Panic SendClosed s else Ret () (s\<lparr>acceptCh := acceptCh s @ [kind]\<rparr>))"

definition dispatcher :: "('r, 'e) renv \<Rightarrow> conn_kind \<Rightarrow> ('r, 'z, unit) node_op" where
  "dispatcher E kind =
     bindM GetChannel (\<lambda>c.
     bindM (newSession E c) (\<lambda>session.
     bindM (getsM next_addr) (\<lambda>a.
     seqM (modifyM (\<lambda>s. s\<lparr>heap := (heap s)(a \<mapsto> session), next_addr := Suc a\<rparr>))
     (seqM (on_session a (attach_conn E kind)) (registerSession a)))))"

text \<open>One round of an accept worker.\<close>

definition accept_worker :: "('r, 'e) renv \<Rightarrow> ('r, 'z, unit) node_op" where
  "accept_worker E s =
     (case acceptCh s of [] \<Rightarrow> Ret () s | k # ks \<Rightarrow> dispatcher E k (s\<lparr>acceptCh := ks\<rparr>))"

subsection \<open>The router worker\<close>

definition deref_packet :: "Packet option \<Rightarrow> Packet go" where
  "deref_packet p = (case p of None \<Rightarrow> Inl NilDeref | Some x \<Rightarrow> Inr x)"

definition route_item :: "('r, 'e) renv \<Rightarrow> routerItem \<Rightarrow> ('r, 'z, unit) node_op" where
  "route_item E item =
     bindM GetChannel (\<lambda>own.
     if rChannel item = [] \<or> own = rChannel item then
       bindM (fetchSession (rSid item)) (\<lambda>session.
       case session of
         None \<Rightarrow> returnM ()
       | Some a \<Rightarrow>
           if rSignal item \<noteq> CHR 0x00 then
             whenM (rSignal item = KILL) (on_session a (Kill E))
           else
             bindM (liftM (deref_packet (rPacket item))) (\<lambda>packet.
             on_session a (RoutePacket E packet)))
     else
       bindM (liftM (deref_packet (rPacket item))) (\<lambda>packet.
       bindM (Publish E (rChannel item) (ToJson packet)) (\<lambda>err.
       case err of
         None \<Rightarrow> returnM ()
       | Some _ \<Rightarrow> StorePacket E packet)))"

text \<open>One round of a worker.\<close>

definition router_worker :: "('r, 'e) renv \<Rightarrow> ('r, 'z, unit) node_op" where
  "router_worker E s =
     (case routerItemCh s of
        [] \<Rightarrow> Ret () s
      | item # items \<Rightarrow> route_item E item (s\<lparr>routerItemCh := items\<rparr>))"

subsection \<open>Messages from other nodes\<close>

definition routePacket :: "('r, 'e) renv \<Rightarrow> Packet \<Rightarrow> ('r, 'z, unit) node_op" where
  "routePacket E packet =
     (case NewJID (eTo (pEnvelope packet)) of
        Inl _ \<Rightarrow> returnM ()
      | Inr jid \<Rightarrow>
          bindM (liftM (ToSessionid (Some jid))) (\<lambda>skey.
          bindM (db_Get E skey) (\<lambda>r.
          case r of
            Inr ssb \<Rightarrow>
              (let ss = NewSessionStatusFromJson ssb in
               seqM (Route (Channel ss) (Sid ss) (Some packet) None) (returnM ()))
          | Inl _ \<Rightarrow> StorePacket E packet)))"

definition dataChannelHandler :: "('r, 'e) renv \<Rightarrow> string \<Rightarrow> ('r, 'z, unit) node_op" where
  "dataChannelHandler E message =
     (case NewPacket message of
        Inl _ \<Rightarrow> returnM ()
      | Inr packet \<Rightarrow>
          if eType (pEnvelope packet) = MSG_TYPE_GROUP_CHAT then
            bindM (GenerateGroupPackets E packet) (\<lambda>r.
            case r of
              Inr packets \<Rightarrow> forM packets (routePacket E)
            | Inl _ \<Rightarrow> returnM ())
          else routePacket E packet)"

text \<open>One round of the goroutine \<open>Subscribe\<close> starts.\<close>

definition subscriber :: "('r, 'e) renv \<Rightarrow> ('r, 'z, unit) node_op" where
  "subscriber E s =
     (case dataCh s of
        [] \<Rightarrow> Ret () s
      | message # rest \<Rightarrow> dataChannelHandler E message (s\<lparr>dataCh := rest\<rparr>))"

subsection \<open>Start and shutdown\<close>

definition cleanGhostSession :: "('r, 'e) renv \<Rightarrow> ('r, 'z, unit) node_op" where
  "cleanGhostSession E =
     bindM (getsM nNodeid) (\<lambda>nodeid.
     bindM (Timestamp13 E) (\<lambda>ts.
     seqM (PutExWithIdx E ''sara'' nodeid (nodeid @ dec_int ts) 0)
       (seqM (DeleteByIdx E nodeid) (returnM ()))))"

definition closeListener :: "('r, 'z, unit) node_op" where
  "closeListener = modifyM (\<lambda>s. s\<lparr>listeners := []\<rparr>)"

text \<open>
  What \<open>Wait\<close> does after the stop signal.  The table's keys are visited in an unspecified
  order; \<open>sids\<close> lists them.
\<close>

definition shutdown :: "('r, 'e) renv \<Rightarrow> string list \<Rightarrow> ('r, 'z, unit) node_op" where
  "shutdown E sids =
     seqM (modifyM (\<lambda>s. s\<lparr>acceptClosed := True\<rparr>))
     (seqM closeListener
     (bindM (getsM sessionMap) (\<lambda>m.
      seqM (forM (map_order E sids) (\<lambda>sid.
        case m sid of None \<Rightarrow> returnM () | Some a \<Rightarrow> on_session a (CloseSession E)))
      db_Close)))"

lemmas node_defs = registerSession_def fetchSession_def node_clean_def accept_def dispatcher_def
  accept_worker_def route_item_def router_worker_def routePacket_def dataChannelHandler_def
  subscriber_def cleanGhostSession_def closeListener_def shutdown_def

end
