(* ===== verification/Session_Frame.thy ===== *)
theory Session_Frame
  imports Session
begin

text \<open>
  Invariants of session operations.  An invariant that does not look at the parts of the
  state an operation changes is kept by it.  The locales below state, one layer after the
  other, what an invariant must tolerate, and prove once which operations then keep it:
  database and callback operations (\<open>keeps_db\<close>), writing to the connection (\<open>keeps_conn\<close>),
  closing and acknowledging (\<open>keeps_close\<close>), and finally routing, login and the packet
  handler (\<open>keeps_session\<close>).  The concrete invariants are interpretations of these locales.
\<close>

subsection \<open>Rules for the control structures\<close>

lemma keeps_if: "(b \<Longrightarrow> keeps I m) \<Longrightarrow> (\<not> b \<Longrightarrow> keeps I n) \<Longrightarrow> keeps I (if b then m else n)"
  by simp

lemma keeps_case_sum:
  "(\<And>a. x = Inl a \<Longrightarrow> keeps I (f a)) \<Longrightarrow> (\<And>b. x = Inr b \<Longrightarrow> keeps I (g b)) \<Longrightarrow>
   keeps I (case x of Inl a \<Rightarrow> f a | Inr b \<Rightarrow> g b)"
  by (cases x) simp_all

lemma keeps_case_option:
  "(x = None \<Longrightarrow> keeps I m) \<Longrightarrow> (\<And>a. x = Some a \<Longrightarrow> keeps I (f a)) \<Longrightarrow>
   keeps I (case x of None \<Rightarrow> m | Some a \<Rightarrow> f a)"
  by (cases x) simp_all

lemma keeps_case_prod: "(\<And>a b. x = (a, b) \<Longrightarrow> keeps I (f a b)) \<Longrightarrow> keeps I (case x of (a, b) \<Rightarrow> f a b)"
  by (cases x) simp_all

lemma keeps_Let: "(\<And>y. y = x \<Longrightarrow> keeps I (f y)) \<Longrightarrow> keeps I (let y = x in f y)"
  by simp

lemma keeps_recovering: "keeps I m \<Longrightarrow> keeps I (recovering z m)"
  by (fastforce simp: keeps_def recovering_def split: outcome.splits)

lemma keeps_conj: "keeps I m \<Longrightarrow> keeps J m \<Longrightarrow> keeps (\<lambda>s. I s \<and> J s) m"
  by (simp add: keeps_def)

lemmas keeps_intros = keeps_bindM keeps_seqM keeps_whenM keeps_forM keeps_if keeps_case_sum
  keeps_case_option keeps_case_prod keeps_Let keeps_recovering keeps_returnM keeps_getsM keeps_liftM

named_theorems kept \<open>operations that keep the invariant at hand\<close>

subsection \<open>Database and callbacks\<close>

locale keeps_db =
  fixes I :: "('r, 'z) db_state_scheme \<Rightarrow> bool"
  assumes redis_ok: "I s \<Longrightarrow> I (s\<lparr>redis := r\<rparr>)"
    and wbCh_ok: "I s \<Longrightarrow> I (s\<lparr>wbCh := q\<rparr>)"
    and wbCh4s_ok: "I s \<Longrightarrow> I (s\<lparr>wbCh4s := wbCh4s s @ q\<rparr>)"
    and clock_ok: "I s \<Longrightarrow> I (s\<lparr>clock_n := n\<rparr>)"
    and rand_ok: "I s \<Longrightarrow> I (s\<lparr>rand_n := Suc (rand_n s)\<rparr>)"
    and posts_ok: "I s \<Longrightarrow> I (s\<lparr>posts := ps\<rparr>)"
begin

lemma keeps_executeDirect [kept]: "keeps I (executeDirect E c)"
  by (auto simp: keeps_def executeDirect_def redis_ok split: prod.splits)

lemma keeps_execute [kept]: "keeps I (execute c)" "keeps I (execute4s c)"
  by (auto simp: keeps_def execute_def execute4s_def wbCh_ok wbCh4s_ok)

lemma keeps_now [kept]: "keeps I (now E)" "keeps I (uuid_rand_hex E)"
  by (auto simp: keeps_def now_def uuid_rand_hex_def clock_ok rand_ok)

lemma keeps_clock [kept]: "keeps I (Timestamp10 E)" "keeps I (Timestamp13 E)" "keeps I (TimeoutTime E n)"
  by (auto simp: Timestamp10_def Timestamp13_def TimeoutTime_def intro!: keeps_intros kept)

lemma keeps_PostRequest [kept]: "keeps I (PostRequest E url ps)"
  by (auto simp: PostRequest_def keeps_def go_defs Let_def posts_ok split: sum.splits http_result.splits)

lemma keeps_conf [kept]: "keeps I (GetString k d)" "keeps I (GetInt k i)" "keeps I (GetBool k b)"
  by (auto simp: GetString_def GetInt_def GetBool_def intro!: keeps_intros)

lemma keeps_external [kept]:
  "keeps I (NewParams E sv m ps)" "keeps I (Auth E u p)" "keeps I (GetGroupUserList E g)"
  "keeps I (OfflineCallback E pk)"
  unfolding NewParams_def Auth_def GetGroupUserList_def OfflineCallback_def
  by (intro keeps_intros kept)+

lemma keeps_database [kept]:
  "keeps I (db_Get E k)" "keeps I (Delete k)" "keeps I (PutEx E k v n)" "keeps I (PutExWithIdx E i k v n)"
  "keeps I (DeleteByIdxKey i k)" "keeps I (GetByIdx E i)" "keeps I (CountByIdx E i)"
  unfolding db_Get_def Delete_def PutEx_def PutExWithIdx_def DeleteByIdxKey_def GetByIdx_def CountByIdx_def
  by (intro keeps_intros kept)+

lemma keeps_DeleteByIdx [kept]: "keeps I (DeleteByIdx E i)"
  unfolding DeleteByIdx_def by (intro keeps_intros kept)

lemma keeps_StorePacket [kept]: "keeps I (StorePacket E p)"
  unfolding StorePacket_def by (intro keeps_intros kept)

lemma keeps_gen_group: "keeps I (gen_group E f j p us)"
  by (induction us) (auto intro!: keeps_intros kept)

lemma keeps_group [kept]: "keeps I (genGroupPackets E us p)" "keeps I (group_packets E j us p)"
  "keeps I (GenerateGroupPackets E p)"
  unfolding genGroupPackets_def group_packets_def GenerateGroupPackets_def
  by (intro keeps_intros kept keeps_gen_group)+

end

subsection \<open>The connection\<close>

text \<open>
  How an operation may change a connection: what was sent stays sent, a closed connection
  stays closed and sends nothing more.
\<close>

definition conn_step :: "conn \<Rightarrow> conn \<Rightarrow> bool" where
  "conn_step c d \<longleftrightarrow>
     c_kind d = c_kind c \<and> (c_open d \<longrightarrow> c_open c) \<and> (\<exists>ms. c_sent d = c_sent c @ ms) \<and>
     (\<not> c_open c \<longrightarrow> c_sent d = c_sent c)"

lemma conn_step_simps [simp]: "conn_step c c" "conn_step c (SetReadTimeout t c)" "conn_step c (conn_Close c)"
  "c_open c \<Longrightarrow> conn_step c (c\<lparr>c_sent := c_sent c @ ms\<rparr>)"
  by (simp_all add: conn_step_def SetReadTimeout_def conn_Close_def)

definition after_send :: "bytes \<Rightarrow> conn \<Rightarrow> conn" where
  "after_send d c = (if c_open c \<and> \<not> c_broken c then c\<lparr>c_sent := c_sent c @ [wire (c_kind c) d]\<rparr> else c)"

lemma conn_step_after_send [simp]: "conn_step c (after_send d c)"
  by (simp add: after_send_def)

lemma SendMessage_run:
  assumes "sc (me s) = Some c"
  shows "\<exists>n err w. SendMessage d s = Ret (n, err) (s\<lparr>m_write := w, me := (me s)\<lparr>sc := Some (after_send d c)\<rparr>\<rparr>)"
proof -
  obtain n err u where u: "WritePacket (d @ [END_FLAG]) c s = Ret (after_send d c, n, err) u"
    "u = s \<or> u = s\<lparr>m_write := m_write s + 1\<rparr>"
    using WritePacket_wire unfolding after_send_def by blast
  have "s = s\<lparr>m_write := m_write s\<rparr>" by simp
  with u(2) obtain w where w: "u = s\<lparr>m_write := w\<rparr>" by metis
  have "SendMessage d s = Ret (n, err) (u\<lparr>me := (me u)\<lparr>sc := Some (after_send d c)\<rparr>\<rparr>)"
    using u(1) assms by (simp add: SendMessage_def session_access_defs go_defs)
  then show ?thesis by (auto simp: w)
qed

lemma SendMessage_nil: "sc (me s) = None \<Longrightarrow> SendMessage d s = Panic NilDeref s"
  by (simp add: SendMessage_def session_access_defs go_defs)

locale keeps_conn = keeps_db I for I :: "('r, 'z) sess_state_scheme \<Rightarrow> bool" +
  assumes m_write_ok: "I s \<Longrightarrow> I (s\<lparr>m_write := w\<rparr>)"
    and sc_ok: "I s \<Longrightarrow> sc (me s) = Some c \<Longrightarrow> conn_step c d \<Longrightarrow> I (s\<lparr>me := (me s)\<lparr>sc := Some d\<rparr>\<rparr>)"
begin

lemma keeps_get [kept]: "keeps I get_sc" "keeps I (get_st f)"
  unfolding get_sc_def get_st_def by (intro keeps_intros)+

lemma keeps_update_sc [kept]: "(\<And>c. conn_step c (f c)) \<Longrightarrow> keeps I (bindM get_sc (\<lambda>c. set_sc (f c)))"
  by (auto simp: keeps_def session_access_defs go_defs sc_ok split: option.splits)

lemma keeps_SendMessage [kept]: "keeps I (SendMessage d)"
proof (unfold keeps_def, intro allI impI)
  fix s assume I: "I s"
  show "I (state_of (SendMessage d s))"
  proof (cases "sc (me s)")
    case (Some c)
    then obtain n err w where "SendMessage d s = Ret (n, err) (s\<lparr>m_write := w, me := (me s)\<lparr>sc := Some (after_send d c)\<rparr>\<rparr>)"
      using SendMessage_run by blast
    then show ?thesis using sc_ok [of "s\<lparr>m_write := w\<rparr>" c "after_send d c"] m_write_ok [OF I] Some by simp
  qed (simp add: SendMessage_nil I)
qed

lemma keeps_answer [kept]: "keeps I (answer p)"
  unfolding answer_def by (intro keeps_intros kept)

lemma keeps_setSessionTimeout [kept]: "keeps I (setSessionTimeout E n)"
  unfolding setSessionTimeout_def by (intro keeps_intros kept) simp

lemma keeps_heartbeat [kept]: "keeps I heartbeat"
  unfolding heartbeat_def by (intro keeps_intros kept)

lemma keeps_storeSessionStatus [kept]: "keeps I (storeSessionStatus E)"
  unfolding storeSessionStatus_def by (intro keeps_intros kept)

lemma keeps_fetchOfflinePacket [kept]: "keeps I (fetchOfflinePacket E)"
  unfolding fetchOfflinePacket_def by (intro keeps_intros kept)

lemma keeps_pkgBuffToStore [kept]: "keeps I (pkgBuffToStore E)"
  unfolding pkgBuffToStore_def by (intro keeps_intros kept)

end

subsection \<open>Closing and acknowledging\<close>

text \<open>A session is marked closed only after its id has been handed to the cleaner.\<close>

interpretation reported: keeps_conn "\<lambda>s :: ('r, 'z) sess_state_scheme. Sid (st (me s)) \<in> set (clean s)"
  by unfold_locales simp_all

locale keeps_close = keeps_conn I for I :: "('r, 'z) sess_state_scheme \<Rightarrow> bool" +
  assumes clean_ok: "I s \<Longrightarrow> I (s\<lparr>clean := clean s @ [Sid (st (me s))]\<rparr>)"
    and close_ok: "I s \<Longrightarrow> Sid (st (me s)) \<in> set (clean s) \<Longrightarrow>
      I (s\<lparr>me := (me s)\<lparr>st := (st (me s))\<lparr>Status := STATUS_CLOSE\<rparr>\<rparr>\<rparr>)"
    and del_ok: "I s \<Longrightarrow> I (s\<lparr>me := (me s)\<lparr>pkgBuff := adel i (pkgBuff (me s))\<rparr>\<rparr>)"
begin

abbreviation both :: "('r, 'z) sess_state_scheme \<Rightarrow> bool" where
  "both \<equiv> \<lambda>s. I s \<and> Sid (st (me s)) \<in> set (clean s)"

lemma keeps_unregister:
  "keeps both (bindM (get_st Jid) (\<lambda>jidStr.
     bindM (liftM (ToSessionid (NewJID_ptr jidStr))) (\<lambda>k.
     bindM (get_st Nodeid) (\<lambda>idx. seqM (DeleteByIdxKey idx k) (returnM ())))))"
  by (intro keeps_intros keeps_conj kept reported.keeps_get reported.keeps_database)

lemma keeps_set_close: "keeps both (upd_st (\<lambda>x. x\<lparr>Status := STATUS_CLOSE\<rparr>))"
  unfolding upd_st_def by (rule keeps_modifyM) (simp add: close_ok)

lemma keeps_close_rest: "keeps both (close_rest E status)"
  unfolding close_rest_def
  by (intro keeps_intros keeps_unregister keeps_set_close keeps_conj kept reported.keeps_update_sc
      reported.keeps_pkgBuffToStore) simp_all

lemma keeps_CloseSession [kept]: "keeps I (CloseSession E)"
proof (unfold keeps_def, intro allI impI)
  fix s assume "I s"
  then show "I (state_of (CloseSession E s))"
    using keepsD [OF keeps_close_rest, of "s\<lparr>clean := clean s @ [Sid (st (me s))]\<rparr>" E "Status (st (me s))"]
      clean_ok [of s]
    by (simp add: CloseSession_def steps returnM_def)
qed

end

text \<open>What the operations that may close a session need to know of closing.\<close>

locale keeps_life = keeps_conn I for I :: "('r, 'z) sess_state_scheme \<Rightarrow> bool" +
  fixes E :: "('r, 'e) senv"
  assumes keeps_CloseSession [kept]: "keeps I (CloseSession E)"
    and del_ok: "I s \<Longrightarrow> I (s\<lparr>me := (me s)\<lparr>pkgBuff := adel i (pkgBuff (me s))\<rparr>\<rparr>)"
begin

lemma keeps_Kill [kept]: "keeps I (Kill E)"
  unfolding Kill_def by (intro keeps_intros kept)

lemma keeps_serverAck [kept]: "keeps I (serverAck p)"
  unfolding serverAck_def pkgBuffWrite_def ofl_get_def
  by (auto intro!: keeps_intros kept keeps_modifyM del_ok)

end

subsection \<open>Routing, login and the handler\<close>

text \<open>Database operations and callbacks leave the session alone.\<close>

interpretation session_untouched: keeps_db "\<lambda>s :: ('r, 'z) sess_state_scheme. me s = x" for x
  by unfold_locales simp_all

lemma me_unchanged_db: "db_Get E k s = Ret a t \<Longrightarrow> me t = me s"
  using keepsD [OF session_untouched.keeps_database(1), of s "me s" E k] by simp

lemma me_unchanged_Auth: "Auth E u pw s = Ret a t \<Longrightarrow> me t = me s"
  using keepsD [OF session_untouched.keeps_external(2), of s "me s" E u pw] by simp

lemma me_unchanged_Timestamp10: "Timestamp10 E s = Ret a t \<Longrightarrow> me t = me s"
  using keepsD [OF session_untouched.keeps_clock(1), of s "me s" E] by simp

lemma me_unchanged_Route: "Route ch i pk g s = Ret a t \<Longrightarrow> me t = me s"
  by (auto simp: Route_def Let_def split: if_splits)

lemma me_unchanged_kick:
  assumes "kick_previous E j s = Ret () t"
  shows "me t = me s"
proof -
  obtain r u where u: "db_Get E (session_key j) s = Ret r u"
    and t: "(case r of Inr s \<Rightarrow>
         (let ss = NewSessionStatusFromJson s in
          seqM (Route (Channel ss) (Sid ss) None (Some KILL)) (returnM ()))
     | Inl _ \<Rightarrow> returnM ()) u = Ret () t"
    using assms by (auto simp: kick_previous_def runs)
  show ?thesis
    using t me_unchanged_db [OF u] by (cases r) (auto simp: runs Let_def dest: me_unchanged_Route)
qed

lemmas me_unchanged = me_unchanged_db me_unchanged_Auth me_unchanged_Timestamp10 me_unchanged_Route

text \<open>An accepted login: the packet is a login packet with a well-formed address, the session is as before.\<close>

lemma verify_Some:
  assumes "verify E p s = Ret (Some packet) t"
  shows "NewPacket p = Inr packet \<and> eType (pEnvelope packet) = MSG_TYPE_OPEN_SESSION \<and>
    (\<exists>j u. NewJID (eJid (pEnvelope packet)) = Inr j \<and> Auth E (user j) (ePwd (pEnvelope packet)) u = Ret True t) \<and>
    me t = me s"
proof (cases "NewPacket p")
  case (Inr x)
  show ?thesis
  proof (cases "NewJID (eJid (pEnvelope x))")
    case (Inr j)
    obtain s2 where steps: "kick_previous E j s = Ret () s2"
      "Auth E (user j) (ePwd (pEnvelope x)) s2 = Ret True t" and x: "packet = x" "eType (pEnvelope x) = MSG_TYPE_OPEN_SESSION"
      using assms \<open>NewPacket p = Inr x\<close> Inr
      by (auto simp: verify_def runs Let_def split: if_splits)
    show ?thesis
      using steps(2) me_unchanged_kick [OF steps(1)] me_unchanged_Auth [OF steps(2)] x \<open>NewPacket p = Inr x\<close> Inr by auto
  qed (use assms \<open>NewPacket p = Inr x\<close> in \<open>auto simp: verify_def runs Let_def split: if_splits\<close>)
qed (use assms in \<open>auto simp: verify_def runs\<close>)

lemma RoutePacket_not_login: "Status (st (me s)) \<noteq> STATUS_LOGIN \<Longrightarrow> RoutePacket E packet s = Ret () s"
  by (simp add: RoutePacket_def get_st_def go_defs)

lemma RoutePacket_login:
  assumes "Status (st (me s)) = STATUS_LOGIN"
  shows "RoutePacket E packet s =
    (case EqualWithoutResource (NewJID_ptr (Jid (st (me s)))) (eTo (pEnvelope packet)) of
       Inl p \<Rightarrow> Panic p s
     | Inr True \<Rightarrow> seqM (pkgBuffWrite ''add'' (ArgPacket packet)) (seqM (SendMessage (ToJson packet)) (returnM ())) s
     | Inr False \<Rightarrow> route_out E (NewJID_ptr (Jid (st (me s)))) packet s)"
  using assms
  by (auto simp: RoutePacket_def EnvelopeIdFromToType_def steps Let_def split: sum.splits bool.splits)

sublocale keeps_close \<subseteq> closing: keeps_life I E for E :: "('r, 'e) senv"
  by unfold_locales (rule keeps_CloseSession, rule del_ok)

locale keeps_session = keeps_life I E for I :: "('r, 'z) sess_state_scheme \<Rightarrow> bool" and E :: "('r, 'e) senv" +
  assumes route_ok: "I s \<Longrightarrow> I (s\<lparr>routerItemCh := q\<rparr>)"
    and ofl_ok: "I s \<Longrightarrow> I (s\<lparr>ofl_cache := m\<rparr>)"
    and add_ok: "I s \<Longrightarrow> Status (st (me s)) = STATUS_LOGIN \<Longrightarrow>
      EqualWithoutResource (NewJID_ptr (Jid (st (me s)))) (eTo (pEnvelope p)) = Inr True \<Longrightarrow>
      I (s\<lparr>me := (me s)\<lparr>pkgBuff := aupd (eId (pEnvelope p)) p (pkgBuff (me s))\<rparr>\<rparr>)"
    and login_ok: "I s \<Longrightarrow> Status (st (me s)) = STATUS_CONN \<Longrightarrow> NewJID j = Inr x \<Longrightarrow>
      I (s\<lparr>me := (me s)\<lparr>st := (st (me s))\<lparr>Jid := j, Status := STATUS_LOGIN, Ct := ct\<rparr>\<rparr>\<rparr>)"
begin

lemma keeps_Route [kept]: "keeps I (Route c i p g)"
  by (simp add: keeps_def Route_def Let_def route_ok)

lemma keeps_ofl_put [kept]: "keeps I (ofl_put k v)"
  unfolding ofl_put_def by (intro keeps_modifyM ofl_ok)

lemma keeps_deliver:
  assumes "I s" "Status (st (me s)) = STATUS_LOGIN"
    and "EqualWithoutResource (NewJID_ptr (Jid (st (me s)))) (eTo (pEnvelope p)) = Inr True" "keeps I m"
  shows "I (state_of (seqM (pkgBuffWrite ''add'' (ArgPacket p)) m s))"
  using keepsD [OF assms(4) add_ok [OF assms(1-3)]]
  by (simp add: pkgBuffWrite_def go_defs)

lemma keeps_route_out [kept]: "keeps I (route_out E j p)"
  unfolding route_out_def by (intro keeps_intros kept)

lemma keeps_RoutePacket [kept]: "keeps I (RoutePacket E p)"
proof (unfold keeps_def, intro allI impI)
  fix s assume I: "I s"
  have rest: "keeps I (seqM (SendMessage (ToJson p)) (returnM ()))" by (intro keeps_intros kept)
  show "I (state_of (RoutePacket E p s))"
  proof (cases "Status (st (me s)) = STATUS_LOGIN")
    case True
    then show ?thesis
      using I keeps_deliver [OF I True _ rest] keepsD [OF keeps_route_out I]
      by (simp add: RoutePacket_login split: sum.splits bool.splits)
  qed (simp add: RoutePacket_not_login I)
qed

lemma keeps_RoutePacketList [kept]: "keeps I (RoutePacketList E ps)"
  unfolding RoutePacketList_def by (intro keeps_intros kept)

lemma keeps_verify [kept]: "keeps I (verify E p)"
  unfolding verify_def kick_previous_def by (intro keeps_intros kept)

lemma keeps_logged_in [kept]: "keeps I (logged_in E e)"
  unfolding logged_in_def by (intro keeps_intros kept)

lemma openSession_kept:
  assumes I: "I s" and conn: "Status (st (me s)) = STATUS_CONN"
  shows "I (state_of (openSession E p s))"
proof (cases "verify E p s")
  case (Panic x t)
  then show ?thesis using keepsD [OF keeps_verify I, of p] by (simp add: openSession_def bindM_Panic_step)
next
  case (Ret v t)
  have t: "I t" using keepsD [OF keeps_verify I, of p] Ret by simp
  show ?thesis
  proof (cases v)
    case None
    then show ?thesis using Ret t by (simp add: openSession_def bindM_Ret_step returnM_def)
  next
    case (Some packet)
    obtain j where j: "NewJID (eJid (pEnvelope packet)) = Inr j" and me: "me t = me s"
      using verify_Some Ret Some by blast
    obtain ct u where u: "Timestamp10 E t = Ret ct u" by (simp add: Timestamp10_def now_def go_defs)
    have "I u" "Status (st (me u)) = STATUS_CONN"
      using keepsD [OF keeps_clock(1) t, of E] u me_unchanged_Timestamp10 [OF u] me conn by simp_all
    from keepsD [OF keeps_logged_in login_ok [OF this j]] show ?thesis
      using Ret Some u by (simp add: openSession_def bindM_Ret_step steps)
  qed
qed

lemma keeps_handle_message [kept]: "keeps I (handle_message E p)"
  unfolding handle_message_def by (intro keeps_intros kept)

lemma keeps_handle_packet [kept]: "keeps I (handle_packet E p)"
  using openSession_kept [of _ p] keepsD [OF keeps_heartbeat] keepsD [OF keeps_handle_message, of _ p]
  by (simp add: keeps_def handle_packet_def steps)

lemma keeps_handle_result [kept]: "keeps I (handle_result E r)"
  unfolding handle_result_def by (intro keeps_intros kept)

lemma keeps_packetHandler [kept]: "keeps I (packetHandler E r)"
proof -
  have "keeps I (\<lambda>s. case handle_result E r s of Ret _ t \<Rightarrow> setSessionTimeout E 0 t | Panic _ t \<Rightarrow> Ret () t)"
    using keepsD [OF keeps_handle_result, of _ r] keepsD [OF keeps_setSessionTimeout, of _ E 0]
    by (fastforce simp: keeps_def split: outcome.splits)
  then show ?thesis unfolding packetHandler_def by (intro keeps_intros kept)
qed

end

end
