(* ===== verification/Session_Sample.thy ===== *)
theory Session_Sample
  imports Session
begin

text \<open>
  A small concrete world for the examples: the in-memory database, no callback URL, a
  user \<open>a@b\<close> who is logged in on node \<open>n1\<close> and a connection that has not logged in yet.
\<close>

definition sample_senv :: "mem sess_env" where
  "sample_senv = \<lparr>float_json = float_json sample_env, float_text = float_text sample_env,
     float_int = float_int sample_env, float_nz = float_nz sample_env, json_err = json_err sample_env,
     time_at = time_at sample_env, rand_at = rand_at sample_env, http = http sample_env,
     exec = mem_exec, map_order = (\<lambda>ks. ks)\<rparr>"

definition empty_mem :: mem where
  "empty_mem = \<lparr>mstrs = [], mhashes = []\<rparr>"

definition sample_state :: "mem \<Rightarrow> Session \<Rightarrow> mem sess_state" where
  "sample_state db S = \<lparr>clock_n = 0, rand_n = 0, posts = [], conf = [''nodeid'' \<mapsto> newConfVoKeyVal ''nodeid'' (CString ''n1'')],
     redis = db, db_model = MODEL_SINGLE, wbCh = [], wbCh4s = [], wbClosed = False, wk = [], wk4s = [],
     m_read = 0, m_write = 0, ofl_cache = Map.empty, routerItemCh = [], clean = [], me = S\<rparr>"

definition fresh_session :: Session where
  "fresh_session = \<lparr>st = zero_status\<lparr>Sid := ''s1'', Status := STATUS_CONN, Nodeid := ''n1'', Channel := ''h:1''\<rparr>,
     sc = Some (new_conn TCP), pkgBuff = []\<rparr>"

definition sample_session :: Session where
  "sample_session = fresh_session\<lparr>st := (st fresh_session)\<lparr>Jid := ''a@b'', Status := STATUS_LOGIN\<rparr>\<rparr>"

lemmas sample_defs = sample_senv_def sample_env_def sample_state_def fresh_session_def sample_session_def
  empty_mem_def new_conn_def zero_status_def

lemma sample_parts [simp]:
  "me (sample_state db S) = S" "redis (sample_state db S) = db" "wbClosed (sample_state db S) = False"
  "routerItemCh (sample_state db S) = []" "clock_n (sample_state db S) = 0" "wbCh (sample_state db S) = []"
  "clean (sample_state db S) = []" "wbCh4s (sample_state db S) = []"
  "exec sample_senv = mem_exec" "map_order sample_senv = (\<lambda>ks. ks)"
  by (simp_all add: sample_state_def sample_senv_def)

lemma sample_jid: "NewJID ''a@b'' = Inr \<lparr>user = ''a'', domain = ''b'', resource = []\<rparr>"
  "NewJID ''c@d'' = Inr \<lparr>user = ''c'', domain = ''d'', resource = []\<rparr>"
  by (simp_all add: NewJID_def)

end
