(* ===== verification/Session_Inv.thy ===== *)
theory Session_Inv
  imports Session_Frame Session_Sample
begin

text \<open>
  The invariant of a session object, that every operation keeps it, and what follows: the
  packet handler always returns.
\<close>

text \<open>
  A session that is logged in has a well-formed address.  Before the login nothing is
  buffered.  A buffered packet is stored under its own id and is addressed to the user of
  the session.  The connection is there.
\<close>

definition addressed :: "Session \<Rightarrow> Packet \<Rightarrow> bool" where
  "addressed S p \<longleftrightarrow>
     (\<exists>j k. NewJID (Jid (st S)) = Inr j \<and> NewJID (eTo (pEnvelope p)) = Inr k \<and> bare k = bare j)"

definition session_inv :: "Session \<Rightarrow> bool" where
  "session_inv S \<longleftrightarrow>
     sc S \<noteq> None \<and> distinct (map fst (pkgBuff S)) \<and>
     (Status (st S) = STATUS_LOGIN \<longrightarrow> (\<exists>j. NewJID (Jid (st S)) = Inr j)) \<and>
     (Status (st S) = STATUS_CONN \<longrightarrow> pkgBuff S = []) \<and>
     (\<forall>(i, p)\<in>set (pkgBuff S). eId (pEnvelope p) = i \<and> addressed S p)"

lemma addressed_more [simp]:
  "addressed (S\<lparr>sc := c\<rparr>) = addressed S" "addressed (S\<lparr>pkgBuff := b\<rparr>) = addressed S"
  "addressed (S\<lparr>st := (st S)\<lparr>Status := x\<rparr>\<rparr>) = addressed S"
  by (simp_all add: addressed_def fun_eq_iff)

lemma aupd_distinct: "distinct (map fst xs) \<Longrightarrow> distinct (map fst (aupd k v xs))"
  by (auto simp: aupd_def distinct_map_filter)

lemma adel_distinct: "distinct (map fst xs) \<Longrightarrow> distinct (map fst (adel k xs))"
  by (simp add: adel_def distinct_map_filter)

lemma set_aupd: "set (aupd k v xs) \<subseteq> insert (k, v) (set xs)"
  by (auto simp: aupd_def)

lemma set_adel: "set (adel k xs) \<subseteq> set xs"
  by (auto simp: adel_def)

lemma EqualWithoutResource_True:
  assumes "EqualWithoutResource (NewJID_ptr a) b = Inr True"
  shows "\<exists>j k. NewJID a = Inr j \<and> NewJID b = Inr k \<and> bare k = bare j"
  using assms
  by (cases "NewJID a"; cases "NewJID b")
    (auto simp: EqualWithoutResource_def NewJID_Inl_ptr NewJID_Inr_ptr split: if_splits)

lemma session_inv_sc: "session_inv S \<Longrightarrow> session_inv (S\<lparr>sc := Some c\<rparr>)"
  by (simp add: session_inv_def)

lemma session_inv_close: "session_inv S \<Longrightarrow> session_inv (S\<lparr>st := (st S)\<lparr>Status := STATUS_CLOSE\<rparr>\<rparr>)"
  by (simp add: session_inv_def status_distinct)

lemma session_inv_del: "session_inv S \<Longrightarrow> session_inv (S\<lparr>pkgBuff := adel i (pkgBuff S)\<rparr>)"
  by (simp add: session_inv_def adel_distinct) (auto simp: adel_def)

lemma session_inv_login:
  "session_inv S \<Longrightarrow> Status (st S) = STATUS_CONN \<Longrightarrow> NewJID j = Inr x \<Longrightarrow>
   session_inv (S\<lparr>st := (st S)\<lparr>Jid := j, Status := STATUS_LOGIN, Ct := ct\<rparr>\<rparr>)"
  by (simp add: session_inv_def)

lemma session_inv_add:
  assumes "session_inv S" "Status (st S) = STATUS_LOGIN"
    and "EqualWithoutResource (NewJID_ptr (Jid (st S))) (eTo (pEnvelope p)) = Inr True"
  shows "session_inv (S\<lparr>pkgBuff := aupd (eId (pEnvelope p)) p (pkgBuff S)\<rparr>)"
proof -
  have "addressed S p" using EqualWithoutResource_True [OF assms(3)] by (simp add: addressed_def)
  then have "\<forall>(i, q)\<in>set (aupd (eId (pEnvelope p)) p (pkgBuff S)). eId (pEnvelope q) = i \<and> addressed S q"
    using assms(1) set_aupd [of "eId (pEnvelope p)" p "pkgBuff S"] by (auto simp: session_inv_def)
  then show ?thesis
    using assms(1,2) by (simp add: session_inv_def aupd_distinct addressed_def status_distinct)
qed

interpretation inv_close: keeps_close "\<lambda>s :: ('r, 'z) sess_state_scheme. session_inv (me s)"
  by unfold_locales (simp_all add: session_inv_sc session_inv_close session_inv_del)

interpretation inv: keeps_session "\<lambda>s :: ('r, 'z) sess_state_scheme. session_inv (me s)" E for E :: "('r, 'e) senv"
  by unfold_locales (simp_all add: session_inv_login session_inv_add)

lemma distinct_lookup: "distinct (map fst xs) \<Longrightarrow> (k, v) \<in> set xs \<Longrightarrow> map_of xs k = Some v"
  by simp

subsection \<open>Returning\<close>

lemma get_sc_Some: "sc (me s) = Some c \<Longrightarrow> get_sc s = Ret c s"
  by (simp add: get_sc_def steps liftM_def)

lemma setSessionTimeout_Ret:
  assumes "sc (me s) \<noteq> None"
  shows "\<exists>t. setSessionTimeout E n s = Ret () t"
  using assms
  by (cases "n > 0"; cases "Status (st (me s)) = STATUS_CONN")
    (auto simp: setSessionTimeout_def TimeoutTime_def now_def session_access_defs go_defs)

text \<open>
  C7: Whatever a client sends, and whatever the database and the callback service answer,
  the packet handler of an attached session returns to its read loop (a panic in a packet
  is recovered), and the session invariant holds afterwards.
\<close>

theorem packetHandler_returns:
  assumes "session_inv (me s)"
  shows "\<exists>t. packetHandler E result s = Ret () t \<and> session_inv (me t)"
proof -
  obtain u where u: "setSessionTimeout E PACKET_HANDLER_TIMEOUT s = Ret () u"
    using setSessionTimeout_Ret assms by (metis session_inv_def)
  have "session_inv (me u)" using keepsD [OF inv_close.keeps_setSessionTimeout assms, of E PACKET_HANDLER_TIMEOUT] u by simp
  then have h: "session_inv (me (state_of (handle_result E result u)))"
    using keepsD [OF inv.keeps_handle_result] by blast
  have "\<exists>t. packetHandler E result s = Ret () t"
  proof (cases "handle_result E result u")
    case (Ret a v)
    then show ?thesis
      using h setSessionTimeout_Ret [of v E 0] u by (auto simp: packetHandler_def seqM_Ret_step session_inv_def)
  qed (use u in \<open>simp add: packetHandler_def seqM_Ret_step\<close>)
  then obtain t where t: "packetHandler E result s = Ret () t" by blast
  with keepsD [OF inv.keeps_packetHandler assms, of E result] show ?thesis by auto
qed

lemma session_inv_sample: "session_inv sample_session"
  by (simp add: session_inv_def sample_session_def fresh_session_def sample_jid)

theorem packetHandler_returns_witness:
  "session_inv sample_session \<and>
   (\<exists>t. packetHandler sample_senv \<lparr>rp_packets = [''{''], rp_err = None\<rparr>
     (sample_state empty_mem sample_session) = Ret () t)"
  using packetHandler_returns [of "sample_state empty_mem sample_session" sample_senv] session_inv_sample by auto

end
