(* ===== verification/Session_Close.thy ===== *)
theory Session_Close
  imports Session_Inv
begin

text \<open>
  Closing a session: its complete effect on the state of the server, what becomes of the
  packets the client has not acknowledged, and what a closed session can still do.
\<close>

subsection \<open>Storing a packet\<close>

text \<open>The commands that store a packet for the user it is addressed to.\<close>

definition store_cmds :: "JID \<Rightarrow> Packet \<Rightarrow> writeBufArgs list" where
  "store_cmds k p =
     [Wb (HSET (offline_key k @ IDX_SUFFIX) (eId (pEnvelope p)) (ToJson p)),
      Wb (SETEX (eId (pEnvelope p)) OFFLINE_EXPIRED (ToJson p))]"

lemma store_cmds_bare: "bare k = bare j \<Longrightarrow> store_cmds k p = store_cmds j p"
  by (simp add: store_cmds_def)

lemma StorePacket_queues:
  assumes "NewJID (eTo (pEnvelope p)) = Inr k" "\<not> is4s (eId (pEnvelope p))" "\<not> wbClosed s"
  shows "StorePacket E p s = Ret () (s\<lparr>wbCh := wbCh s @ store_cmds k p\<rparr>)"
  using assms
  by (simp add: StorePacket_def EnvelopeIdFromToType_def PutExWithIdx_def execute_def NewJID_Inr_ptr
      OFFLINE_EXPIRED_def store_cmds_def steps go_defs)

lemma StorePacket_closed:
  assumes "NewJID (eTo (pEnvelope p)) = Inr k" "\<not> is4s (eId (pEnvelope p))" "wbClosed s"
  shows "StorePacket E p s = Ret () s"
  using assms
  by (simp add: StorePacket_def EnvelopeIdFromToType_def PutExWithIdx_def execute_def NewJID_Inr_ptr go_defs)

text \<open>The commands for a whole buffer, in the order the buffer is visited.\<close>

definition buff_cmds :: "JID \<Rightarrow> (string \<times> Packet) list \<Rightarrow> string list \<Rightarrow> writeBufArgs list" where
  "buff_cmds j buff ks =
     concat (map (\<lambda>k. case map_of buff k of None \<Rightarrow> [] | Some p \<Rightarrow> store_cmds j p) ks)"

lemma store_loop:
  assumes "\<And>k p. map_of buff k = Some p \<Longrightarrow>
      \<exists>x. NewJID (eTo (pEnvelope p)) = Inr x \<and> bare x = bare j \<and> \<not> is4s (eId (pEnvelope p))"
    and "\<not> wbClosed s"
  shows "forM ks (\<lambda>k. case map_of buff k of None \<Rightarrow> returnM () | Some v \<Rightarrow> StorePacket E v) s =
    Ret () (s\<lparr>wbCh := wbCh s @ buff_cmds j buff ks\<rparr>)"
  using assms(2)
proof (induction ks arbitrary: s)
  case (Cons k ks)
  show ?case
  proof (cases "map_of buff k")
    case (Some p)
    obtain x where "NewJID (eTo (pEnvelope p)) = Inr x" "bare x = bare j" "\<not> is4s (eId (pEnvelope p))"
      using assms(1) [OF Some] by blast
    then have "StorePacket E p s = Ret () (s\<lparr>wbCh := wbCh s @ store_cmds j p\<rparr>)"
      using StorePacket_queues [of p x s E] store_cmds_bare [of x j p] Cons.prems by simp
    then show ?thesis
      using Some Cons.IH [of "s\<lparr>wbCh := wbCh s @ store_cmds j p\<rparr>"] Cons.prems
      by (simp add: seqM_Ret_step buff_cmds_def)
  qed (use Cons in \<open>simp add: steps buff_cmds_def\<close>)
qed (simp add: returnM_def buff_cmds_def)

subsection \<open>The effect of closing\<close>

definition unregister_cmds :: "SessionStatus \<Rightarrow> JID \<Rightarrow> writeBufArgs list" where
  "unregister_cmds x j =
     (if Status x = STATUS_LOGIN
      then [Wb (HDEL (Nodeid x @ IDX_SUFFIX) (session_key j)), Wb (DEL (session_key j))] else [])"

definition closed_state :: "('r, 'e) senv \<Rightarrow> JID \<Rightarrow> conn \<Rightarrow> ('r, 'z) sess_state_scheme \<Rightarrow> ('r, 'z) sess_state_scheme" where
  "closed_state E j c s = s\<lparr>
     clean := clean s @ [Sid (st (me s))],
     wbCh4s := wbCh4s s @ unregister_cmds (st (me s)) j,
     wbCh := wbCh s @ buff_cmds j (pkgBuff (me s)) (map_order E (map fst (pkgBuff (me s)))),
     me := (me s)\<lparr>st := (st (me s))\<lparr>Status := STATUS_CLOSE\<rparr>, sc := Some (conn_Close c)\<rparr>\<rparr>"

lemma is4s_session_key [simp]: "is4s (session_key j)"
  by (simp add: is4s_def SESSION_PERFIX_def)

lemma unregister_runs:
  assumes "NewJID (Jid (st (me s))) = Inr j"
  shows "bindM (get_st Jid) (\<lambda>jidStr.
        bindM (liftM (ToSessionid (NewJID_ptr jidStr))) (\<lambda>k.
        bindM (get_st Nodeid) (\<lambda>idx.
        seqM (DeleteByIdxKey idx k) (returnM ())))) s =
    Ret () (s\<lparr>wbCh4s := wbCh4s s @
      [Wb (HDEL (Nodeid (st (me s)) @ IDX_SUFFIX) (session_key j)), Wb (DEL (session_key j))]\<rparr>)"
  using assms
  by (simp add: steps NewJID_Inr_ptr DeleteByIdxKey_def Delete_def Let_def)
    (simp add: go_defs execute4s_def)

text \<open>A session with its invariant gets past the point where it is marked closed.\<close>

lemma CloseSession_marks:
  assumes inv: "session_inv (me s)" and st: "Status (st (me s)) \<noteq> STATUS_CLOSE"
  shows "\<exists>q. CloseSession E s = seqM (bindM get_sc (\<lambda>c. set_sc (conn_Close c))) (pkgBuffToStore E)
    (s\<lparr>clean := clean s @ [Sid (st (me s))], wbCh4s := q, me := (me s)\<lparr>st := (st (me s))\<lparr>Status := STATUS_CLOSE\<rparr>\<rparr>\<rparr>) \<and>
    (Status (st (me s)) = STATUS_LOGIN \<longrightarrow> q \<noteq> [])"
proof (cases "Status (st (me s)) = STATUS_LOGIN")
  case True
  then obtain j where j: "NewJID (Jid (st (me s))) = Inr j" using inv by (auto simp: session_inv_def)
  show ?thesis
    using st True unregister_runs [of "s\<lparr>clean := clean s @ [Sid (st (me s))]\<rparr>" j] j
    by (auto simp: CloseSession_def close_rest_def steps whenM_def seqM_Ret_step)
next
  case False
  show ?thesis
    using st False by (auto simp: CloseSession_def close_rest_def steps whenM_def intro: exI [of _ "wbCh4s s"])
qed

text \<open>Closing never fails for a session with its invariant, whatever the database does.\<close>

lemma StorePacket_returns:
  assumes k: "NewJID (eTo (pEnvelope p)) = Inr k"
  shows "\<exists>t. StorePacket E p s = Ret () t"
proof (cases "is4s (eId (pEnvelope p))")
  case True
  have direct: "\<exists>r t. executeDirect E c u = Ret r t" for c u by (simp add: executeDirect_def split: prod.splits)
  obtain r u where r: "executeDirect E (HSET (offline_key k @ IDX_SUFFIX) (eId (pEnvelope p)) (ToJson p)) s = Ret r u"
    using direct by blast
  obtain q v where q: "executeDirect E (SETEX (eId (pEnvelope p)) OFFLINE_EXPIRED (ToJson p)) u = Ret q v"
    using direct by blast
  obtain e t where "PutExWithIdx E (offline_key k) (eId (pEnvelope p)) (ToJson p) OFFLINE_EXPIRED s = Ret e t"
    using True r q by (cases "resp_err r") (simp_all add: PutExWithIdx_def bindM_Ret_step OFFLINE_EXPIRED_def returnM_def)
  then show ?thesis using k
    by (simp add: StorePacket_def EnvelopeIdFromToType_def NewJID_Inr_ptr steps seqM_Ret_step returnM_def)
next
  case False
  then show ?thesis using StorePacket_queues [OF k, of s E] StorePacket_closed [OF k, of s E] by (cases "wbClosed s") auto
qed

lemma pkgBuffToStore_returns:
  assumes "\<forall>(i, p)\<in>set (pkgBuff (me s)). \<exists>k. NewJID (eTo (pEnvelope p)) = Inr k"
  shows "\<exists>t. pkgBuffToStore E s = Ret () t"
proof -
  have "\<exists>t. (case map_of (pkgBuff (me s)) k of None \<Rightarrow> returnM () | Some v \<Rightarrow> StorePacket E v) u = Ret () t" for k u
    using assms StorePacket_returns by (auto simp: returnM_def split: option.split dest!: map_of_SomeD) blast
  then have "\<exists>t. forM (map_order E (map fst (pkgBuff (me s)))) (\<lambda>k. case map_of (pkgBuff (me s)) k of
      None \<Rightarrow> returnM () | Some v \<Rightarrow> StorePacket E v) s = Ret () t"
    by (rule forM_Ret)
  then show ?thesis by (simp add: pkgBuffToStore_def steps returnM_def)
qed

lemma CloseSession_returns:
  assumes "session_inv (me s)"
  shows "\<exists>t. CloseSession E s = Ret () t"
proof (cases "Status (st (me s)) = STATUS_CLOSE")
  case False
  obtain q where q: "CloseSession E s = seqM (bindM get_sc (\<lambda>c. set_sc (conn_Close c))) (pkgBuffToStore E)
    (s\<lparr>clean := clean s @ [Sid (st (me s))], wbCh4s := q, me := (me s)\<lparr>st := (st (me s))\<lparr>Status := STATUS_CLOSE\<rparr>\<rparr>\<rparr>)"
    using CloseSession_marks [OF assms False] by blast
  obtain c where c: "sc (me s) = Some c" using assms by (auto simp: session_inv_def)
  have "\<forall>(i, p)\<in>set (pkgBuff (me s)). \<exists>k. NewJID (eTo (pEnvelope p)) = Inr k"
    using assms by (fastforce simp: session_inv_def addressed_def)
  then show ?thesis
    unfolding q using c by (auto simp: session_access_defs go_defs intro!: pkgBuffToStore_returns)
qed (simp add: CloseSession_def steps returnM_def)

lemma CloseSession_runs:
  assumes inv: "session_inv (me s)" and st: "Status (st (me s)) \<noteq> STATUS_CLOSE"
    and c: "sc (me s) = Some c"
    and j: "Status (st (me s)) = STATUS_LOGIN \<or> pkgBuff (me s) \<noteq> [] \<Longrightarrow> NewJID (Jid (st (me s))) = Inr j"
    and ids: "\<forall>(i, p)\<in>set (pkgBuff (me s)). \<not> is4s i" and db: "\<not> wbClosed s"
  shows "CloseSession E s = Ret () (closed_state E j c s)"
proof -
  let ?buff = "pkgBuff (me s)" and ?x = "st (me s)"
  let ?s1 = "s\<lparr>clean := clean s @ [Sid ?x], wbCh4s := wbCh4s s @ unregister_cmds ?x j\<rparr>"
  let ?s2 = "?s1\<lparr>me := (me s)\<lparr>st := ?x\<lparr>Status := STATUS_CLOSE\<rparr>, sc := Some (conn_Close c)\<rparr>\<rparr>"
  have "\<exists>x. NewJID (eTo (pEnvelope p)) = Inr x \<and> bare x = bare j \<and> \<not> is4s (eId (pEnvelope p))"
    if "map_of ?buff k = Some p" for k p
  proof -
    have "(k, p) \<in> set ?buff" using that by (rule map_of_SomeD)
    then have "?buff \<noteq> []" "eId (pEnvelope p) = k" "addressed (me s) p" "\<not> is4s k"
      using inv ids by (auto simp: session_inv_def)
    then show ?thesis using j by (auto simp: addressed_def)
  qed
  then have "pkgBuffToStore E ?s2 = Ret () (closed_state E j c s)"
    using store_loop [of ?buff j ?s2 "map_order E (map fst ?buff)" E] db
    by (simp add: pkgBuffToStore_def steps closed_state_def) (simp add: buff_cmds_def returnM_def)
  moreover have "whenM (Status ?x = STATUS_LOGIN)
       (bindM (get_st Jid) (\<lambda>jidStr.
        bindM (liftM (ToSessionid (NewJID_ptr jidStr))) (\<lambda>k.
        bindM (get_st Nodeid) (\<lambda>idx.
        seqM (DeleteByIdxKey idx k) (returnM ()))))) (s\<lparr>clean := clean s @ [Sid ?x]\<rparr>) = Ret () ?s1"
    using j unregister_runs [of "s\<lparr>clean := clean s @ [Sid ?x]\<rparr>" j]
    by (simp add: whenM_def unregister_cmds_def returnM_def)
  moreover have "bindM get_sc (\<lambda>c. set_sc (conn_Close c)) (?s1\<lparr>me := (me s)\<lparr>st := ?x\<lparr>Status := STATUS_CLOSE\<rparr>\<rparr>\<rparr>) = Ret () ?s2"
    using c by (simp add: session_access_defs go_defs)
  ultimately show ?thesis
    using st by (simp add: CloseSession_def close_rest_def steps seqM_Ret_step)
qed

text \<open>
  C10: Closing a session never fails, and this is all it does: the session id is handed to
  the cleaner; if the user was logged in, the deletion of its session record and of the
  record's index entry is queued; the session is marked closed and its connection is
  closed; and every packet the client has not acknowledged is queued for storage under
  the user's offline key, with its time to live.
\<close>

theorem CloseSession_effect:
  assumes inv: "session_inv (me s)" and st: "Status (st (me s)) \<noteq> STATUS_CLOSE"
    and c: "sc (me s) = Some c"
    and j: "Status (st (me s)) = STATUS_LOGIN \<or> pkgBuff (me s) \<noteq> [] \<Longrightarrow> NewJID (Jid (st (me s))) = Inr j"
    and ids: "\<forall>(i, p)\<in>set (pkgBuff (me s)). \<not> is4s i" and db: "\<not> wbClosed s"
  shows "CloseSession E s = Ret () (closed_state E j c s)"
  using assms by (rule CloseSession_runs)

definition chat_packet :: Packet where
  "chat_packet = zero_Packet\<lparr>pEnvelope := zero_Envelope\<lparr>eId := ''m1'', eFrom := ''c@d'', eTo := ''a@b'', eType := 1\<rparr>\<rparr>"

lemmas chat_packet_defs = chat_packet_def zero_Packet_def zero_Envelope_def

lemma chat_parts [simp]:
  "eId (pEnvelope chat_packet) = ''m1''" "eFrom (pEnvelope chat_packet) = ''c@d''" "eTo (pEnvelope chat_packet) = ''a@b''"
  by (simp_all add: chat_packet_defs)

lemma not_4s_m1: "\<not> is4s ''m1''"
  by (simp add: is4s_def SESSION_PERFIX_def)

theorem CloseSession_effect_witness:
  "\<exists>t. CloseSession sample_senv (sample_state empty_mem (sample_session\<lparr>pkgBuff := [(''m1'', chat_packet)]\<rparr>)) = Ret () t \<and>
     Wb (SETEX ''m1'' OFFLINE_EXPIRED (ToJson chat_packet)) \<in> set (wbCh t) \<and> clean t = [''s1'']"
proof -
  let ?j = "\<lparr>user = ''a'', domain = ''b'', resource = []\<rparr>"
  let ?s = "sample_state empty_mem (sample_session\<lparr>pkgBuff := [(''m1'', chat_packet)]\<rparr>)"
  have "CloseSession sample_senv ?s = Ret () (closed_state sample_senv ?j (new_conn TCP) ?s)"
    by (rule CloseSession_effect)
      (auto simp: session_inv_def addressed_def sample_session_def fresh_session_def sample_jid not_4s_m1)
  then show ?thesis
    by (simp add: closed_state_def buff_cmds_def store_cmds_def sample_session_def fresh_session_def)
qed

subsection \<open>A closed session\<close>

definition silent :: "routerItem list \<Rightarrow> string list \<Rightarrow> bytes list \<Rightarrow> ('r, 'z) sess_state_scheme \<Rightarrow> bool" where
  "silent q cl sent s \<longleftrightarrow>
     Status (st (me s)) = STATUS_CLOSE \<and> routerItemCh s = q \<and> clean s = cl \<and>
     (\<exists>c. sc (me s) = Some c \<and> \<not> c_open c \<and> c_sent c = sent)"

interpretation silent: keeps_conn "silent q cl sent :: ('r, 'z) sess_state_scheme \<Rightarrow> bool" for q cl sent
  by unfold_locales (auto simp: silent_def conn_step_def)

lemma silent_closed: "silent q cl sent s \<Longrightarrow> Status (st (me s)) = STATUS_CLOSE"
  by (simp add: silent_def)

lemma CloseSession_again: "Status (st (me s)) = STATUS_CLOSE \<Longrightarrow> CloseSession E s = Ret () s"
  by (simp add: CloseSession_def steps returnM_def)

lemma silent_ops:
  "keeps (silent q cl sent) (CloseSession E)" "keeps (silent q cl sent) (RoutePacket E p)"
  "keeps (silent q cl sent) (serverAck p)"
proof -
  show "keeps (silent q cl sent) (CloseSession E)" by (simp add: keeps_def silent_def CloseSession_again)
  show "keeps (silent q cl sent) (RoutePacket E p)" by (simp add: keeps_def silent_def RoutePacket_not_login)
  have "keeps (silent q cl sent) (pkgBuffWrite ''del'' (ArgString i))" for i
    by (auto simp: pkgBuffWrite_def silent_def intro!: keeps_modifyM)
  then show "keeps (silent q cl sent) (serverAck p)"
    unfolding serverAck_def ofl_get_def by (intro keeps_intros kept silent.keeps_get silent.keeps_database)
qed

lemma silent_handle_result: "keeps (silent q cl sent) (handle_result E r)"
proof -
  have "keeps (silent q cl sent) (handle_message E p)" for p
    unfolding handle_message_def RoutePacketList_def
    by (intro keeps_intros silent_ops silent.keeps_answer silent.keeps_clock silent.keeps_now silent.keeps_group)
  then have "keeps (silent q cl sent) (handle_packet E p)" for p
    using silent.keeps_heartbeat [of q cl sent]
    by (auto simp: keeps_def handle_packet_def steps dest: silent_closed)
  then show ?thesis
    unfolding handle_result_def by (intro keeps_intros silent_ops silent.keeps_get)
qed

text \<open>
  C19: A closed session is silent.  Whatever its client still sends, the handler returns,
  no packet is handed to the router, nothing more is written to the connection, the
  session is not reported to the cleaner a second time, and it stays closed.
\<close>

theorem closed_session_silent:
  assumes "Status (st (me s)) = STATUS_CLOSE" "sc (me s) = Some c" "\<not> c_open c"
  shows "\<exists>t d. packetHandler E r s = Ret () t \<and> Status (st (me t)) = STATUS_CLOSE \<and>
    routerItemCh t = routerItemCh s \<and> clean t = clean s \<and> sc (me t) = Some d \<and> \<not> c_open d \<and> c_sent d = c_sent c"
proof -
  let ?I = "silent (routerItemCh s) (clean s) (c_sent c)"
  have I: "?I s" using assms by (simp add: silent_def)
  obtain u where u: "setSessionTimeout E PACKET_HANDLER_TIMEOUT s = Ret () u"
    using setSessionTimeout_Ret assms(2) by (metis option.distinct(1))
  have "?I u" using keepsD [OF silent.keeps_setSessionTimeout I, of E PACKET_HANDLER_TIMEOUT] u by simp
  then have v: "?I (state_of (handle_result E r u))" by (rule keepsD [OF silent_handle_result])
  have "\<exists>t. packetHandler E r s = Ret () t \<and> ?I t"
  proof (cases "handle_result E r u")
    case (Ret x w)
    obtain t where t: "setSessionTimeout E 0 w = Ret () t"
      using v Ret setSessionTimeout_Ret [of w E 0] by (auto simp: silent_def)
    then have "?I t" using keepsD [OF silent.keeps_setSessionTimeout, of _ _ _ w E 0] v Ret by simp
    then show ?thesis using u Ret t by (simp add: packetHandler_def seqM_Ret_step)
  qed (use u v in \<open>simp add: packetHandler_def seqM_Ret_step\<close>)
  then show ?thesis by (auto simp: silent_def)
qed

theorem closed_session_silent_witness:
  "\<exists>t. packetHandler sample_senv \<lparr>rp_packets = [''x''], rp_err = None\<rparr>
     (sample_state empty_mem (sample_session\<lparr>st := (st sample_session)\<lparr>Status := STATUS_CLOSE\<rparr>,
       sc := Some (conn_Close (new_conn TCP))\<rparr>)) = Ret () t \<and> routerItemCh t = []"
  using closed_session_silent [of "sample_state empty_mem (sample_session\<lparr>st := (st sample_session)\<lparr>Status := STATUS_CLOSE\<rparr>,
       sc := Some (conn_Close (new_conn TCP))\<rparr>)" "conn_Close (new_conn TCP)" sample_senv "\<lparr>rp_packets = [''x''], rp_err = None\<rparr>"]
  by (auto simp: conn_Close_def)

subsection \<open>The life of a session\<close>

text \<open>What a session is, once it is logged in.\<close>

definition identity :: "SessionStatus \<Rightarrow> string \<times> string \<times> string \<times> string \<times> int" where
  "identity x = (Sid x, Jid x, Nodeid x, Channel x, Ct x)"

interpretation life_close: keeps_close "\<lambda>s :: ('r, 'z) sess_state_scheme.
    identity (st (me s)) = x \<and> (Status (st (me s)) = STATUS_CLOSE \<or> b \<and> Status (st (me s)) = STATUS_LOGIN)" for x b
  by unfold_locales (auto simp: identity_def)

interpretation life: keeps_session "\<lambda>s :: ('r, 'z) sess_state_scheme.
    identity (st (me s)) = x \<and> (Status (st (me s)) = STATUS_CLOSE \<or> b \<and> Status (st (me s)) = STATUS_LOGIN)" E
  for x b and E :: "('r, 'e) senv"
  by unfold_locales auto

text \<open>
  C20: After the login a session keeps its identity for good: no input of the client and no
  answer of the database or the callback service changes its id, user, node, channel or
  login time, or brings it back to the state before the login; and a closed session stays
  closed.
\<close>

theorem session_identity_fixed:
  assumes "Status (st (me s)) \<in> {STATUS_LOGIN, STATUS_CLOSE}"
  shows "let t = state_of (packetHandler E r s) in
    identity (st (me t)) = identity (st (me s)) \<and> Status (st (me t)) \<in> {STATUS_LOGIN, STATUS_CLOSE} \<and>
    (Status (st (me s)) = STATUS_CLOSE \<longrightarrow> Status (st (me t)) = STATUS_CLOSE)"
  using assms keepsD [OF life.keeps_packetHandler [of "identity (st (me s))" True E r], of s]
    keepsD [OF life.keeps_packetHandler [of "identity (st (me s))" False E r], of s]
  by (auto simp: Let_def)

theorem session_identity_fixed_witness:
  "Jid (st (me (state_of (packetHandler sample_senv \<lparr>rp_packets = [''x''], rp_err = None\<rparr>
     (sample_state empty_mem sample_session))))) = ''a@b''"
  using session_identity_fixed [of "sample_state empty_mem sample_session" sample_senv "\<lparr>rp_packets = [''x''], rp_err = None\<rparr>"]
  by (simp add: Let_def identity_def) (simp add: sample_session_def)

end
