(* ===== verification/Redis_Db.thy ===== *)
theory Redis_Db
  imports Redis
begin

text \<open>
  The database operations on a Redis server that keeps its documented laws: the locale
  \<open>redis_db\<close> derives from the laws of the server what a lookup returns and what a
  synchronous write changes.
\<close>

definition str_at :: "keyspace \<Rightarrow> bytes \<Rightarrow> bytes option" where
  "str_at v k = (case v k of Some (VStr x) \<Rightarrow> Some x | _ \<Rightarrow> None)"

lemma str_at_upd [simp]: "str_at (v(k \<mapsto> VStr x)) = (str_at v)(k \<mapsto> x)" "str_at (v(k := None)) = (str_at v)(k := None)"
  "str_at (v(h \<mapsto> VHash m)) = (str_at v)(h := None)"
  by (simp_all add: str_at_def fun_eq_iff)

lemma str_at_hash: "\<not> is_str v h \<Longrightarrow> str_at v h = None"
  by (auto simp: is_str_def str_at_def split: option.splits rval.splits)

lemma str_at_HSET [simp]: "str_at (redis_upd (HSET h k x) v) = str_at v"
  using str_at_hash [of v h] by (auto simp: fun_upd_idem)

lemma str_at_HDEL [simp]: "str_at (redis_upd (HDEL h k) v) = str_at v"
  by (auto simp: str_at_def fun_eq_iff split: option.splits rval.splits)

lemma hash_of_upd [simp]:
  "hash_of (v(k \<mapsto> VStr x)) = (hash_of v)(k := Map.empty)" "hash_of (v(k := None)) = (hash_of v)(k := Map.empty)"
  "hash_of (v(h \<mapsto> VHash m)) = (hash_of v)(h := m)"
  by (simp_all add: hash_of_def fun_eq_iff)

locale redis_db = redis_server "exec E" view
  for E :: "('r, 'e) db_env_scheme" and view :: "'r \<Rightarrow> keyspace"
begin

abbreviation keys :: "('r, 'z) db_state_scheme \<Rightarrow> keyspace" where
  "keys s \<equiv> view (redis s)"

lemma run_cmd:
  obtains a r where "executeDirect E c s = Ret a (s\<lparr>redis := r\<rparr>)" "view r = redis_upd c (keys s)" "redis_reply c (keys s) a"
proof (rule exec_cases [of "db_model s" c "redis s"])
  fix a r
  assume *: "exec E (db_model s) c (redis s) = (a, r)" "view r = redis_upd c (keys s)" "redis_reply c (keys s) a"
  from *(1) have "executeDirect E c s = Ret a (s\<lparr>redis := r\<rparr>)" by (simp add: executeDirect_def)
  with *(2,3) show thesis by (rule that [rotated])
qed

lemma db_Get_found:
  assumes "str_at (keys s) k = Some x"
  shows "\<exists>r. db_Get E k s = Ret (Inr x) (s\<lparr>redis := r\<rparr>) \<and> view r = keys s"
proof -
  obtain a r where a: "executeDirect E (GET k) s = Ret a (s\<lparr>redis := r\<rparr>)" "view r = keys s" "redis_reply (GET k) (keys s) a"
    by (rule run_cmd [of "GET k" s]) simp
  then show ?thesis
    using assms by (auto simp: db_Get_def bindM_Ret_step returnM_def Bytes_def str_at_def split: option.splits rval.splits)
qed

lemma db_Get_missing:
  assumes "str_at (keys s) k = None"
  shows "\<exists>r e. db_Get E k s = Ret (Inl e) (s\<lparr>redis := r\<rparr>) \<and> view r = keys s"
proof -
  obtain a r where a: "executeDirect E (GET k) s = Ret a (s\<lparr>redis := r\<rparr>)" "view r = keys s" "redis_reply (GET k) (keys s) a"
    by (rule run_cmd [of "GET k" s]) simp
  then show ?thesis
    using assms by (auto simp: db_Get_def bindM_Ret_step returnM_def Bytes_def str_at_def split: option.splits rval.splits)
qed

lemma db_Get_run: "\<exists>a r. db_Get E k s = Ret a (s\<lparr>redis := r\<rparr>) \<and> view r = keys s"
  using db_Get_found [of s k] db_Get_missing [of s k] by (cases "str_at (keys s) k") blast+

lemma GetByIdx_run: "\<exists>a r. GetByIdx E i s = Ret a (s\<lparr>redis := r\<rparr>) \<and> view r = keys s"
proof -
  obtain a r where "executeDirect E (HVALS (i @ IDX_SUFFIX)) s = Ret a (s\<lparr>redis := r\<rparr>)" "view r = keys s"
    by (rule run_cmd [of "HVALS (i @ IDX_SUFFIX)" s]) simp
  then show ?thesis by (auto simp: GetByIdx_def bindM_Ret_step returnM_def)
qed

text \<open>A session key is written at once: first the index entry, then the key itself.\<close>

lemma PutExWithIdx_direct:
  assumes "is4s k" "\<not> is_str (keys s) (i @ IDX_SUFFIX)"
  shows "\<exists>r. PutExWithIdx E i k x n s = Ret None (s\<lparr>redis := r\<rparr>) \<and>
    view r = (redis_upd (HSET (i @ IDX_SUFFIX) k x) (keys s))(k \<mapsto> VStr x)"
proof -
  let ?h = "HSET (i @ IDX_SUFFIX) k x" and ?c = "if n > 0 then SETEX k n x else SET k x"
  obtain a r where a: "executeDirect E ?h s = Ret a (s\<lparr>redis := r\<rparr>)" "view r = redis_upd ?h (keys s)" "redis_reply ?h (keys s) a"
    by (rule run_cmd)
  obtain b q where b: "executeDirect E ?c (s\<lparr>redis := r\<rparr>) = Ret b (s\<lparr>redis := q\<rparr>)"
    "view q = redis_upd ?c (view r)" "redis_reply ?c (view r) b"
    using run_cmd [of ?c "s\<lparr>redis := r\<rparr>"] by auto
  have "resp_err a = None" using a(3) assms(2) by (simp add: resp_err_def)
  moreover have "resp_err b = None" using b(3) by (auto simp: resp_err_def split: if_splits)
  moreover have "redis_upd ?c (view r) = (view r)(k \<mapsto> VStr x)" by simp
  ultimately show ?thesis
    using assms(1) a(1,2) b(1,2)
    by (intro exI [of _ q]) (simp add: PutExWithIdx_def bindM_Ret_step returnM_def Let_def del: redis_upd.simps split: if_splits)
qed

end

definition sample_denv :: "mem db_env" where
  "sample_denv = \<lparr>float_json = float_json sample_env, float_text = float_text sample_env,
     float_int = float_int sample_env, float_nz = float_nz sample_env, json_err = json_err sample_env,
     time_at = time_at sample_env, rand_at = rand_at sample_env, http = http sample_env, exec = mem_exec\<rparr>"

interpretation mem_core: redis_db sample_denv mem_view
  unfolding redis_db_def by (simp add: sample_denv_def mem.redis_server_axioms)

end
