(* ===== verification/Write_Run.thy ===== *)
theory Write_Run
  imports Write_Buffer Redis_Db
begin

text \<open>
  Runs of the queue workers.  The steps of all workers of a queue interleave freely.  As
  long as no worker has been told to stop, a run executes the queued commands in some
  order, none of them twice and none left out, and every run can be continued until the
  queue is empty.  Closing the database while session commands are queued is different.
\<close>

subsection \<open>Steps\<close>

inductive wb_step ::
  "('r, 'e) db_env_scheme \<Rightarrow> bool \<Rightarrow> ('r, 'z) db_state_scheme \<Rightarrow> ('r, 'z) db_state_scheme \<Rightarrow> bool"
  for E :: "('r, 'e) db_env_scheme" and b :: bool where
  recv: "i < length (workers b s) \<Longrightarrow> \<not> w_done (workers b s ! i) \<Longrightarrow> w_hold (workers b s ! i) = None \<Longrightarrow>
     worker_recv b i s = Ret () t \<Longrightarrow> wb_step E b s t"
| exec: "i < length (workers b s) \<Longrightarrow> worker_exec E b i s = Ret () t \<Longrightarrow> wb_step E b s t"

inductive_cases wb_stepE: "wb_step E b s t"

abbreviation wb_run ::
  "('r, 'e) db_env_scheme \<Rightarrow> bool \<Rightarrow> ('r, 'z) db_state_scheme \<Rightarrow> ('r, 'z) db_state_scheme \<Rightarrow> bool" where
  "wb_run E b \<equiv> (wb_step E b)\<^sup>*\<^sup>*"

subsection \<open>What is still to be done\<close>

fun cmds_of :: "writeBufArgs list \<Rightarrow> redis_cmd list" where
  "cmds_of [] = []"
| "cmds_of (Wb c # q) = c # cmds_of q"
| "cmds_of (WbKill # q) = cmds_of q"

fun hold :: "worker \<Rightarrow> redis_cmd multiset" where
  "hold w = (case w_hold w of None \<Rightarrow> {#} | Some c \<Rightarrow> {#c#})"

fun held :: "worker list \<Rightarrow> redis_cmd multiset" where
  "held [] = {#}"
| "held (w # ws) = hold w + held ws"

definition pending :: "bool \<Rightarrow> ('r, 'z) db_state_scheme \<Rightarrow> redis_cmd multiset" where
  "pending b s = mset (cmds_of (wqueue b s)) + held (workers b s)"

text \<open>No worker of the queue has been told to stop.\<close>

definition calm :: "bool \<Rightarrow> ('r, 'z) db_state_scheme \<Rightarrow> bool" where
  "calm b s \<longleftrightarrow> (\<forall>w\<in>set (workers b s). \<not> kill w) \<and> WbKill \<notin> set (wqueue b s)"

lemma cmds_of_append [simp]: "cmds_of (p @ q) = cmds_of p @ cmds_of q"
  by (induction p rule: cmds_of.induct) simp_all

lemma held_update:
  "i < length ws \<Longrightarrow> held (ws[i := w]) + hold (ws ! i) = held ws + hold w"
  by (induction ws arbitrary: i) (auto simp: nth_Cons ac_simps simp del: hold.simps split: nat.splits)

lemma held_empty: "held ws = {#} \<longleftrightarrow> (\<forall>w\<in>set ws. w_hold w = None)"
  by (induction ws) (auto split: option.splits)

lemma queue_simps [simp]:
  "wqueue b (set_wqueue b q s) = q" "workers b (set_wqueue b q s) = workers b s" "redis (set_wqueue b q s) = redis s"
  "wqueue b (upd_worker b i f s) = wqueue b s" "redis (upd_worker b i f s) = redis s"
  "workers b (upd_worker b i f s) = (workers b s)[i := f (workers b s ! i)]"
  "wqueue b (s\<lparr>redis := r\<rparr>) = wqueue b s" "workers b (s\<lparr>redis := r\<rparr>) = workers b s"
  by (simp_all add: wqueue_def set_wqueue_def workers_def upd_worker_def)

lemma calm_update:
  "calm b s \<Longrightarrow> i < length (workers b s) \<Longrightarrow> \<not> kill (f (workers b s ! i)) \<Longrightarrow> calm b (upd_worker b i f s)"
  by (auto simp: calm_def dest!: set_update_subset_insert [THEN subsetD])

text \<open>A receive step takes one command off the queue and lets the worker hold it.\<close>

lemma recv_step:
  assumes "calm b s" "i < length (workers b s)" "w_hold (workers b s ! i) = None" "worker_recv b i s = Ret () t"
  shows "calm b t \<and> pending b t = pending b s \<and> redis t = redis s"
proof (cases "wqueue b s")
  case Nil
  then have "t = s \<or> t = upd_worker b i (\<lambda>w. w\<lparr>w_done := True\<rparr>) s"
    using assms(4) by (auto simp: worker_recv_def split: if_splits)
  moreover have "\<not> kill (workers b s ! i)" using assms(1,2) by (simp add: calm_def)
  moreover have "held ((workers b s)[i := (workers b s ! i)\<lparr>w_done := True\<rparr>]) = held (workers b s)"
    using held_update [OF assms(2), of "(workers b s ! i)\<lparr>w_done := True\<rparr>"] assms(3) by simp
  ultimately show ?thesis using assms(1,2) calm_update [OF assms(1,2)] by (auto simp: pending_def)
next
  case (Cons x q)
  have k: "\<not> kill (workers b s ! i)" "x \<noteq> WbKill" "WbKill \<notin> set q" using assms(1,2) Cons by (auto simp: calm_def)
  then obtain c where c: "x = Wb c" by (cases x) auto
  have t: "t = upd_worker b i (\<lambda>w. w\<lparr>w_hold := Some c\<rparr>) (set_wqueue b q s)"
    using assms(4) Cons c k by (simp add: worker_recv_def Let_def steps modifyM_def)
  have "calm b (set_wqueue b q s)" using assms(1) k by (simp add: calm_def)
  then have "calm b t" using calm_update [of b "set_wqueue b q s" i "\<lambda>w. w\<lparr>w_hold := Some c\<rparr>"] assms(2) k(1) t by simp
  moreover have "held ((workers b s)[i := (workers b s ! i)\<lparr>w_hold := Some c\<rparr>]) = add_mset c (held (workers b s))"
    using held_update [OF assms(2), of "(workers b s ! i)\<lparr>w_hold := Some c\<rparr>"] assms(3) by simp
  ultimately show ?thesis using t Cons c by (simp add: pending_def)
qed

text \<open>An execute step runs the held command against the database.\<close>

lemma exec_step:
  assumes "redis_db E view" "calm b s" "i < length (workers b s)" "worker_exec E b i s = Ret () t"
  shows "calm b t \<and> (pending b t = pending b s \<and> redis t = redis s \<or>
    (\<exists>c. pending b s = add_mset c (pending b t) \<and> view (redis t) = redis_upd c (view (redis s))))"
proof (cases "w_hold (workers b s ! i)")
  case None
  then show ?thesis using assms by (simp add: worker_exec_def)
next
  case (Some c)
  obtain a r where r: "executeDirect E c s = Ret a (s\<lparr>redis := r\<rparr>)" "view r = redis_upd c (view (redis s))"
    using redis_db.run_cmd [OF assms(1)] by blast
  have t: "t = upd_worker b i (\<lambda>w. w\<lparr>w_hold := None\<rparr>) (s\<lparr>redis := r\<rparr>)"
    using assms(4) Some r(1) by (simp add: worker_exec_def seqM_Ret_step modifyM_def)
  have "\<not> kill (workers b s ! i)" using assms(2,3) by (simp add: calm_def)
  moreover have "calm b (s\<lparr>redis := r\<rparr>)" using assms(2) by (simp add: calm_def)
  ultimately have calm: "calm b t" using calm_update [of b "s\<lparr>redis := r\<rparr>" i "\<lambda>w. w\<lparr>w_hold := None\<rparr>"] assms(3) t by simp
  have "add_mset c (held ((workers b s)[i := (workers b s ! i)\<lparr>w_hold := None\<rparr>])) = held (workers b s)"
    using held_update [OF assms(3), of "(workers b s ! i)\<lparr>w_hold := None\<rparr>"] Some by simp
  then have "pending b s = add_mset c (pending b t)" using t by (simp add: pending_def)
  moreover have "view (redis t) = redis_upd c (view (redis s))" using t r(2) by simp
  ultimately show ?thesis using calm by blast
qed

lemma run_serial:
  assumes "redis_db E view" "wb_run E b s t" "calm b s"
  shows "calm b t \<and> (\<exists>ys. mset ys + pending b t = pending b s \<and> view (redis t) = fold redis_upd ys (view (redis s)))"
  using assms(2)
proof (induction rule: rtranclp_induct)
  case base
  have "mset [] + pending b s = pending b s \<and> view (redis s) = fold redis_upd [] (view (redis s))" by simp
  with assms(3) show ?case by blast
next
  case (step u w)
  then obtain ys where ys: "calm b u" "mset ys + pending b u = pending b s" "view (redis u) = fold redis_upd ys (view (redis s))"
    by blast
  from step.hyps(2) have "calm b w \<and> (pending b w = pending b u \<and> redis w = redis u \<or>
      (\<exists>c. pending b u = add_mset c (pending b w) \<and> view (redis w) = redis_upd c (view (redis u))))"
    using recv_step [OF ys(1)] exec_step [OF assms(1) ys(1)] by (cases rule: wb_step.cases) auto
  then consider "calm b w" "pending b w = pending b u" "redis w = redis u"
    | c where "calm b w" "pending b u = add_mset c (pending b w)" "view (redis w) = redis_upd c (view (redis u))" by blast
  then show ?case
  proof cases
    case 1
    then show ?thesis using ys by auto
  next
    case 2
    then have "mset (ys @ [c]) + pending b w = pending b s" "view (redis w) = fold redis_upd (ys @ [c]) (view (redis s))"
      using ys by (simp_all del: redis_upd.simps)
    then show ?thesis using 2(1) by blast
  qed
qed

text \<open>
  C12: The workers lose nothing and invent nothing.  Whatever order the workers of a queue
  run in, once nothing is left to do the database has executed exactly the commands that
  were queued or held at the beginning, each once, in some order.  This also holds after
  the queue has been closed, so closing the queue does not drop the pending writes.
\<close>

theorem write_queue_serialises:
  assumes "redis_db E view" "wb_run E b s t" "calm b s" "pending b t = {#}"
  shows "\<exists>ys. mset ys = pending b s \<and> view (redis t) = fold redis_upd ys (view (redis s))"
  using run_serial [OF assms(1-3)] assms(4) by simp

lemma drained:
  assumes "redis_db E view" "wb_run E b s t" "calm b s" "pending b t = {#}"
  obtains ys where "mset ys = pending b s" "view (redis t) = fold redis_upd ys (view (redis s))"
  using run_serial [OF assms(1-3)] assms(4) by auto

subsection \<open>Draining\<close>

lemma recv_once:
  assumes "calm b s" "i < length (workers b s)" "\<not> w_done (workers b s ! i)" "w_hold (workers b s ! i) = None"
    and "wqueue b s = Wb c # q"
  shows "wb_step E b s (upd_worker b i (\<lambda>w. w\<lparr>w_hold := Some c\<rparr>) (set_wqueue b q s))"
  by (rule wb_step.recv [OF assms(2-4)])
    (use assms in \<open>simp add: worker_recv_def Let_def steps modifyM_def calm_def\<close>)

lemma exec_once:
  assumes "redis_db E view" "i < length (workers b s)" "w_hold (workers b s ! i) = Some c"
  shows "\<exists>r. wb_step E b s (upd_worker b i (\<lambda>w. w\<lparr>w_hold := None\<rparr>) (s\<lparr>redis := r\<rparr>))"
proof -
  obtain a r where "executeDirect E c s = Ret a (s\<lparr>redis := r\<rparr>)" using redis_db.run_cmd [OF assms(1)] by blast
  then have "worker_exec E b i s = Ret () (upd_worker b i (\<lambda>w. w\<lparr>w_hold := None\<rparr>) (s\<lparr>redis := r\<rparr>))"
    using assms(3) by (simp add: worker_exec_def seqM_Ret_step modifyM_def)
  then show ?thesis using wb_step.exec [OF assms(2)] by blast
qed

definition busy :: "bool \<Rightarrow> ('r, 'z) db_state_scheme \<Rightarrow> nat" where
  "busy b s = 2 * length (wqueue b s) + size (held (workers b s))"

lemma drain_exists:
  assumes "redis_db E view" "calm b s" "i < length (workers b s)" "\<not> w_done (workers b s ! i)"
  shows "\<exists>t. wb_run E b s t \<and> pending b t = {#}"
  using assms(2-4)
proof (induction "busy b s" arbitrary: s rule: less_induct)
  case less
  have again: "\<exists>t. wb_run E b s t \<and> pending b t = {#}"
    if "wb_step E b s u" "calm b u" "length (workers b u) = length (workers b s)"
      "w_done (workers b u ! i) = w_done (workers b s ! i)" "busy b u < busy b s" for u
    using less.hyps [OF that(5,2)] that less.prems by (auto intro: converse_rtranclp_into_rtranclp)
  show ?case
  proof (cases "\<exists>k<length (workers b s). w_hold (workers b s ! k) \<noteq> None")
    case True
    then obtain k c where k: "k < length (workers b s)" "w_hold (workers b s ! k) = Some c" by auto
    obtain r where r: "wb_step E b s (upd_worker b k (\<lambda>w. w\<lparr>w_hold := None\<rparr>) (s\<lparr>redis := r\<rparr>))"
      using exec_once [OF assms(1) k] by blast
    let ?u = "upd_worker b k (\<lambda>w. w\<lparr>w_hold := None\<rparr>) (s\<lparr>redis := r\<rparr>)"
    have "\<not> kill (workers b s ! k)" "calm b (s\<lparr>redis := r\<rparr>)" using less.prems(1) k(1) by (simp_all add: calm_def)
    then have "calm b ?u" using calm_update [of b "s\<lparr>redis := r\<rparr>" k "\<lambda>w. w\<lparr>w_hold := None\<rparr>"] k(1) by simp
    moreover have "add_mset c (held (workers b ?u)) = held (workers b s)"
      using held_update [OF k(1), of "(workers b s ! k)\<lparr>w_hold := None\<rparr>"] k(2) by simp
    then have "busy b ?u < busy b s" unfolding busy_def by (metis less_add_same_cancel1 lessI nat_add_left_cancel_less queue_simps(4,7) size_add_mset)
    ultimately show ?thesis by (intro again [OF r]) (use k in \<open>auto simp: nth_list_update\<close>)
  next
    case False
    then have held: "held (workers b s) = {#}" "w_hold (workers b s ! i) = None"
      using less.prems(2) by (auto simp: held_empty in_set_conv_nth)
    show ?thesis
    proof (cases "wqueue b s")
      case Nil
      then have "pending b s = {#}" using held by (simp add: pending_def)
      then show ?thesis by blast
    next
      case (Cons x q)
      then obtain c where c: "wqueue b s = Wb c # q" using less.prems(1) by (cases x) (auto simp: calm_def)
      let ?u = "upd_worker b i (\<lambda>w. w\<lparr>w_hold := Some c\<rparr>) (set_wqueue b q s)"
      have step: "wb_step E b s ?u" by (rule recv_once [OF less.prems held(2) c])
      have "\<not> kill (workers b s ! i)" "calm b (set_wqueue b q s)" using less.prems(1,2) c by (simp_all add: calm_def)
      then have "calm b ?u" using calm_update [of b "set_wqueue b q s" i "\<lambda>w. w\<lparr>w_hold := Some c\<rparr>"] less.prems(2) by simp
      moreover have "held (workers b ?u) = {#c#}"
        using held_update [OF less.prems(2), of "(workers b s ! i)\<lparr>w_hold := Some c\<rparr>"] held by simp
      then have "busy b ?u < busy b s" using c by (simp add: busy_def)
      ultimately show ?thesis by (intro again [OF step]) (use less.prems in auto)
    qed
  qed
qed

text \<open>
  C21: A queue can always be worked off: as long as one of its workers is running and none
  has been told to stop, there is a run after which nothing is left to do.
\<close>

theorem write_queue_drains:
  assumes "redis_db E view" "calm b s" "i < length (workers b s)" "\<not> w_done (workers b s ! i)"
  shows "\<exists>t. wb_run E b s t \<and> pending b t = {#}"
  by (rule drain_exists [OF assms])

subsection \<open>Closing\<close>

lemma kill_workers:
  "n \<le> length (wk4s s) \<Longrightarrow>
   forM [0..<n] (worker_sync True) s =
     Ret () (s\<lparr>wk4s := map (\<lambda>w. w\<lparr>kill := True\<rparr>) (take n (wk4s s)) @ drop n (wk4s s)\<rparr>)"
proof (induction n)
  case (Suc n)
  have append: "forM (xs @ [x]) f s = seqM (forM xs f) (f x) s" for xs :: "nat list" and x f
    by (induction xs arbitrary: s) (auto simp: go_defs split: outcome.splits)
  have n: "n < length (wk4s s)" using Suc.prems by simp
  let ?ws = "map (\<lambda>w. w\<lparr>kill := True\<rparr>) (take n (wk4s s)) @ drop n (wk4s s)"
  have "?ws ! n = wk4s s ! n" using n by (simp add: nth_append)
  moreover have "?ws[n := (wk4s s ! n)\<lparr>kill := True\<rparr>] =
      map (\<lambda>w. w\<lparr>kill := True\<rparr>) (take (Suc n) (wk4s s)) @ drop (Suc n) (wk4s s)"
    using n by (simp add: list_update_append take_Suc_conv_app_nth flip: Cons_nth_drop_Suc)
  ultimately show ?case
    using Suc by (simp add: append seqM_Ret_step worker_sync_def upd_worker_def modifyM_def)
qed (simp add: returnM_def)

lemma db_Close_run:
  "db_Close s = Ret () (s\<lparr>wbClosed := True, wk4s := map (\<lambda>w. w\<lparr>kill := True\<rparr>) (wk4s s)\<rparr>)"
  using kill_workers [of "length (wk4s s)" "s\<lparr>wbClosed := True\<rparr>"] by (simp add: db_Close_def steps)

lemma db_Close_crash:
  assumes "wbCh4s s \<noteq> []" "i < length (wk4s s)" "\<not> send_kill (wk4s s ! i)"
  shows "\<exists>t u. db_Close s = Ret () t \<and> worker_recv True i t = Panic SendClosed u"
  using assms
  by (cases "wbCh4s s")
    (auto simp: db_Close_run worker_recv_def wqueue_def set_wqueue_def workers_def Let_def bindM_def)

text \<open>
  Closing the database with a session command still queued crashes the process.
  \<open>Close\<close> closes the common queue and then tells the session workers to stop; the next
  session worker that takes a command off its queue first passes the stop request on to
  the common queue, which is closed: it panics, and a worker does not recover.
\<close>

theorem close_with_queued_session_commands_crashes:
  assumes "wbCh4s s \<noteq> []" "i < length (wk4s s)" "\<not> send_kill (wk4s s ! i)"
  shows "\<exists>t u. db_Close s = Ret () t \<and> worker_recv True i t = Panic SendClosed u"
  using assms by (rule db_Close_crash)

subsection \<open>Examples\<close>

definition sample_dstate :: "writeBufArgs list \<Rightarrow> mem db_state" where
  "sample_dstate q = \<lparr>clock_n = 0, rand_n = 0, posts = [], conf = Map.empty, redis = \<lparr>mstrs = [], mhashes = []\<rparr>,
     db_model = MODEL_SINGLE, wbCh = q, wbCh4s = q, wbClosed = False, wk = [new_worker 1], wk4s = [new_worker 1]\<rparr>"

lemma sample_dstate_queues [simp]:
  "wqueue b (sample_dstate q) = q" "workers b (sample_dstate q) = [new_worker 1]" "wbCh4s (sample_dstate q) = q"
  "wk4s (sample_dstate q) = [new_worker 1]"
  by (simp_all add: wqueue_def workers_def sample_dstate_def)

lemma new_worker_parts [simp]: "w_hold (new_worker n) = None" "\<not> w_done (new_worker n)" "\<not> kill (new_worker n)" "\<not> send_kill (new_worker n)"
  by (simp_all add: new_worker_def)

lemma sample_calm: "calm b (sample_dstate [Wb (SET ''k'' ''v'')])"
  by (simp add: calm_def)

lemma sample_drained: "\<exists>t. wb_run sample_denv False (sample_dstate [Wb (SET ''k'' ''v'')]) t \<and> pending False t = {#}"
proof -
  let ?s = "sample_dstate [Wb (SET ''k'' ''v'')]"
  let ?u = "upd_worker False 0 (\<lambda>w. w\<lparr>w_hold := Some (SET ''k'' ''v'')\<rparr>) (set_wqueue False [] ?s)"
  have 1: "wb_step sample_denv False ?s ?u"
    by (rule recv_once [OF sample_calm]) simp_all
  obtain r where 2: "wb_step sample_denv False ?u (upd_worker False 0 (\<lambda>w. w\<lparr>w_hold := None\<rparr>) (?u\<lparr>redis := r\<rparr>))"
    using exec_once [OF mem_core.redis_db_axioms, of 0 False ?u "SET ''k'' ''v''"] by auto
  have "pending False (upd_worker False 0 (\<lambda>w. w\<lparr>w_hold := None\<rparr>) (?u\<lparr>redis := r\<rparr>)) = {#}"
    by (simp add: pending_def)
  with 1 2 show ?thesis by (meson converse_rtranclp_into_rtranclp rtranclp.rtrancl_refl)
qed

theorem write_queue_serialises_witness:
  "\<exists>t. wb_run sample_denv False (sample_dstate [Wb (SET ''k'' ''v'')]) t \<and> mem_view (redis t) ''k'' = Some (VStr ''v'')"
proof -
  obtain t where t: "wb_run sample_denv False (sample_dstate [Wb (SET ''k'' ''v'')]) t" "pending False t = {#}"
    using sample_drained by blast
  obtain ys where "mset ys = {#SET ''k'' ''v''#}" "mem_view (redis t) = fold redis_upd ys (mem_view (redis (sample_dstate [Wb (SET ''k'' ''v'')])))"
    using write_queue_serialises [OF mem_core.redis_db_axioms t(1) sample_calm t(2)] by (auto simp: pending_def)
  then show ?thesis using t(1) by auto
qed

theorem write_queue_drains_witness:
  "\<exists>t. wb_run sample_denv True (sample_dstate [Wb (SET ''k'' ''v'')]) t \<and> pending True t = {#}"
  by (rule write_queue_drains [OF mem_core.redis_db_axioms sample_calm, of 0]) simp_all

theorem close_with_queued_session_commands_crashes_witness:
  "\<exists>t u. db_Close (sample_dstate [Wb (DEL ''session_a@b'')]) = Ret () t \<and> worker_recv True 0 t = Panic SendClosed u"
  by (rule close_with_queued_session_commands_crashes) simp_all

end
