(* ===== verification/Rpc_Pool.thy ===== *)
theory Rpc_Pool
  imports Rpc Session_Sample
begin

text \<open>
  The pool of connections to other nodes: its invariant, exclusive use of a connection,
  and what publishing to a channel does.
\<close>

subsection \<open>The invariant\<close>

text \<open>
  Every pool holds at most \<open>PPSize\<close> connections, each of them dialled and none of them
  closed, and no connection is in two pools or twice in one.
\<close>

definition pool_inv :: "('r, 'z) rpc_state_scheme \<Rightarrow> bool" where
  "pool_inv s \<longleftrightarrow>
     (\<forall>a. length (pool_of a s) \<le> PPSize \<and> distinct (pool_of a s) \<and>
        (\<forall>c\<in>set (pool_of a s). c < dials s \<and> c \<notin> set (closed_clients s))) \<and>
     (\<forall>a b. a \<noteq> b \<longrightarrow> set (pool_of a s) \<inter> set (pool_of b s) = {}) \<and>
     (\<forall>c\<in>set (closed_clients s). c < dials s)"

text \<open>A connection that has been handed out is in no pool.\<close>

definition pool_out :: "nat \<Rightarrow> ('r, 'z) rpc_state_scheme \<Rightarrow> bool" where
  "pool_out c s \<longleftrightarrow> pool_inv s \<and> c < dials s \<and> c \<notin> set (closed_clients s) \<and> (\<forall>a. c \<notin> set (pool_of a s))"

lemma pool_of_simps [simp]:
  "pool_of b (s\<lparr>clientPool := (clientPool s)(a \<mapsto> q)\<rparr>) = (if b = a then q else pool_of b s)"
  "pool_of b (s\<lparr>clientPool := (clientPool s)(a \<mapsto> q), closed_clients := ds\<rparr>) = (if b = a then q else pool_of b s)"
  "pool_of b (s\<lparr>dials := n\<rparr>) = pool_of b s" "pool_of b (s\<lparr>calls := cs\<rparr>) = pool_of b s"
  "pool_of b (s\<lparr>rand_n := n\<rparr>) = pool_of b s" "pool_of b (s\<lparr>dataCh := d\<rparr>) = pool_of b s"
  by (simp_all add: pool_of_def)

lemma pool_inv_newClient:
  assumes "pool_inv s" "newClient E a s = Ret r t"
  shows "pool_inv t \<and> (\<forall>c. r = Inr c \<longrightarrow> pool_out c t)"
proof -
  have t: "t = s\<lparr>dials := Suc (dials s)\<rparr>" "r = Inr c \<Longrightarrow> c = dials s" for c
    using assms(2) by (auto simp: newClient_def split: option.splits)
  have "pool_inv t" using assms(1) by (auto simp: t(1) pool_inv_def intro: less_SucI)
  moreover have "dials s \<notin> set (closed_clients s)" "dials s \<notin> set (pool_of b s)" for b
    using assms(1) by (auto simp: pool_inv_def)
  ultimately show ?thesis by (auto simp: pool_out_def t(1) dest: t(2))
qed

lemma pool_inv_take:
  assumes "pool_inv s" "pool_of a s = c # q"
  shows "pool_out c (s\<lparr>clientPool := (clientPool s)(a \<mapsto> q)\<rparr>)"
proof -
  have a: "length (c # q) \<le> PPSize" "distinct (c # q)" "\<forall>x\<in>set (c # q). x < dials s \<and> x \<notin> set (closed_clients s)"
    using assms unfolding pool_inv_def by (metis+)
  have "set (c # q) \<inter> set (pool_of b s) = {}" if "b \<noteq> a" for b
    using assms that unfolding pool_inv_def by metis
  then have d: "set q \<inter> set (pool_of b s) = {} \<and> set (pool_of b s) \<inter> set q = {} \<and> c \<notin> set (pool_of b s)" if "b \<noteq> a" for b
    using that by auto
  show ?thesis using assms(1) a d by (auto simp: pool_out_def pool_inv_def)
qed

lemma pool_inv_new_queue:
  assumes "pool_inv s" "pool_of a s = []"
  shows "pool_inv (s\<lparr>clientPool := (clientPool s)(a \<mapsto> [])\<rparr>)"
  using assms by (auto simp: pool_inv_def)

lemma getClient_out:
  assumes "pool_inv s" "getClient E a s = Ret r t"
  shows "pool_inv t \<and> (\<forall>c. r = Inr c \<longrightarrow> pool_out c t)"
proof (cases "pool_of a s")
  case Nil
  then show ?thesis
    using assms pool_inv_newClient [OF pool_inv_new_queue [OF assms(1) Nil]] by (simp add: getClient_def)
next
  case (Cons c q)
  then show ?thesis
    using assms pool_inv_take [OF assms(1) Cons] by (auto simp: getClient_def pool_out_def)
qed

lemma pool_inv_putClient:
  assumes "pool_out c s"
  shows "pool_inv (state_of (putClient a c s))"
  using assms by (auto simp: putClient_def Let_def pool_out_def pool_inv_def)

subsection \<open>Publishing\<close>

lemma pool_inv_more [simp]: "pool_inv (s\<lparr>rand_n := n\<rparr>) = pool_inv s" "pool_inv (s\<lparr>dataCh := d\<rparr>) = pool_inv s"
  "pool_out c (s\<lparr>calls := cs\<rparr>) = pool_out c s" "pool_inv (s\<lparr>calls := cs\<rparr>) = pool_inv s"
  by (simp_all add: pool_inv_def pool_out_def)

lemma getClient_Ret: "\<exists>r t. getClient E a s = Ret r t"
  by (auto simp: getClient_def newClient_def split: list.splits option.splits)

lemma getClient_calls: "getClient E a s = Ret r t \<Longrightarrow> calls t = calls s \<and> dataCh t = dataCh s"
  by (auto simp: getClient_def newClient_def split: list.splits option.splits)

lemma Call_run:
  assumes "pool_inv s"
  shows "\<exists>r t. Call E a l sn content s = Ret r t \<and> pool_inv t \<and> dataCh t = dataCh s \<and>
    (\<forall>v. r = Inr v \<longrightarrow> calls t = calls s @ [(a, content)] \<and> rpc_process E (length (calls s)) a content = Inr v)"
proof -
  obtain r t where t: "getClient E a s = Ret r t" using getClient_Ret by blast
  have out: "pool_inv t" "\<And>c. r = Inr c \<Longrightarrow> pool_out c t" using getClient_out [OF assms t] by auto
  have same: "calls t = calls s" "dataCh t = dataCh s" using getClient_calls [OF t] by auto
  show ?thesis
  proof (cases r)
    case (Inr c)
    let ?t = "t\<lparr>calls := calls t @ [(a, content)]\<rparr>"
    obtain u where u: "putClient a c ?t = Ret () u" "calls u = calls ?t" "dataCh u = dataCh ?t"
      by (cases "length (pool_of a ?t) < PPSize") (simp_all add: putClient_def Let_def)
    have "pool_inv u" using pool_inv_putClient [of c ?t a] out(2) [OF Inr] u by simp
    then show ?thesis
      using t Inr out u same
      by (cases "rpc_process E (length (calls s)) a content")
        (auto simp: Call_def rpc_Process_def bindM_def seqM_def returnM_def)
  qed (use t out same in \<open>simp add: Call_def bindM_Ret_step returnM_def\<close>)
qed

text \<open>
  A connection is used by one caller at a time: the connection \<open>getClient\<close> hands out
  was dialled, is not closed, and is in no pool of the client, so no second caller can
  get it; and the pools keep their invariant.
\<close>

theorem getClient_exclusive:
  assumes "pool_inv s" "getClient E a s = Ret (Inr c) t"
  shows "pool_inv t \<and> c < dials t \<and> c \<notin> set (closed_clients t) \<and> (\<forall>b. c \<notin> set (pool_of b t))"
  using getClient_out [OF assms] by (simp add: pool_out_def)

definition sample_renv :: "mem rpc_env" where
  "sample_renv = \<lparr>float_json = float_json sample_env, float_text = float_text sample_env,
     float_int = float_int sample_env, float_nz = float_nz sample_env, json_err = json_err sample_env,
     time_at = time_at sample_env, rand_at = rand_at sample_env, http = http sample_env,
     exec = mem_exec, map_order = (\<lambda>ks. ks),
     dial = (\<lambda>n a. None), rpc_process = (\<lambda>n a m. if m = ''lost'' then Inl ''broken pipe'' else Inr ''success'')\<rparr>"

definition sample_rstate :: "mem rpc_state" where
  "sample_rstate = sess_state.extend (sample_state empty_mem fresh_session)
     (rpc_state.fields ''h:1'' [] [''h:2'' \<mapsto> [0]] 1 [] [])"

lemma sample_rstate_parts [simp]:
  "chan_id sample_rstate = ''h:1''" "dataCh sample_rstate = []" "clientPool sample_rstate = [''h:2'' \<mapsto> [0]]"
  "dials sample_rstate = 1" "calls sample_rstate = []" "closed_clients sample_rstate = []"
  by (simp_all add: sample_rstate_def sess_state.defs rpc_state.defs)

lemma sample_pool_inv: "pool_inv sample_rstate"
  by (auto simp: pool_inv_def pool_of_def PPSize_def)

theorem getClient_exclusive_witness:
  "\<exists>t. getClient sample_renv ''h:2'' sample_rstate = Ret (Inr 0) t \<and> pool_of ''h:2'' t = []"
proof -
  obtain t where t: "getClient sample_renv ''h:2'' sample_rstate = Ret (Inr 0) t" "pool_of ''h:2'' t = []"
    by (simp add: getClient_def pool_of_def)
  with getClient_exclusive [OF sample_pool_inv t(1)] show ?thesis by blast
qed

text \<open>
  C25: Publishing always returns and keeps the pools in order.  A message for the node's
  own channel is appended to its queue.  A message for another channel leaves the queue
  alone, and success is reported only if the message was passed to the node at that
  address and the node accepted it.
\<close>

theorem Publish_effect:
  assumes "pool_inv s"
  shows "\<exists>err t. Publish E channel message s = Ret err t \<and> pool_inv t \<and>
    (channel = chan_id s \<longrightarrow> err = None \<and> dataCh t = dataCh s @ [message]) \<and>
    (channel \<noteq> chan_id s \<longrightarrow> dataCh t = dataCh s \<and>
       (err = None \<longrightarrow> calls t = calls s @ [(channel, message)] \<and>
          (\<exists>v. rpc_process E (length (calls s)) channel message = Inr v)))"
proof (cases "channel = chan_id s")
  case True
  then show ?thesis using assms by (simp add: Publish_def GetChannel_def steps returnM_def)
next
  case False
  let ?s = "s\<lparr>rand_n := Suc (rand_n s)\<rparr>"
  obtain sn where sn: "uuid_rand_hex E s = Ret sn ?s" by (simp add: uuid_rand_hex_def)
  obtain r t where t: "Call E channel LICENCE sn message ?s = Ret r t" "pool_inv t" "dataCh t = dataCh s"
    "\<forall>v. r = Inr v \<longrightarrow> calls t = calls s @ [(channel, message)] \<and> rpc_process E (length (calls s)) channel message = Inr v"
    using Call_run [of ?s E channel LICENCE sn message] assms by auto
  then show ?thesis
    using False sn by (auto simp: Publish_def GetChannel_def steps bindM_Ret_step returnM_def split: sum.splits)
qed

theorem Publish_effect_witness:
  "\<exists>t. Publish sample_renv ''h:1'' ''hello'' sample_rstate = Ret None t \<and> dataCh t = [''hello'']"
  using Publish_effect [OF sample_pool_inv, of sample_renv "''h:1''" "''hello''"] by auto

text \<open>
  A failed call loses its connection: when the other node does not answer a call, the
  connection the call used is neither put back into the pool nor closed.
\<close>

theorem failed_call_leaks_connection:
  assumes "pool_inv s" "pool_of a s = c # q" "rpc_process E (length (calls s)) a content = Inl e"
  shows "\<exists>t. Call E a l sn content s = Ret (Inl e) t \<and> c \<notin> set (closed_clients t) \<and> (\<forall>b. c \<notin> set (pool_of b t))"
proof -
  let ?t = "s\<lparr>clientPool := (clientPool s)(a \<mapsto> q)\<rparr>"
  have "getClient E a s = Ret (Inr c) ?t" using assms(2) by (simp add: getClient_def)
  then have "Call E a l sn content s = Ret (Inl e) (?t\<lparr>calls := calls s @ [(a, content)]\<rparr>)"
    using assms(3) by (simp add: Call_def bindM_Ret_step rpc_Process_def returnM_def)
  moreover have "pool_out c ?t" by (rule pool_inv_take [OF assms(1,2)])
  ultimately show ?thesis by (auto simp: pool_out_def pool_of_def)
qed

theorem failed_call_leaks_connection_witness:
  "\<exists>t. Call sample_renv ''h:2'' LICENCE ''1'' ''lost'' sample_rstate = Ret (Inl ''broken pipe'') t \<and>
     0 \<notin> set (closed_clients t) \<and> (\<forall>b. 0 \<notin> set (pool_of b t))"
  by (rule failed_call_leaks_connection [OF sample_pool_inv]) (simp_all add: pool_of_def sample_renv_def)

end
