(* ===== verification/Node_Inv.thy ===== *)
theory Node_Inv
  imports Node Session_Close Write_Run Rpc_Pool
begin

text \<open>
  The invariant of a node.  The node's goroutines interleave: connections arrive and are
  turned into sessions, the readers hand packets to their sessions, router workers and the
  subscriber pass on messages, the cleaner removes closed sessions from the table, the
  database workers write.  Each round of such a goroutine is one step.  In every reachable
  state the session table is exact: it names sessions by their own ids, it has every
  session that is not closed, and a closed session that is still in it is on the
  cleaner's list.
\<close>

subsection \<open>Steps of a node\<close>

inductive node_step ::
  "('r, 'e) renv \<Rightarrow> ('r, 'z) node_state_scheme \<Rightarrow> ('r, 'z) node_state_scheme \<Rightarrow> bool"
  for E :: "('r, 'e) renv" where
  arrive: "accept kind s = Ret () t \<Longrightarrow> node_step E s t"
| dispatch: "accept_worker E s = Ret () t \<Longrightarrow> node_step E s t"
| packets: "on_session a (packetHandler E result) s = Ret () t \<Longrightarrow> node_step E s t"
| route: "router_worker E s = Ret () t \<Longrightarrow> node_step E s t"
| process: "Process E licence sn content s = Ret r t \<Longrightarrow> node_step E s t"
| batch: "ProcessBatch E licence sn contents s = Ret r t \<Longrightarrow> node_step E s t"
| receive: "subscriber E s = Ret () t \<Longrightarrow> node_step E s t"
| sweep: "node_clean s = Ret () t \<Longrightarrow> node_step E s t"
| flush: "wb_step E b s t \<Longrightarrow> node_step E s t"

text \<open>The identifiers the environment produces.\<close>

definition uuid_text :: "'e env_scheme \<Rightarrow> nat \<Rightarrow> string" where
  "uuid_text E n = Hex (Rand (rand_at E n))"

lemma uuid_text_nonempty [simp]: "uuid_text E n \<noteq> []"
  by (simp add: uuid_text_def Hex_def)

text \<open>What is relied on of the random source: the first \<open>n\<close> identifiers are different.\<close>

definition fresh_ids :: "'e env_scheme \<Rightarrow> nat \<Rightarrow> bool" where
  "fresh_ids E n \<longleftrightarrow> inj_on (uuid_text E) {..<n}"

lemma fresh_ids_le: "fresh_ids E n \<Longrightarrow> m \<le> n \<Longrightarrow> fresh_ids E m"
  unfolding fresh_ids_def by (rule inj_on_subset) auto

subsection \<open>What every operation of a node keeps\<close>

text \<open>
  A property of a node's state that does not depend on queues and connection pools, and
  that the sessions' own operations and the cleaner keep, is kept by every step except
  perhaps the creation of a session.
\<close>

locale keeps_node = keeps_db I for I :: "('r, 'z) node_state_scheme \<Rightarrow> bool" +
  fixes E :: "('r, 'e) renv"
  assumes items_ok: "I s \<Longrightarrow> I (s\<lparr>routerItemCh := q\<rparr>)"
    and dataCh_ok: "I s \<Longrightarrow> I (s\<lparr>dataCh := d\<rparr>)"
    and clientPool_ok: "I s \<Longrightarrow> I (s\<lparr>clientPool := p\<rparr>)"
    and dials_ok: "I s \<Longrightarrow> I (s\<lparr>dials := n\<rparr>)"
    and calls_ok: "I s \<Longrightarrow> I (s\<lparr>calls := c\<rparr>)"
    and closed_clients_ok: "I s \<Longrightarrow> I (s\<lparr>closed_clients := cs\<rparr>)"
    and acceptCh_ok: "I s \<Longrightarrow> I (s\<lparr>acceptCh := ks\<rparr>)"
    and wk_ok: "I s \<Longrightarrow> I (s\<lparr>wk := ws\<rparr>)"
    and wk4s_ok: "I s \<Longrightarrow> I (s\<lparr>wk4s := ws\<rparr>)"
    and q4s_ok: "I s \<Longrightarrow> I (s\<lparr>wbCh4s := q4\<rparr>)"
    and handler_ok: "keeps I (on_session a (packetHandler E result))"
    and kill_ok: "keeps I (on_session a (Kill E))"
    and routed_ok: "keeps I (on_session a (RoutePacket E pk))"
    and clean_ok: "keeps I node_clean"
begin

lemma keeps_Call: "keeps I (Call E ch l sn m)"
proof -
  have "keeps I (getClient E ch)" "keeps I (putClient ch c)" "keeps I (rpc_Process E ch m)" for c
    by (auto simp: keeps_def getClient_def newClient_def putClient_def rpc_Process_def Let_def
        clientPool_ok dials_ok calls_ok closed_clients_ok split: list.splits option.splits)
  then show ?thesis unfolding Call_def by (intro keeps_intros)
qed

lemma keeps_Publish: "keeps I (Publish E ch m)"
  unfolding Publish_def GetChannel_def by (intro keeps_intros keeps_modifyM keeps_now keeps_Call) (rule dataCh_ok)

lemma keeps_Process: "keeps I (Process E l sn m)"
  unfolding Process_def GetChannel_def by (intro keeps_intros keeps_Publish)

lemma keeps_ProcessBatch: "keeps I (ProcessBatch E l sn ms)"
  unfolding ProcessBatch_def GetChannel_def by (intro keeps_intros keeps_Publish)

lemma keeps_routePacket: "keeps I (routePacket E p)"
proof -
  have "keeps I (Route ch i pk g)" for ch i pk g
    by (simp add: keeps_def Route_def Let_def items_ok)
  then show ?thesis
    unfolding routePacket_def by (intro keeps_intros keeps_database keeps_StorePacket)
qed

lemma keeps_dataChannelHandler: "keeps I (dataChannelHandler E m)"
  unfolding dataChannelHandler_def by (intro keeps_intros keeps_routePacket keeps_group)

lemma keeps_subscriber: "keeps I (subscriber E)"
  using keepsD [OF keeps_dataChannelHandler] by (simp add: keeps_def subscriber_def dataCh_ok split: list.split)

lemma keeps_route_item: "keeps I (route_item E item)"
  unfolding route_item_def fetchSession_def GetChannel_def
  by (intro keeps_intros kill_ok routed_ok keeps_Publish keeps_StorePacket)

lemma keeps_router_worker: "keeps I (router_worker E)"
  using keepsD [OF keeps_route_item] by (simp add: keeps_def router_worker_def items_ok split: list.split)

lemma wb_step_kept: "wb_step E b s t \<Longrightarrow> I s \<Longrightarrow> I t"
  by (erule wb_step.cases)
    (auto simp: worker_recv_def worker_exec_def set_wqueue_def upd_worker_def executeDirect_def Let_def go_defs
      redis_ok wbCh_ok q4s_ok wk_ok wk4s_ok
      split: list.splits if_splits writeBufArgs.splits option.splits prod.splits)

text \<open>The steps; the creation of a session is left to the client.\<close>

lemma node_step_kept:
  assumes "node_step E s t" "I s" "accept_worker E s = Ret () t \<Longrightarrow> I t"
  shows "I t"
proof -
  have ret: "I t" if "keeps I m" "m s = Ret r t" for m :: "('r, 'z, 'a) node_op" and r
    using keepsD [OF that(1) assms(2)] that(2) by simp
  from assms(1) show ?thesis
  proof cases
    case (arrive kind)
    then show ?thesis using assms(2) by (auto simp: accept_def acceptCh_ok split: if_splits)
  next
    case flush
    then show ?thesis using wb_step_kept assms(2) by blast
  qed (use assms(2,3) keepsD [OF handler_ok] keepsD [OF keeps_router_worker] keepsD [OF keeps_Process] keepsD [OF keeps_ProcessBatch]
        keepsD [OF keeps_subscriber] keepsD [OF clean_ok] in \<open>metis state_of.simps(1)\<close>)+
qed

end

subsection \<open>The invariant\<close>

definition heap_ok :: "'e env_scheme \<Rightarrow> ('r, 'z) node_state_scheme \<Rightarrow> bool" where
  "heap_ok E s \<longleftrightarrow>
     (\<forall>a S. heap s a = Some S \<longrightarrow> a < next_addr s \<and> session_inv S \<and> (\<exists>n<rand_n s. Sid (st S) = uuid_text E n)) \<and>
     (\<forall>a b S T. heap s a = Some S \<longrightarrow> heap s b = Some T \<longrightarrow> Sid (st S) = Sid (st T) \<longrightarrow> a = b)"

definition table_ok :: "('r, 'z) node_state_scheme \<Rightarrow> bool" where
  "table_ok s \<longleftrightarrow>
     (\<forall>sid a. sessionMap s sid = Some a \<longrightarrow> (\<exists>S. heap s a = Some S \<and> Sid (st S) = sid)) \<and>
     (\<forall>a S. heap s a = Some S \<longrightarrow> Status (st S) \<noteq> STATUS_CLOSE \<longrightarrow> sessionMap s (Sid (st S)) = Some a)"

definition cleaner_ok :: "('r, 'z) node_state_scheme \<Rightarrow> bool" where
  "cleaner_ok s \<longleftrightarrow>
     (\<forall>a S. heap s a = Some S \<longrightarrow>
        (Status (st S) = STATUS_CLOSE \<longrightarrow> sessionMap s (Sid (st S)) = Some a \<longrightarrow> Sid (st S) \<in> set (clean s)) \<and>
        (Sid (st S) \<in> set (clean s) \<longrightarrow> Status (st S) = STATUS_CLOSE)) \<and>
     (\<forall>x\<in>set (clean s). \<exists>a S. heap s a = Some S \<and> Sid (st S) = x)"

definition node_inv :: "'e env_scheme \<Rightarrow> ('r, 'z) node_state_scheme \<Rightarrow> bool" where
  "node_inv E s \<longleftrightarrow> heap_ok E s \<and> table_ok s \<and> cleaner_ok s"

lemmas node_inv_defs = node_inv_def heap_ok_def table_ok_def cleaner_ok_def

subsection \<open>Steps that leave the sessions alone\<close>

lemma node_inv_rand: "node_inv E s \<Longrightarrow> rand_n s \<le> n \<Longrightarrow> node_inv E (s\<lparr>rand_n := n\<rparr>)"
  unfolding node_inv_defs by simp (meson less_le_trans)

interpretation node_frame: keeps_db "node_inv E :: ('r, 'z) node_state_scheme \<Rightarrow> bool" for E :: "'e env_scheme"
  by unfold_locales (simp_all add: node_inv_rand, simp_all add: node_inv_defs)

lemma node_inv_more [simp]:
  "node_inv E (s\<lparr>routerItemCh := q\<rparr>) = node_inv E s" "node_inv E (s\<lparr>dataCh := d\<rparr>) = node_inv E s"
  "node_inv E (s\<lparr>clientPool := p\<rparr>) = node_inv E s" "node_inv E (s\<lparr>dials := n\<rparr>) = node_inv E s"
  "node_inv E (s\<lparr>calls := c\<rparr>) = node_inv E s" "node_inv E (s\<lparr>closed_clients := cs\<rparr>) = node_inv E s"
  "node_inv E (s\<lparr>acceptCh := ks\<rparr>) = node_inv E s" "node_inv E (s\<lparr>me := S\<rparr>) = node_inv E s"
  "node_inv E (s\<lparr>redis := r\<rparr>) = node_inv E s" "node_inv E (s\<lparr>wbCh := w\<rparr>) = node_inv E s" "node_inv E (s\<lparr>wbCh4s := w\<rparr>) = node_inv E s"
  "node_inv E (s\<lparr>wk := ws\<rparr>) = node_inv E s" "node_inv E (s\<lparr>wk4s := ws\<rparr>) = node_inv E s"
  by (simp_all add: node_inv_defs)

subsection \<open>Operations of one session\<close>

text \<open>
  What an operation of one session, loaded from the heap, does to the rest of the node:
  the heap and the table are untouched, the session keeps its id, and either nothing was
  closed, or this session was closed and its id handed to the cleaner.
\<close>

definition one_session ::
  "(nat \<rightharpoonup> Session) \<Rightarrow> nat \<Rightarrow> (string \<rightharpoonup> nat) \<Rightarrow> nat \<Rightarrow> string list \<Rightarrow> string \<Rightarrow> bool \<Rightarrow> ('r, 'z) node_state_scheme \<Rightarrow> bool" where
  "one_session h n m k cl x was s \<longleftrightarrow>
     session_inv (me s) \<and> Sid (st (me s)) = x \<and> heap s = h \<and> next_addr s = n \<and> sessionMap s = m \<and> k \<le> rand_n s \<and>
     (was \<longrightarrow> Status (st (me s)) = STATUS_CLOSE) \<and>
     (clean s = cl \<and> (Status (st (me s)) = STATUS_CLOSE \<longrightarrow> was) \<or>
      clean s = cl @ [x] \<and> Status (st (me s)) = STATUS_CLOSE \<and> \<not> was)"

interpretation one_conn: keeps_conn "one_session h n m k cl x was :: ('r, 'z) node_state_scheme \<Rightarrow> bool"
  for h n m k cl x was
  by unfold_locales (auto simp: one_session_def session_inv_sc)

lemma one_session_closed:
  assumes "one_session h n m k cl x was s" "Status (st (me s)) \<noteq> STATUS_CLOSE"
  shows "one_session h n m k cl x was
    (s\<lparr>clean := clean s @ [Sid (st (me s))], wbCh4s := q, me := (me s)\<lparr>st := (st (me s))\<lparr>Status := STATUS_CLOSE\<rparr>\<rparr>\<rparr>)"
  using assms session_inv_close [of "me s"] by (simp add: one_session_def)

lemma one_session_close:
  "keeps (one_session h n m k cl x was :: ('r, 'z) node_state_scheme \<Rightarrow> bool) (CloseSession E)"
proof (unfold keeps_def, intro allI impI)
  fix s :: "('r, 'z) node_state_scheme"
  assume I: "one_session h n m k cl x was s"
  let ?I = "one_session h n m k cl x was :: ('r, 'z) node_state_scheme \<Rightarrow> bool"
  let ?rest = "seqM (bindM get_sc (\<lambda>c. set_sc (conn_Close c))) (pkgBuffToStore E)"
  show "?I (state_of (CloseSession E s))"
  proof (cases "Status (st (me s)) = STATUS_CLOSE")
    case True
    then show ?thesis using I by (simp add: CloseSession_again)
  next
    case False
    have "session_inv (me s)" using I by (simp add: one_session_def)
    from CloseSession_marks [OF this False, of E] obtain q where q: "CloseSession E s = ?rest
      (s\<lparr>clean := clean s @ [Sid (st (me s))], wbCh4s := q, me := (me s)\<lparr>st := (st (me s))\<lparr>Status := STATUS_CLOSE\<rparr>\<rparr>\<rparr>)"
      by blast
    have "keeps ?I ?rest"
      by (intro keeps_intros one_conn.keeps_update_sc one_conn.keeps_pkgBuffToStore) simp
    then show ?thesis unfolding q by (rule keepsD) (rule one_session_closed [OF I False])
  qed
qed

interpretation one: keeps_session "one_session h n m k cl x was :: ('r, 'z) node_state_scheme \<Rightarrow> bool" E
  for h n m k cl x was and E :: "('r, 'e) senv"
  by unfold_locales
    (rule one_session_close, auto simp: one_session_def session_inv_del session_inv_login session_inv_add)

text \<open>Replacing a session on the heap by one with the same id.\<close>

lemma heap_update_old:
  assumes "heap s a = Some S" "Sid (st M) = Sid (st S)" "heap t = (heap s)(a \<mapsto> M)" "heap t b = Some T"
  shows "\<exists>T0. heap s b = Some T0 \<and> Sid (st T) = Sid (st T0) \<and> (b \<noteq> a \<longrightarrow> T = T0) \<and> (b = a \<longrightarrow> T = M \<and> T0 = S)"
  using assms by (auto split: if_splits)

lemma heap_ok_update:
  assumes ok: "heap_ok E s" and u: "heap s a = Some S" "Sid (st M) = Sid (st S)" "heap t = (heap s)(a \<mapsto> M)"
    and M: "session_inv M" and t: "next_addr t = next_addr s" "rand_n s \<le> rand_n t"
  shows "heap_ok E t"
  unfolding heap_ok_def
proof (intro conjI allI impI)
  fix b T assume "heap t b = Some T"
  from heap_update_old [OF u this] obtain T0
    where T0: "heap s b = Some T0" "Sid (st T) = Sid (st T0)" "b \<noteq> a \<longrightarrow> T = T0" "b = a \<longrightarrow> T = M"
    by blast
  have o: "b < next_addr s" "session_inv T0" "\<exists>n<rand_n s. Sid (st T0) = uuid_text E n"
    using ok T0(1) unfolding heap_ok_def by blast+
  show "b < next_addr t" using o(1) t(1) by simp
  show "session_inv T" using o(2) M T0(3,4) by metis
  show "\<exists>n<rand_n t. Sid (st T) = uuid_text E n" using o(3) T0(2) t(2) by (metis less_le_trans)
next
  fix b d T U
  assume "heap t b = Some T" "heap t d = Some U" "Sid (st T) = Sid (st U)"
  then show "b = d" using heap_update_old [OF u] ok unfolding heap_ok_def by metis
qed

lemma table_ok_update:
  assumes ok: "table_ok s" and u: "heap s a = Some S" "Sid (st M) = Sid (st S)" "heap t = (heap s)(a \<mapsto> M)"
    and t: "sessionMap t = sessionMap s" "Status (st M) \<noteq> STATUS_CLOSE \<longrightarrow> Status (st S) \<noteq> STATUS_CLOSE"
  shows "table_ok t"
  unfolding table_ok_def t(1)
proof (intro conjI allI impI)
  fix sid b assume "sessionMap s sid = Some b"
  then show "\<exists>T. heap t b = Some T \<and> Sid (st T) = sid"
    using ok u unfolding table_ok_def by (metis fun_upd_apply option.inject)
next
  fix b T assume b: "heap t b = Some T" "Status (st T) \<noteq> STATUS_CLOSE"
  show "sessionMap s (Sid (st T)) = Some b"
    using heap_update_old [OF u b(1)] b(2) t(2) ok unfolding table_ok_def by metis
qed

lemma cleaner_ok_update:
  assumes ok: "cleaner_ok s" and hp: "heap_ok E s"
    and u: "heap s a = Some S" "Sid (st M) = Sid (st S)" "heap t = (heap s)(a \<mapsto> M)"
    and t: "sessionMap t = sessionMap s" "Status (st S) = STATUS_CLOSE \<longrightarrow> Status (st M) = STATUS_CLOSE"
    and c: "clean t = clean s \<and> (Status (st M) = STATUS_CLOSE \<longrightarrow> Status (st S) = STATUS_CLOSE)
      \<or> clean t = clean s @ [Sid (st S)] \<and> Status (st M) = STATUS_CLOSE"
  shows "cleaner_ok t"
  unfolding cleaner_ok_def t(1)
proof (intro allI ballI impI conjI)
  fix b T assume b: "heap t b = Some T" and st: "Status (st T) = STATUS_CLOSE" "sessionMap s (Sid (st T)) = Some b"
  show "Sid (st T) \<in> set (clean t)"
    using heap_update_old [OF u b] st c ok u(2) unfolding cleaner_ok_def
    by (metis Un_iff list.set_intros(1) set_append)
next
  fix b T assume b: "heap t b = Some T" and i: "Sid (st T) \<in> set (clean t)"
  from heap_update_old [OF u b] obtain T0
    where T0: "heap s b = Some T0" "Sid (st T) = Sid (st T0)" "b \<noteq> a \<longrightarrow> T = T0" "b = a \<longrightarrow> T = M \<and> T0 = S"
    by blast
  have closed: "Sid (st T0) \<in> set (clean s) \<Longrightarrow> Status (st T0) = STATUS_CLOSE"
    using ok T0(1) unfolding cleaner_ok_def by blast
  show "Status (st T) = STATUS_CLOSE"
  proof (cases "b = a")
    case True
    then show ?thesis using T0 closed c i t(2) by auto
  next
    case False
    then have "Sid (st T0) \<noteq> Sid (st S)" using hp T0(1) u(1) unfolding heap_ok_def by metis
    then show ?thesis using False T0 closed c i by auto
  qed
next
  fix x assume "x \<in> set (clean t)"
  then have "x = Sid (st S) \<or> (\<exists>b T. heap s b = Some T \<and> Sid (st T) = x)"
    using c ok unfolding cleaner_ok_def by auto blast
  then show "\<exists>b T. heap t b = Some T \<and> Sid (st T) = x"
    using u by (metis fun_upd_apply option.inject)
qed

lemma one_session_node:
  assumes inv: "node_inv E s" and a: "heap s a = Some S"
    and t: "one_session (heap s) (next_addr s) (sessionMap s) (rand_n s) (clean s) (Sid (st S)) (Status (st S) = STATUS_CLOSE) t"
  shows "node_inv E (store_me a t)"
proof -
  have hp: "heap_ok E s" and tb: "table_ok s" and cl: "cleaner_ok s" using inv by (simp_all add: node_inv_def)
  have t': "heap (store_me a t) = (heap s)(a \<mapsto> me t)" "Sid (st (me t)) = Sid (st S)" "session_inv (me t)"
    "next_addr (store_me a t) = next_addr s" "sessionMap (store_me a t) = sessionMap s" "rand_n s \<le> rand_n (store_me a t)"
    "Status (st S) = STATUS_CLOSE \<longrightarrow> Status (st (me t)) = STATUS_CLOSE"
    "clean (store_me a t) = clean s \<and> (Status (st (me t)) = STATUS_CLOSE \<longrightarrow> Status (st S) = STATUS_CLOSE)
     \<or> clean (store_me a t) = clean s @ [Sid (st S)] \<and> Status (st (me t)) = STATUS_CLOSE"
    using t by (auto simp: one_session_def store_me_def)
  show ?thesis
    unfolding node_inv_def
    using heap_ok_update [OF hp a t'(2,1,3,4,6)] table_ok_update [OF tb a t'(2,1,5)]
      cleaner_ok_update [OF cl hp a t'(2,1,5,7,8)] t'(7) by blast
qed

lemma on_session_keeps:
  fixes op :: "('r, 'z, 'a) node_op"
  assumes "\<And>h n m k cl x was. keeps (one_session h n m k cl x was) op"
  shows "keeps (node_inv E) (on_session a op)"
proof (unfold keeps_def, intro allI impI)
  fix s :: "('r, 'z) node_state_scheme" assume inv: "node_inv E s"
  show "node_inv E (state_of (on_session a op s))"
  proof (cases "heap s a")
    case (Some S)
    let ?I = "one_session (heap s) (next_addr s) (sessionMap s) (rand_n s) (clean s) (Sid (st S)) (Status (st S) = STATUS_CLOSE)"
    have "?I (s\<lparr>me := S\<rparr>)" using inv Some by (auto simp: one_session_def node_inv_defs)
    then have "?I (state_of (op (s\<lparr>me := S\<rparr>)))" by (rule keepsD [OF assms])
    from one_session_node [OF inv Some this] show ?thesis
      using Some by (cases "op (s\<lparr>me := S\<rparr>)") (simp_all add: on_session_def)
  qed (use inv in \<open>simp add: on_session_def\<close>)
qed

subsection \<open>The cleaner\<close>

lemma keeps_node_clean: "keeps (node_inv E) node_clean"
proof (unfold keeps_def, intro allI impI)
  fix s :: "('r, 'z) node_state_scheme" assume inv: "node_inv E s"
  show "node_inv E (state_of (node_clean s))"
  proof (cases "clean s")
    case (Cons sid rest)
    have gone: "Status (st S) = STATUS_CLOSE" if "heap s a = Some S" "Sid (st S) = sid" for a S
      using inv that Cons unfolding node_inv_defs by (metis list.set_intros(1))
    have "heap_ok E (s\<lparr>clean := rest, sessionMap := (sessionMap s)(sid := None)\<rparr>)"
      using inv by (simp add: node_inv_def heap_ok_def)
    moreover have "table_ok (s\<lparr>clean := rest, sessionMap := (sessionMap s)(sid := None)\<rparr>)"
      using inv gone by (auto simp: node_inv_def table_ok_def)
    moreover have "cleaner_ok (s\<lparr>clean := rest, sessionMap := (sessionMap s)(sid := None)\<rparr>)"
      using inv Cons unfolding node_inv_def cleaner_ok_def by simp (metis set_ConsD)
    ultimately show ?thesis using Cons by (simp add: node_clean_def node_inv_def)
  qed (use inv in \<open>simp add: node_clean_def\<close>)
qed

interpretation node_ops: keeps_node "node_inv F :: ('r, 'z) node_state_scheme \<Rightarrow> bool" E
  for F :: "'f env_scheme" and E :: "('r, 'e) renv"
  by unfold_locales
    (auto intro: on_session_keeps keeps_node_clean one.keeps_packetHandler one.keeps_Kill one.keeps_RoutePacket)

subsection \<open>Creating a session\<close>

text \<open>The count of drawn identifiers never goes down.\<close>

interpretation drawn_close: keeps_close "\<lambda>s :: ('r, 'z) sess_state_scheme. k \<le> rand_n s" for k
  by unfold_locales simp_all

interpretation drawn: keeps_session "\<lambda>s :: ('r, 'z) sess_state_scheme. k \<le> rand_n s" E for k and E :: "('r, 'e) senv"
  by unfold_locales simp_all

lemma keeps_on_session:
  assumes "keeps I op" "\<And>s S. I s \<Longrightarrow> I (s\<lparr>me := S\<rparr>)" "\<And>s h. I s \<Longrightarrow> I (s\<lparr>heap := h\<rparr>)"
  shows "keeps I (on_session a op)"
proof (unfold keeps_def, intro allI impI)
  fix s assume "I s"
  then have "I (state_of (op (s\<lparr>me := S\<rparr>)))" for S by (intro keepsD [OF assms(1)] assms(2))
  then show "I (state_of (on_session a op s))"
    using \<open>I s\<close> assms(3) by (auto simp: on_session_def store_me_def split: option.split outcome.splits) (metis state_of.simps)+
qed

interpretation drawn_node: keeps_node "\<lambda>s :: ('r, 'z) node_state_scheme. k \<le> rand_n s" E
  for k and E :: "('r, 'e) renv"
  by unfold_locales
    (auto intro: keeps_on_session drawn.keeps_packetHandler drawn_close.closing.keeps_Kill drawn.keeps_RoutePacket,
     simp add: keeps_def node_clean_def split: list.split)

lemma attach_conn_run:
  "\<exists>c n. attach_conn E kind s = Ret () (s\<lparr>clock_n := n, me := (me s)\<lparr>sc := Some c\<rparr>\<rparr>)"
  by (cases "Status (st (me s)) = STATUS_CONN")
    (auto simp: attach_conn_def setSessionTimeout_def TimeoutTime_def now_def session_access_defs go_defs)

lemma registerSession_run:
  "heap s a = Some S \<Longrightarrow> Sid (st S) \<noteq> [] \<Longrightarrow>
   registerSession a s = Ret () (s\<lparr>sessionMap := (sessionMap s)(Sid (st S) \<mapsto> a)\<rparr>)"
  by (simp add: registerSession_def steps whenM_def modifyM_def)

lemma newSession_run:
  assumes "newSession E c s = Ret S t"
  shows "t = s\<lparr>rand_n := Suc (rand_n s)\<rparr>" "Sid (st S) = uuid_text E (rand_n s)" "Status (st S) = STATUS_CONN"
    "Channel (st S) = c" "pkgBuff S = []"
  using assms by (auto simp: newSession_def uuid_rand_hex_def uuid_text_def GetString_def runs)

lemma dispatcher_run:
  assumes id: "newSession E (chan_id s) s = Ret S u"
  shows "\<exists>S n. dispatcher E kind s = Ret () (s\<lparr>clock_n := n, rand_n := Suc (rand_n s), me := S, heap := (heap s)(next_addr s \<mapsto> S),
      next_addr := Suc (next_addr s), sessionMap := (sessionMap s)(Sid (st S) \<mapsto> next_addr s)\<rparr>) \<and>
    Sid (st S) = uuid_text E (rand_n s) \<and> Status (st S) = STATUS_CONN \<and> Channel (st S) = chan_id s \<and> session_inv S"
proof -
  let ?s1 = "s\<lparr>rand_n := Suc (rand_n s)\<rparr>" and ?a = "next_addr s"
  note new = newSession_run [OF id]
  let ?s2 = "?s1\<lparr>heap := (heap s)(?a \<mapsto> S), next_addr := Suc ?a\<rparr>"
  obtain c n where at: "attach_conn E kind (?s2\<lparr>me := S\<rparr>) = Ret () (?s2\<lparr>clock_n := n, me := S\<lparr>sc := Some c\<rparr>\<rparr>)"
    using attach_conn_run [of E kind "?s2\<lparr>me := S\<rparr>"] by auto
  let ?S = "S\<lparr>sc := Some c\<rparr>"
  let ?s3 = "?s1\<lparr>heap := (heap s)(?a \<mapsto> ?S), next_addr := Suc ?a, clock_n := n, me := ?S\<rparr>"
  have on: "on_session ?a (attach_conn E kind) ?s2 = Ret () ?s3"
    unfolding on_session_def using at by (simp add: store_me_def)
  have reg: "registerSession ?a ?s3 = Ret () (?s3\<lparr>sessionMap := (sessionMap s)(Sid (st S) \<mapsto> ?a)\<rparr>)"
    using registerSession_run [of ?s3 ?a ?S] new(2) by simp
  have "dispatcher E kind s = Ret () (?s3\<lparr>sessionMap := (sessionMap s)(Sid (st S) \<mapsto> ?a)\<rparr>)"
    unfolding dispatcher_def GetChannel_def bindM_getsM
    by (rule bindM_RetI, rule id [unfolded new(1)], subst seqM_modifyM, rule seqM_RetI)
      (use on reg in simp_all)
  moreover have "session_inv ?S" using new(3,5) by (simp add: session_inv_def status_distinct)
  ultimately show ?thesis using new(2-4) by (intro exI [of _ ?S] exI [of _ n]) simp
qed

lemma accept_worker_run:
  assumes "accept_worker E s = Ret () t" "t \<noteq> s"
  shows "\<exists>ks S n. t = s\<lparr>acceptCh := ks, clock_n := n, rand_n := Suc (rand_n s), me := S, heap := (heap s)(next_addr s \<mapsto> S),
      next_addr := Suc (next_addr s), sessionMap := (sessionMap s)(Sid (st S) \<mapsto> next_addr s)\<rparr> \<and>
    Sid (st S) = uuid_text E (rand_n s) \<and> Status (st S) = STATUS_CONN \<and> Channel (st S) = chan_id s \<and> session_inv S"
proof -
  obtain kind ks where d: "dispatcher E kind (s\<lparr>acceptCh := ks\<rparr>) = Ret () t"
    using assms by (auto simp: accept_worker_def split: list.splits)
  then obtain S u where "newSession E (chan_id s) (s\<lparr>acceptCh := ks\<rparr>) = Ret S u"
    by (auto simp: dispatcher_def GetChannel_def runs)
  then have "newSession E (chan_id (s\<lparr>acceptCh := ks\<rparr>)) (s\<lparr>acceptCh := ks\<rparr>) = Ret S u" by simp
  from dispatcher_run [OF this, of kind] d show ?thesis by auto
qed

lemma dispatch_node_inv:
  assumes inv: "node_inv E s" and f: "fresh_ids E (Suc (rand_n s))"
    and t: "t = s\<lparr>clock_n := n, rand_n := Suc (rand_n s), me := S, heap := (heap s)(next_addr s \<mapsto> S),
      next_addr := Suc (next_addr s), sessionMap := (sessionMap s)(Sid (st S) \<mapsto> next_addr s)\<rparr>"
    and S: "Sid (st S) = uuid_text E (rand_n s)" "Status (st S) = STATUS_CONN" "session_inv S"
  shows "node_inv E t"
proof -
  have free: "heap s (next_addr s) = None" using inv unfolding node_inv_defs by (metis less_irrefl not_None_eq)
  have new: "Sid (st T) \<noteq> Sid (st S)" if T: "heap s b = Some T" for b T
  proof
    assume same: "Sid (st T) = Sid (st S)"
    obtain m where "m < rand_n s" "Sid (st T) = uuid_text E m" using inv T unfolding node_inv_defs by blast
    then have "m = rand_n s"
      using f S(1) same unfolding fresh_ids_def by (intro inj_onD [of "uuid_text E" "{..<Suc (rand_n s)}"]) auto
    then show False using \<open>m < rand_n s\<close> by simp
  qed
  have "heap_ok E t"
    using inv new S by (auto simp: t node_inv_def heap_ok_def) (metis less_SucI)+
  moreover have "table_ok t"
    using inv new free unfolding t node_inv_def table_ok_def by simp (metis option.distinct(1))
  moreover have "cleaner_ok t"
    using inv new free S(2) unfolding t node_inv_def cleaner_ok_def by (simp add: status_distinct) (metis option.distinct(1))
  ultimately show ?thesis by (simp add: node_inv_def)
qed

subsection \<open>Every reachable state\<close>

lemma drawn_mono: "node_step E s t \<Longrightarrow> rand_n s \<le> rand_n t"
proof (erule drawn_node.node_step_kept, simp)
  assume "accept_worker E s = Ret () t"
  from accept_worker_run [OF this] show "rand_n s \<le> rand_n t" by (cases "t = s") auto
qed

lemma node_step_inv:
  assumes "node_step E s t" "node_inv E s" "fresh_ids E (rand_n t)"
  shows "node_inv E t"
  using assms(1,2)
proof (rule node_ops.node_step_kept)
  assume "accept_worker E s = Ret () t"
  from accept_worker_run [OF this] show "node_inv E t"
    using dispatch_node_inv [of E "s\<lparr>acceptCh := ks\<rparr>" t for ks] assms(2,3) by (cases "t = s") auto
qed

lemma node_run_inv:
  assumes "(node_step E)\<^sup>*\<^sup>* s t" "node_inv E s" "fresh_ids E (rand_n t)"
  shows "node_inv E t"
  using assms
proof (induction rule: rtranclp_induct)
  case (step u v)
  then show ?case using fresh_ids_le drawn_mono node_step_inv by blast
qed

text \<open>A node that has not accepted a connection yet.\<close>

definition no_sessions :: "('r, 'z) node_state_scheme \<Rightarrow> bool" where
  "no_sessions s \<longleftrightarrow> heap s = Map.empty \<and> sessionMap s = Map.empty \<and> clean s = []"


definition sample_node :: "mem node_state" where
  "sample_node = rpc_state.extend sample_rstate
     (node_state.fields ''n1'' Map.empty 0 Map.empty [] False [])"

lemma sample_node_parts [simp]:
  "no_sessions sample_node" "rand_n sample_node = 0" "acceptClosed sample_node = False" "acceptCh sample_node = []"
  "next_addr sample_node = 0" "chan_id sample_node = ''h:1''" "sessionMap sample_node = Map.empty" "heap sample_node = Map.empty"
  "conf sample_node ''nodeid'' = Some (newConfVoKeyVal ''nodeid'' (CString ''n1''))"
  by (simp_all add: sample_node_def no_sessions_def sample_rstate_def sample_state_def rpc_state.defs sess_state.defs node_state.defs)


end
