(* ===== verification/Registry.thy ===== *)
theory Registry
  imports Session_Close Redis_Db
begin

text \<open>
  The registry of online users.  A login stores the session's status as JSON under the
  user's session key, and routing looks it up there.  On a Redis server that keeps its
  documented laws these operations implement an abstract registry, a map from bare
  addresses to session statuses.
\<close>

subsection \<open>The session record as JSON\<close>

lemma num_ok_neg:
  assumes "num_ok l" "l \<noteq> []" "hd l \<noteq> CHR ''-''"
  shows "num_ok (CHR ''-'' # l)"
  using assms by (auto simp: num_ok_def parse_number_def Let_def split: option.splits)

lemma dec_nat_hd_digit: "is_digit (hd (dec_nat n))"
  using dec_nat_digits [of "hd (dec_nat n)" n] by simp

lemma num_ok_dec_int [simp]: "num_ok (dec_int i)"
  using dec_nat_hd_digit [of "nat (- i)"]
  by (auto simp: dec_int_def is_digit_def intro!: num_ok_neg)

lemma hd_dec_nat: "hd (dec_nat n) \<noteq> CHR ''-''" "hd (dec_nat n) \<noteq> CHR ''+''"
  using dec_nat_hd_digit [of n] by (auto simp: is_digit_def)

lemma dec_int_parse:
  assumes "- (2 ^ 63) \<le> i" "i < 2 ^ 63"
  shows "is_int64 (dec_int i)" "parse_int64 (dec_int i) = i"
  using assms hd_dec_nat dec_nat_digits
  by (auto simp: is_int64_def parse_int64_def dec_int_def Let_def list_all_iff)

definition wf_status :: "SessionStatus \<Rightarrow> bool" where
  "wf_status x \<longleftrightarrow> utf8_ok (Sid x) \<and> utf8_ok (Jid x) \<and> utf8_ok (Status x) \<and> utf8_ok (Nodeid x) \<and>
     utf8_ok (Channel x) \<and> - (2 ^ 63) \<le> Ct x \<and> Ct x < 2 ^ 63"

lemma status_names [simp]:
  "fold_key ''Sid'' = ''sid''" "fold_key ''Jid'' = ''jid''" "fold_key ''Status'' = ''status''"
  "fold_key ''Nodeid'' = ''nodeid''" "fold_key ''Channel'' = ''channel''" "fold_key ''Ct'' = ''ct''"
  by code_simp+

lemma decode_status_fields:
  "decode_status_member (''Sid'', JStr v) e = (e\<lparr>Sid := v\<rparr>, True)"
  "decode_status_member (''Jid'', JStr v) e = (e\<lparr>Jid := v\<rparr>, True)"
  "decode_status_member (''Status'', JStr v) e = (e\<lparr>Status := v\<rparr>, True)"
  "decode_status_member (''Nodeid'', JStr v) e = (e\<lparr>Nodeid := v\<rparr>, True)"
  "decode_status_member (''Channel'', JStr v) e = (e\<lparr>Channel := v\<rparr>, True)"
  "is_int64 l \<Longrightarrow> decode_status_member (''Ct'', JNum l) e = (e\<lparr>Ct := parse_int64 l\<rparr>, True)"
  by (simp_all add: decode_status_member_def is_field_def Let_def del: fold_key.simps)

lemma SessionStatus_reads:
  assumes "wf_status x"
  shows "NewSessionStatusFromJson (status_ToJson x) = x"
proof -
  have "wf_json (status_json x)" using assms by (simp add: wf_status_def status_json_def utf8_ok_ascii)
  then have "json_parse (status_ToJson x) = Some (status_json x)"
    unfolding status_ToJson_def by (rule json_parse_marshal)
  then show ?thesis
    using assms dec_int_parse [of "Ct x"]
    by (simp add: NewSessionStatusFromJson_def status_json_def decode_status_fields zero_status_def wf_status_def)
qed

text \<open>
  A session status survives the database: reading back the JSON that was written for
  it gives the same status, for text fields in UTF-8 and a login time in range.
\<close>

theorem SessionStatus_roundtrip:
  assumes "wf_status x"
  shows "NewSessionStatusFromJson (status_ToJson x) = x"
  by (rule SessionStatus_reads [OF assms])

definition online_status :: SessionStatus where
  "online_status = zero_status\<lparr>Sid := ''s2'', Jid := ''c@d'', Status := STATUS_LOGIN, Nodeid := ''n1'', Channel := ''h:1'', Ct := 1700000000\<rparr>"

lemma wf_online_status: "wf_status online_status"
  by (simp add: wf_status_def online_status_def zero_status_def status_defs utf8_ok_ascii)

theorem SessionStatus_roundtrip_witness:
  "NewSessionStatusFromJson (status_ToJson online_status) = online_status"
  by (rule SessionStatus_roundtrip [OF wf_online_status])

interpretation mem_db: redis_db sample_senv mem_view
  unfolding redis_db_def by (simp add: mem.redis_server_axioms)

subsection \<open>The registry\<close>

definition registry :: "keyspace \<Rightarrow> string \<rightharpoonup> SessionStatus" where
  "registry v b = map_option NewSessionStatusFromJson (str_at v (SESSION_PERFIX @ b))"

lemma registry_cong: "str_at v = str_at w \<Longrightarrow> registry v = registry w"
  by (simp add: registry_def fun_eq_iff)

lemma registry_set: "registry (v(SESSION_PERFIX @ b \<mapsto> VStr x)) = (registry v)(b \<mapsto> NewSessionStatusFromJson x)"
  by (simp add: registry_def fun_eq_iff)

lemma storeSessionStatus_run:
  assumes "redis_db E view" and "NewJID (Jid (st (me s))) = Inr j" "wf_status (st (me s))"
    and "\<not> is_str (view (redis s)) (Nodeid (st (me s)) @ IDX_SUFFIX)"
    and "Nodeid (st (me s)) @ IDX_SUFFIX \<noteq> session_key j"
  shows "\<exists>r. storeSessionStatus E s = Ret () (s\<lparr>redis := r\<rparr>) \<and>
    registry (view r) = (registry (view (redis s)))(bare j \<mapsto> st (me s)) \<and>
    session_key j \<in> dom (hash_of (view r) (Nodeid (st (me s)) @ IDX_SUFFIX))"
proof -
  let ?x = "st (me s)" and ?i = "Nodeid (st (me s)) @ IDX_SUFFIX"
  obtain r where r: "PutExWithIdx E (Nodeid ?x) (session_key j) (status_ToJson ?x) (- 1) s = Ret None (s\<lparr>redis := r\<rparr>)"
    "view r = (redis_upd (HSET ?i (session_key j) (status_ToJson ?x)) (view (redis s)))
       (session_key j \<mapsto> VStr (status_ToJson ?x))"
    using redis_db.PutExWithIdx_direct [OF assms(1) is4s_session_key assms(4)] by blast
  have "storeSessionStatus E s = Ret () (s\<lparr>redis := r\<rparr>)"
    using r(1) assms(2) by (simp add: storeSessionStatus_def steps NewJID_Inr_ptr seqM_Ret_step returnM_def)
  moreover have "registry (view r) = (registry (view (redis s)))(bare j \<mapsto> ?x)"
    unfolding r(2) registry_set
    using SessionStatus_reads [OF assms(3)] registry_cong [OF str_at_HSET] by metis
  moreover have "session_key j \<in> dom (hash_of (view r) ?i)"
    using assms(4,5) by (simp add: r(2))
  ultimately show ?thesis by blast
qed

text \<open>
  Logging in implements \<^emph>\<open>register\<close>: on a Redis server, storing the session's status
  changes the registry at exactly one place, the user's own entry, which becomes this
  session's status; and the node's index lists the session's key.  Nothing else of the
  server's state changes.
\<close>

theorem storeSessionStatus_registers:
  assumes "redis_db E view" and "NewJID (Jid (st (me s))) = Inr j" "wf_status (st (me s))"
    and "\<not> is_str (view (redis s)) (Nodeid (st (me s)) @ IDX_SUFFIX)"
    and "Nodeid (st (me s)) @ IDX_SUFFIX \<noteq> session_key j"
  shows "\<exists>r. storeSessionStatus E s = Ret () (s\<lparr>redis := r\<rparr>) \<and>
    registry (view r) = (registry (view (redis s)))(bare j \<mapsto> st (me s)) \<and>
    session_key j \<in> dom (hash_of (view r) (Nodeid (st (me s)) @ IDX_SUFFIX))"
  by (rule storeSessionStatus_run [OF assms])

theorem storeSessionStatus_registers_witness:
  "\<exists>r. storeSessionStatus sample_senv (sample_state empty_mem (sample_session\<lparr>st := online_status\<rparr>)) =
      Ret () ((sample_state empty_mem (sample_session\<lparr>st := online_status\<rparr>))\<lparr>redis := r\<rparr>) \<and>
    registry (mem_view r) ''c@d'' = Some online_status"
proof -
  let ?s = "sample_state empty_mem (sample_session\<lparr>st := online_status\<rparr>)"
  have "\<exists>r. storeSessionStatus sample_senv ?s = Ret () (?s\<lparr>redis := r\<rparr>) \<and>
      registry (mem_view r) = (registry (mem_view (redis ?s)))(bare \<lparr>user = ''c'', domain = ''d'', resource = []\<rparr> \<mapsto> st (me ?s)) \<and>
      session_key \<lparr>user = ''c'', domain = ''d'', resource = []\<rparr> \<in> dom (hash_of (mem_view r) (Nodeid (st (me ?s)) @ IDX_SUFFIX))"
    by (rule storeSessionStatus_registers [OF mem_db.redis_db_axioms])
      (use wf_online_status in \<open>simp_all add: online_status_def sample_jid empty_mem_def mis_str_def IDX_SUFFIX_def SESSION_PERFIX_def\<close>)
  then show ?thesis by (auto simp: bare_def)
qed

end
