(* ===== verification/Session_Login.thy ===== *)
theory Session_Login
  imports Registry
begin

text \<open>
  Logging in: a session is logged in only after the callback service has accepted the
  user, a refused login closes the session, a successful one registers it, and what a
  login does to the router.
\<close>

subsection \<open>Refused logins\<close>

interpretation same_status: keeps_conn "\<lambda>s :: ('r, 'z) sess_state_scheme. st (me s) = x" for x
  by unfold_locales simp_all

lemma CloseSession_closes:
  assumes "CloseSession E s = Ret () t"
  shows "Status (st (me t)) = STATUS_CLOSE"
proof (cases "Status (st (me s)) = STATUS_CLOSE")
  case False
  obtain u v where uv: "bindM get_sc (\<lambda>c. set_sc (conn_Close c))
      (u\<lparr>me := (me u)\<lparr>st := (st (me u))\<lparr>Status := STATUS_CLOSE\<rparr>\<rparr>\<rparr>) = Ret () v" "pkgBuffToStore E v = Ret () t"
    using assms False by (auto simp: CloseSession_def close_rest_def steps runs)
  let ?x = "(st (me u))\<lparr>Status := STATUS_CLOSE\<rparr>"
  have "keeps (\<lambda>s :: ('r, 'z) sess_state_scheme. st (me s) = ?x) (bindM get_sc (\<lambda>c. set_sc (conn_Close c)))"
    by (rule same_status.keeps_update_sc) simp
  from keepsD [OF this, of "u\<lparr>me := (me u)\<lparr>st := ?x\<rparr>\<rparr>"] uv(1) have "st (me v) = ?x" by simp
  with keepsD [OF same_status.keeps_pkgBuffToStore [of ?x E], of v] uv(2) show ?thesis by simp
qed (use assms CloseSession_again [of s E] in simp)

lemma verify_None: "verify E p s = Ret None t \<Longrightarrow> Status (st (me t)) = STATUS_CLOSE"
  by (auto simp: verify_def runs Let_def dest: CloseSession_closes split: sum.splits if_splits)

lemma logged_in_same_status: "keeps (\<lambda>s :: ('r, 'z) sess_state_scheme. st (me s) = x) (logged_in E e)"
  unfolding logged_in_def ofl_put_def
  by (intro keeps_intros keeps_modifyM same_status.keeps_fetchOfflinePacket same_status.keeps_storeSessionStatus
      same_status.keeps_answer) simp


subsection \<open>The router's queue during a login\<close>

interpretation same_queue: keeps_close "\<lambda>s :: ('r, 'z) sess_state_scheme. routerItemCh s = q" for q
  by unfold_locales simp_all

definition kill_item :: "SessionStatus \<Rightarrow> routerItem" where
  "kill_item x = \<lparr>rChannel = Channel x, rSid = Sid x, rPacket = None, rSignal = KILL\<rparr>"

lemma kick_previous_run:
  assumes "redis_db E view" "length (routerItemCh s) < ROUTER_QUEUE_SIZE"
  shows "\<exists>r. kick_previous E j s = Ret () (s\<lparr>redis := r, routerItemCh := routerItemCh s @
      (case registry (view (redis s)) (bare j) of None \<Rightarrow> [] | Some x \<Rightarrow> [kill_item x])\<rparr>) \<and> view r = view (redis s)"
proof (cases "str_at (view (redis s)) (session_key j)")
  case None
  then obtain e r where "db_Get E (session_key j) s = Ret (Inl e) (s\<lparr>redis := r\<rparr>)" "view r = view (redis s)"
    using redis_db.db_Get_missing [OF assms(1)] by blast
  then show ?thesis using None by (auto simp: kick_previous_def steps bindM_Ret_step registry_def returnM_def)
next
  case (Some x)
  then obtain r where "db_Get E (session_key j) s = Ret (Inr x) (s\<lparr>redis := r\<rparr>)" "view r = view (redis s)"
    using redis_db.db_Get_found [OF assms(1)] by blast
  then show ?thesis
    using Some assms(2)
    by (auto simp: kick_previous_def steps bindM_Ret_step registry_def Let_def seqM_Ret_step Route_def kill_item_def returnM_def)
qed

lemma same_queue_logged_in: "keeps (\<lambda>s :: ('r, 'z) sess_state_scheme. routerItemCh s = q)
    (case v of None \<Rightarrow> returnM () | Some packet \<Rightarrow>
       bindM (Timestamp10 E) (\<lambda>ct.
       seqM (upd_st (\<lambda>x. x\<lparr>Jid := eJid (pEnvelope packet), Status := STATUS_LOGIN, Ct := ct\<rparr>))
         (logged_in E (pEnvelope packet))))"
  unfolding logged_in_def ofl_put_def upd_st_def
  by (intro keeps_intros keeps_modifyM same_queue.keeps_fetchOfflinePacket same_queue.keeps_storeSessionStatus
      same_queue.keeps_answer same_queue.keeps_clock) simp_all

lemmas same_queue_ops = same_queue.keeps_answer same_queue.keeps_CloseSession same_queue.keeps_external
  same_queue.keeps_now same_queue_logged_in

lemma bindM_queue:
  assumes "routerItemCh (state_of (m s)) = q" "\<And>a. keeps (\<lambda>s :: ('r, 'z) sess_state_scheme. routerItemCh s = q) (f a)"
  shows "routerItemCh (state_of (bindM m f s)) = q"
  using assms keepsD [OF assms(2)] by (cases "m s") (simp_all add: bindM_Ret_step bindM_Panic_step)

lemma queue_kept:
  "keeps (\<lambda>s :: ('r, 'z) sess_state_scheme. routerItemCh s = q) m \<Longrightarrow> routerItemCh s = q \<Longrightarrow> routerItemCh (state_of (m s)) = q"
  by (simp add: keeps_def)

lemma same_queue_refused:
  assumes "case NewPacket p of Inl _ \<Rightarrow> True
    | Inr packet \<Rightarrow> eType (pEnvelope packet) \<noteq> MSG_TYPE_OPEN_SESSION \<or> (\<exists>e. NewJID (eJid (pEnvelope packet)) = Inl e)"
  shows "keeps (\<lambda>s :: ('r, 'z) sess_state_scheme. routerItemCh s = q) (openSession E p)"
  unfolding openSession_def
proof (rule keeps_bindM [OF _ same_queue_logged_in])
  show "keeps (\<lambda>s :: ('r, 'z) sess_state_scheme. routerItemCh s = q) (verify E p)"
    using assms
    by (auto simp: verify_def Let_def split: sum.splits intro!: keeps_intros same_queue_ops)
qed

lemma login_queue:
  assumes "redis_db E view" "length (routerItemCh s) < ROUTER_QUEUE_SIZE"
  shows "routerItemCh (state_of (openSession E p s)) = routerItemCh s @
    (case NewPacket p of
       Inl _ \<Rightarrow> []
     | Inr packet \<Rightarrow>
         if eType (pEnvelope packet) \<noteq> MSG_TYPE_OPEN_SESSION then []
         else (case NewJID (eJid (pEnvelope packet)) of
             Inl _ \<Rightarrow> []
           | Inr j \<Rightarrow> (case registry (view (redis s)) (bare j) of None \<Rightarrow> [] | Some x \<Rightarrow> [kill_item x])))"
proof -
  let ?refused = "case NewPacket p of Inl _ \<Rightarrow> True
    | Inr packet \<Rightarrow> eType (pEnvelope packet) \<noteq> MSG_TYPE_OPEN_SESSION \<or> (\<exists>e. NewJID (eJid (pEnvelope packet)) = Inl e)"
  show ?thesis
  proof (cases ?refused)
    case True
    then show ?thesis
      using keepsD [OF same_queue_refused [OF True, of "routerItemCh s" E], of s]
      by (auto split: sum.splits)
  next
    case False
    then obtain packet j where p: "NewPacket p = Inr packet" "eType (pEnvelope packet) = MSG_TYPE_OPEN_SESSION"
      "NewJID (eJid (pEnvelope packet)) = Inr j"
      by (auto split: sum.splits) (metis sum.exhaust)
    obtain r where r: "kick_previous E j s = Ret () (s\<lparr>redis := r, routerItemCh := routerItemCh s @
        (case registry (view (redis s)) (bare j) of None \<Rightarrow> [] | Some x \<Rightarrow> [kill_item x])\<rparr>)"
      using kick_previous_run [OF assms] by blast
    show ?thesis
      unfolding openSession_def
      by (rule bindM_queue [OF _ same_queue_logged_in])
        (use p r in \<open>auto simp: verify_def Let_def seqM_Ret_step intro!: queue_kept keeps_intros same_queue_ops\<close>)
  qed
qed

text \<open>
  C31: What a login does to the router, whatever the callback service answers: if the
  packet is a login packet with a well-formed address and the user is registered, exactly
  one item is queued, the request to stop the registered session, \<^emph>\<open>before\<close> and
  independently of the authentication; in every other case nothing is queued.  In
  particular no packet is routed for a session that is not logged in, and a login with a
  wrong password still ends the session of the user it names.
\<close>

theorem login_router_traffic:
  assumes "redis_db E view" "length (routerItemCh s) < ROUTER_QUEUE_SIZE"
  shows "routerItemCh (state_of (openSession E p s)) = routerItemCh s @
    (case NewPacket p of
       Inl _ \<Rightarrow> []
     | Inr packet \<Rightarrow>
         if eType (pEnvelope packet) \<noteq> MSG_TYPE_OPEN_SESSION then []
         else (case NewJID (eJid (pEnvelope packet)) of
             Inl _ \<Rightarrow> []
           | Inr j \<Rightarrow> (case registry (view (redis s)) (bare j) of None \<Rightarrow> [] | Some x \<Rightarrow> [kill_item x])))"
  using assms by (rule login_queue)

subsection \<open>A successful login\<close>

lemma Timestamp10_run: "Timestamp10 E s = Ret (time_at E (clock_n s) div 1000000000) (s\<lparr>clock_n := Suc (clock_n s)\<rparr>)"
  by (simp add: Timestamp10_def now_def go_defs)

lemma answer_run:
  "sc (me s) = Some c \<Longrightarrow>
   \<exists>w. answer p s = Ret () (s\<lparr>m_write := w, me := (me s)\<lparr>sc := Some (after_send (ToJson p) c)\<rparr>\<rparr>)"
  using SendMessage_run [of s c "ToJson p"] by (auto simp: answer_def seqM_Ret_step returnM_def)

lemma fetchOfflinePacket_run:
  assumes "redis_db E view" "NewJID (Jid (st (me s))) = Inr j"
  shows "\<exists>a r. fetchOfflinePacket E s = Ret a (s\<lparr>redis := r\<rparr>) \<and> view r = view (redis s)"
proof -
  obtain a r where "GetByIdx E (offline_key j) s = Ret a (s\<lparr>redis := r\<rparr>)" "view r = view (redis s)"
    using redis_db.GetByIdx_run [OF assms(1)] by blast
  then show ?thesis using assms(2) by (auto simp: fetchOfflinePacket_def steps NewJID_Inr_ptr bindM_Ret_step returnM_def)
qed

text \<open>The answer to a login, which brings the messages of the mailbox along.\<close>

definition login_answer :: "string \<Rightarrow> string + (BasePacket list \<times> string list) \<Rightarrow> Packet" where
  "login_answer i a =
     (let p0 = AddDelay [] (NewPacketAuthSuccess i) in case a of Inr (ofl_pks, _) \<Rightarrow> AddDelay ofl_pks p0 | Inl _ \<Rightarrow> p0)"

lemma login_answer_parts [simp]:
  "eId (pEnvelope (login_answer i a)) = i" "pEntity (login_answer i a) = Some \<lparr>nResult = ''ok'', nReason = []\<rparr>"
  by (auto simp: login_answer_def AddDelay_def NewPacketAuthSuccess_def newPacketWithEntity_def zero_Packet_def Let_def split: sum.splits)

lemma logged_in_run:
  assumes db: "redis_db E view" and s: "NewJID (Jid (st (me s))) = Inr j" "wf_status (st (me s))" "sc (me s) = Some c"
    and i: "\<not> is_str (view (redis s)) (Nodeid (st (me s)) @ IDX_SUFFIX)" "Nodeid (st (me s)) @ IDX_SUFFIX \<noteq> session_key j"
    and r: "fetchOfflinePacket E s = Ret a (s\<lparr>redis := r\<rparr>)" "view r = view (redis s)"
  shows "\<exists>t. logged_in E e s = Ret () t \<and> st (me t) = st (me s) \<and>
    registry (view (redis t)) = (registry (view (redis s)))(bare j \<mapsto> st (me s)) \<and>
    sc (me t) = Some (after_send (ToJson (login_answer (eId e) a)) c)"
proof -
  let ?p0 = "AddDelay [] (NewPacketAuthSuccess (eId e))" and ?p1 = "login_answer (eId e) a"
  define m where "m = (case a of Inr (ofl_pks, ofl_ids) \<Rightarrow> if length ofl_ids > 0 then (ofl_cache s)(eId e \<mapsto> ofl_ids) else ofl_cache s
      | Inl _ \<Rightarrow> ofl_cache s)"
  let ?u = "s\<lparr>redis := r, ofl_cache := m\<rparr>"
  have step: "(case a of
          Inr (ofl_pks, ofl_ids) \<Rightarrow>
            seqM (whenM (length ofl_ids > 0) (ofl_put (eId e) ofl_ids)) (returnM (AddDelay ofl_pks ?p0))
        | Inl _ \<Rightarrow> returnM ?p0) (s\<lparr>redis := r\<rparr>) = Ret ?p1 ?u"
    by (auto simp: m_def login_answer_def ofl_put_def go_defs split: sum.splits)
  obtain q where q: "storeSessionStatus E ?u = Ret () (?u\<lparr>redis := q\<rparr>)"
      "registry (view q) = (registry (view (redis s)))(bare j \<mapsto> st (me s))"
    using storeSessionStatus_run [OF db, of ?u j] s i r(2) by auto
  obtain w where w: "answer ?p1 (?u\<lparr>redis := q\<rparr>) =
      Ret () (?u\<lparr>redis := q, m_write := w, me := (me s)\<lparr>sc := Some (after_send (ToJson ?p1) c)\<rparr>\<rparr>)"
    using answer_run [of "?u\<lparr>redis := q\<rparr>" c ?p1] s(3) by auto
  have "logged_in E e s = Ret () (?u\<lparr>redis := q, m_write := w, me := (me s)\<lparr>sc := Some (after_send (ToJson ?p1) c)\<rparr>\<rparr>)"
    unfolding logged_in_def Let_def
    by (rule bindM_RetI, rule r(1), rule bindM_RetI, rule step, rule seqM_RetI, rule q(1), rule w)
  then show ?thesis using q(2) by fastforce
qed

lemma login_run:
  fixes s :: "('r, 'z) sess_state_scheme"
  assumes db: "redis_db E view" and room: "length (routerItemCh s) < ROUTER_QUEUE_SIZE"
    and p: "NewPacket p = Inr packet" "eType (pEnvelope packet) = MSG_TYPE_OPEN_SESSION" "NewJID (eJid (pEnvelope packet)) = Inr j"
    and auth: "\<And>r q. \<exists>v. Auth E (user j) (ePwd (pEnvelope packet)) (s\<lparr>redis := r, routerItemCh := q\<rparr>) = Ret True v"
    and c: "sc (me s) = Some c"
    and wf: "wf_status ((st (me s))\<lparr>Jid := eJid (pEnvelope packet), Status := STATUS_LOGIN,
      Ct := time_at E (clock_n s) div 1000000000\<rparr>)"
    and i: "\<not> is_str (view (redis s)) (Nodeid (st (me s)) @ IDX_SUFFIX)" "Nodeid (st (me s)) @ IDX_SUFFIX \<noteq> session_key j"
  obtains t a r and u :: "('r, 'z) sess_state_scheme" where "openSession E p s = Ret () t"
    "st (me t) = (st (me s))\<lparr>Jid := eJid (pEnvelope packet), Status := STATUS_LOGIN, Ct := time_at E (clock_n s) div 1000000000\<rparr>"
    "registry (view (redis t)) = (registry (view (redis s)))(bare j \<mapsto> st (me t))"
    "sc (me t) = Some (after_send (ToJson (login_answer (eId (pEnvelope packet)) a)) c)"
    "fetchOfflinePacket E u = Ret a (u\<lparr>redis := r\<rparr>)" "Jid (st (me u)) = eJid (pEnvelope packet)" "view (redis u) = view (redis s)"
proof -
  obtain r q where r: "kick_previous E j s = Ret () (s\<lparr>redis := r, routerItemCh := q\<rparr>)" "view r = view (redis s)"
    using kick_previous_run [OF db room] by blast
  obtain v where v: "Auth E (user j) (ePwd (pEnvelope packet)) (s\<lparr>redis := r, routerItemCh := q\<rparr>) = Ret True v"
    using auth by blast
  then have "ext_frame (s\<lparr>redis := r, routerItemCh := q\<rparr>) v"
    using Auth_frame [of "s\<lparr>redis := r, routerItemCh := q\<rparr>" E "user j" "ePwd (pEnvelope packet)"] by simp
  then obtain n ps where n: "v = s\<lparr>redis := r, routerItemCh := q, rand_n := n, posts := ps\<rparr>"
    by (auto simp: ext_frame_def)
  have verify: "verify E p s = Ret (Some packet) v"
    using p r(1) v by (simp add: verify_def Let_def seqM_Ret_step steps bindM_Ret_step returnM_def)
  let ?ct = "time_at E (clock_n s) div 1000000000"
  let ?x = "(st (me s))\<lparr>Jid := eJid (pEnvelope packet), Status := STATUS_LOGIN, Ct := ?ct\<rparr>"
  let ?u = "v\<lparr>clock_n := Suc (clock_n s), me := (me s)\<lparr>st := ?x\<rparr>\<rparr>"
  have u: "view (redis ?u) = view (redis s)" "st (me ?u) = ?x" "sc (me ?u) = Some c" by (simp_all add: n r(2) c)
  obtain a z where a: "fetchOfflinePacket E ?u = Ret a (?u\<lparr>redis := z\<rparr>)" "view z = view (redis ?u)"
    using fetchOfflinePacket_run [OF db, of ?u j] p(3) by auto
  have "\<exists>t. logged_in E (pEnvelope packet) ?u = Ret () t \<and> st (me t) = st (me ?u) \<and>
      registry (view (redis t)) = (registry (view (redis ?u)))(bare j \<mapsto> st (me ?u)) \<and>
      sc (me t) = Some (after_send (ToJson (login_answer (eId (pEnvelope packet)) a)) c)"
    by (rule logged_in_run [OF db _ _ _ _ _ a]) (use u p(3) wf i in simp_all)
  then obtain t where t: "logged_in E (pEnvelope packet) ?u = Ret () t" "st (me t) = ?x"
      "registry (view (redis t)) = (registry (view (redis s)))(bare j \<mapsto> ?x)"
      "sc (me t) = Some (after_send (ToJson (login_answer (eId (pEnvelope packet)) a)) c)"
    using u by auto
  have "openSession E p s = Ret () t"
    using t(1) verify by (simp add: openSession_def bindM_Ret_step Timestamp10_run steps n)
  then show ?thesis by (rule that [OF _ t(2) _ t(4) a(1)]) (use t(2,3) u in simp_all)
qed

text \<open>
  C9: A successful login.  If the packet is a login packet with a well-formed address, the
  callback service accepts it and the database is a Redis server, the login succeeds: the
  session is logged in as the user, the registry changes at the user's entry only, where
  it now holds this session, and the client is sent one message, a success answer to its
  login packet.
\<close>

theorem login_registers:
  assumes db: "redis_db E view" and room: "length (routerItemCh s) < ROUTER_QUEUE_SIZE"
    and p: "NewPacket p = Inr packet" "eType (pEnvelope packet) = MSG_TYPE_OPEN_SESSION" "NewJID (eJid (pEnvelope packet)) = Inr j"
    and auth: "\<And>r q. \<exists>v. Auth E (user j) (ePwd (pEnvelope packet)) (s\<lparr>redis := r, routerItemCh := q\<rparr>) = Ret True v"
    and c: "sc (me s) = Some c"
    and wf: "wf_status ((st (me s))\<lparr>Jid := eJid (pEnvelope packet), Status := STATUS_LOGIN,
      Ct := time_at E (clock_n s) div 1000000000\<rparr>)"
    and i: "\<not> is_str (view (redis s)) (Nodeid (st (me s)) @ IDX_SUFFIX)" "Nodeid (st (me s)) @ IDX_SUFFIX \<noteq> session_key j"
  shows "\<exists>t m ct. openSession E p s = Ret () t \<and>
    st (me t) = (st (me s))\<lparr>Jid := eJid (pEnvelope packet), Status := STATUS_LOGIN, Ct := ct\<rparr> \<and>
    registry (view (redis t)) = (registry (view (redis s)))(bare j \<mapsto> st (me t)) \<and>
    sc (me t) = Some (after_send (ToJson m) c) \<and> eId (pEnvelope m) = eId (pEnvelope packet) \<and>
    pEntity m = Some \<lparr>nResult = ''ok'', nReason = []\<rparr>"
proof -
  obtain t a where "openSession E p s = Ret () t"
    "st (me t) = (st (me s))\<lparr>Jid := eJid (pEnvelope packet), Status := STATUS_LOGIN, Ct := time_at E (clock_n s) div 1000000000\<rparr>"
    "registry (view (redis t)) = (registry (view (redis s)))(bare j \<mapsto> st (me t))"
    "sc (me t) = Some (after_send (ToJson (login_answer (eId (pEnvelope packet)) a)) c)"
    using assms by (rule login_run)
  then show ?thesis by (intro exI [of _ t] exI [of _ "login_answer (eId (pEnvelope packet)) a"] exI) auto
qed

subsection \<open>Examples\<close>

definition login_packet :: Packet where
  "login_packet = zero_Packet\<lparr>pEnvelope := zero_Envelope\<lparr>eId := ''1'', eJid := ''c@d'', ePwd := ''x''\<rparr>\<rparr>"

definition login_bytes :: bytes where
  "login_bytes = ToJson login_packet"

lemma login_bytes_read:
  "NewPacket login_bytes = Inr (zero_Packet\<lparr>pEnvelope := pEnvelope login_packet, raw := Some login_bytes\<rparr>)"
  unfolding login_bytes_def
  by (rule NewPacket_reads)
    (simp_all add: login_packet_def wf_envelope_def zero_Packet_def zero_Envelope_def utf8_ok_ascii)

lemma login_parts: "eType (pEnvelope login_packet) = MSG_TYPE_OPEN_SESSION" "eJid (pEnvelope login_packet) = ''c@d''"
  "pEnvelope (zero_Packet\<lparr>pEnvelope := pEnvelope login_packet, raw := Some login_bytes\<rparr>) = pEnvelope login_packet"
  by (simp_all add: login_packet_def zero_Packet_def zero_Envelope_def msg_type_defs)

definition busy_mem :: mem where
  "busy_mem = \<lparr>mstrs = [(''session_c@d'', status_ToJson online_status)], mhashes = []\<rparr>"

lemma busy_registry: "registry (mem_view busy_mem) ''c@d'' = Some online_status"
  using SessionStatus_reads [OF wf_online_status]
  by (simp add: registry_def busy_mem_def str_at_def mem_view_def SESSION_PERFIX_def)

theorem login_router_traffic_witness:
  "routerItemCh (state_of (openSession sample_senv login_bytes (sample_state busy_mem fresh_session))) = [kill_item online_status]"
  using login_router_traffic [OF mem_db.redis_db_axioms, of "sample_state busy_mem fresh_session" login_bytes]
  by (simp add: login_bytes_read login_parts sample_jid bare_def busy_registry)
    (simp add: sample_state_def ROUTER_QUEUE_SIZE_def)

lemma Auth_sample: "Auth sample_senv u pw ((sample_state db S)\<lparr>redis := r, routerItemCh := q\<rparr>) =
    Ret True ((sample_state db S)\<lparr>redis := r, routerItemCh := q\<rparr>)"
  by (simp add: Auth_def conf_access_defs sample_state_def newConfVoKeyVal_def go_defs)

lemma login_wf:
  "wf_status ((st fresh_session)\<lparr>Jid := ''c@d'', Status := STATUS_LOGIN, Ct := time_at sample_senv 0 div 1000000000\<rparr>)"
  by (simp add: wf_status_def fresh_session_def zero_status_def status_defs utf8_ok_ascii sample_senv_def sample_env_def)

theorem login_registers_witness:
  "\<exists>t. openSession sample_senv login_bytes (sample_state empty_mem fresh_session) = Ret () t \<and>
     Status (st (me t)) = STATUS_LOGIN \<and> registry (mem_view (redis t)) ''c@d'' = Some (st (me t))"
proof -
  let ?s = "sample_state empty_mem fresh_session" and ?p = "zero_Packet\<lparr>pEnvelope := pEnvelope login_packet, raw := Some login_bytes\<rparr>"
  let ?j = "\<lparr>user = ''c'', domain = ''d'', resource = []\<rparr>"
  have "\<exists>t m ct. openSession sample_senv login_bytes ?s = Ret () t \<and>
    st (me t) = (st (me ?s))\<lparr>Jid := eJid (pEnvelope ?p), Status := STATUS_LOGIN, Ct := ct\<rparr> \<and>
    registry (mem_view (redis t)) = (registry (mem_view (redis ?s)))(bare ?j \<mapsto> st (me t)) \<and>
    sc (me t) = Some (after_send (ToJson m) (new_conn TCP)) \<and> eId (pEnvelope m) = eId (pEnvelope ?p) \<and>
    pEntity m = Some \<lparr>nResult = ''ok'', nReason = []\<rparr>"
    by (rule login_registers [OF mem_db.redis_db_axioms])
      (use login_wf in \<open>simp_all add: login_bytes_read login_parts sample_jid Auth_sample fresh_session_def zero_status_def empty_mem_def
        mis_str_def IDX_SUFFIX_def SESSION_PERFIX_def ROUTER_QUEUE_SIZE_def\<close>)
  then show ?thesis by (auto simp: bare_def)
qed

lemma refused_sample:
  "\<exists>t. openSession sample_senv ''x'' (sample_state empty_mem fresh_session) = Ret () t"
proof -
  let ?s = "sample_state empty_mem fresh_session"
  have "NewPacket ''x'' = Inl EPacket" by code_simp
  obtain i u where i: "uuid_rand_hex sample_senv ?s = Ret i u" "me u = fresh_session" "wbClosed u = False"
    by (simp add: uuid_rand_hex_def)
  obtain w where w: "answer (NewPacketAuthFail i FAIL_PACKET) u = Ret () (u\<lparr>m_write := w, me := (me u)\<lparr>sc := Some (after_send (ToJson (NewPacketAuthFail i FAIL_PACKET)) (new_conn TCP))\<rparr>\<rparr>)"
    using answer_run [of u "new_conn TCP"] i(2) by (auto simp: fresh_session_def)
  let ?v = "u\<lparr>m_write := w, me := (me u)\<lparr>sc := Some (after_send (ToJson (NewPacketAuthFail i FAIL_PACKET)) (new_conn TCP))\<rparr>\<rparr>"
  have "CloseSession sample_senv ?v = Ret () (closed_state sample_senv undefined (the (sc (me ?v))) ?v)"
    by (rule CloseSession_runs) (use i in \<open>simp_all add: session_inv_def fresh_session_def zero_status_def\<close>)
  then show ?thesis
    using i(1) w \<open>NewPacket ''x'' = _\<close>
    by (simp add: openSession_def verify_def bindM_Ret_step seqM_Ret_step returnM_def)
qed


end
