(* ===== verification/Session_Routing.thy ===== *)
theory Session_Routing
  imports Session_Login
begin

text \<open>
  Routing a packet.  An abstract description says what should happen to a packet: it is
  delivered to the session's own client, forwarded to the session that is registered for
  the recipient, stored for a recipient who is not online, or ignored because the sender
  is not the user of the session.  \<open>RoutePacket\<close> implements it.
\<close>

subsection \<open>The abstract description\<close>

datatype route_action = Deliver | Forward SessionStatus | Store | Ignore

definition route_spec :: "string \<Rightarrow> string \<Rightarrow> string \<Rightarrow> (string \<rightharpoonup> SessionStatus) \<Rightarrow> route_action" where
  "route_spec self from to online =
     (if to = self then Deliver
      else if from = self then (case online to of Some x \<Rightarrow> Forward x | None \<Rightarrow> Store)
      else Ignore)"

definition packet_item :: "SessionStatus \<Rightarrow> Packet \<Rightarrow> routerItem" where
  "packet_item x p = \<lparr>rChannel = Channel x, rSid = Sid x, rPacket = Some p, rSignal = CHR 0x00\<rparr>"

text \<open>
  What an action is in the state of the server.  Reading the database does not change its
  content; storing also posts a notification, which uses an identifier.
\<close>

definition performs ::
  "('r \<Rightarrow> keyspace) \<Rightarrow> JID \<Rightarrow> Packet \<Rightarrow> conn \<Rightarrow> route_action \<Rightarrow> ('r, 'z) sess_state_scheme \<Rightarrow> ('r, 'z) sess_state_scheme \<Rightarrow> bool" where
  "performs view k p c act s t \<longleftrightarrow>
     (case act of
        Deliver \<Rightarrow> \<exists>w. t = s\<lparr>m_write := w,
          me := (me s)\<lparr>pkgBuff := aupd (eId (pEnvelope p)) p (pkgBuff (me s)), sc := Some (after_send (ToJson p) c)\<rparr>\<rparr>
      | Forward x \<Rightarrow> \<exists>r. t = s\<lparr>redis := r, routerItemCh := routerItemCh s @ [packet_item x p]\<rparr> \<and> view r = view (redis s)
      | Store \<Rightarrow> \<exists>r n ps. t = s\<lparr>redis := r, wbCh := wbCh s @ store_cmds k p, rand_n := n, posts := ps\<rparr> \<and> view r = view (redis s)
      | Ignore \<Rightarrow> t = s)"

subsection \<open>The refinement\<close>

lemma deliver_run:
  assumes "sc (me s) = Some c"
  shows "\<exists>w. seqM (pkgBuffWrite ''add'' (ArgPacket p)) (seqM (SendMessage (ToJson p)) (returnM ())) s =
    Ret () (s\<lparr>m_write := w,
      me := (me s)\<lparr>pkgBuff := aupd (eId (pEnvelope p)) p (pkgBuff (me s)), sc := Some (after_send (ToJson p) c)\<rparr>\<rparr>)"
proof -
  let ?s = "s\<lparr>me := (me s)\<lparr>pkgBuff := aupd (eId (pEnvelope p)) p (pkgBuff (me s))\<rparr>\<rparr>"
  obtain n err w where "SendMessage (ToJson p) ?s = Ret (n, err) (?s\<lparr>m_write := w, me := (me ?s)\<lparr>sc := Some (after_send (ToJson p) c)\<rparr>\<rparr>)"
    using SendMessage_run [of ?s c "ToJson p"] assms by auto
  then show ?thesis by (auto simp: pkgBuffWrite_def steps seqM_Ret_step returnM_def)
qed

lemma forward_run:
  assumes "redis_db E view" "NewJID (eFrom (pEnvelope p)) = Inr f" "bare f = bare j" "NewJID (eTo (pEnvelope p)) = Inr k"
    and "registry (view (redis s)) (bare k) = Some x" "length (routerItemCh s) < ROUTER_QUEUE_SIZE"
  shows "\<exists>r. route_out E (Some j) p s = Ret () (s\<lparr>redis := r, routerItemCh := routerItemCh s @ [packet_item x p]\<rparr>) \<and>
    view r = view (redis s)"
proof -
  obtain b where b: "str_at (view (redis s)) (session_key k) = Some b" "NewSessionStatusFromJson b = x"
    using assms(5) by (auto simp: registry_def)
  obtain r where r: "db_Get E (session_key k) s = Ret (Inr b) (s\<lparr>redis := r\<rparr>)" "view r = view (redis s)"
    using redis_db.db_Get_found [OF assms(1) b(1)] by blast
  have "route_out E (Some j) p s = Ret () (s\<lparr>redis := r, routerItemCh := routerItemCh s @ [packet_item x p]\<rparr>)"
    using assms r(1) b(2)
    by (simp add: route_out_def EnvelopeIdFromToType_def EqualWithoutResource_Some steps bindM_Ret_step
        Let_def seqM_Ret_step Route_def packet_item_def returnM_def)
  with r(2) show ?thesis by blast
qed

lemma store_run:
  assumes "redis_db E view" "NewJID (eFrom (pEnvelope p)) = Inr f" "bare f = bare j" "NewJID (eTo (pEnvelope p)) = Inr k"
    and "registry (view (redis s)) (bare k) = None"
  shows "\<exists>r. route_out E (Some j) p s =
      seqM (StorePacket E p) (seqM (OfflineCallback E (ToJson p)) (returnM ())) (s\<lparr>redis := r\<rparr>) \<and> view r = view (redis s)"
proof -
  have "str_at (view (redis s)) (session_key k) = None" using assms(5) by (simp add: registry_def)
  from redis_db.db_Get_missing [OF assms(1) this]
  obtain r e where r: "db_Get E (session_key k) s = Ret (Inl e) (s\<lparr>redis := r\<rparr>)" "view r = view (redis s)" by blast
  have "route_out E (Some j) p s =
      seqM (StorePacket E p) (seqM (OfflineCallback E (ToJson p)) (returnM ())) (s\<lparr>redis := r\<rparr>)"
    using assms(2-4) r(1)
    by (simp add: route_out_def EnvelopeIdFromToType_def EqualWithoutResource_Some steps bindM_Ret_step)
  with r(2) show ?thesis by blast
qed

lemma callback_state_of:
  "\<exists>n ps. state_of (seqM (OfflineCallback E d) (returnM ()) s) = s\<lparr>rand_n := n, posts := ps\<rparr>"
proof -
  have "state_of (seqM (OfflineCallback E d) (returnM ()) s) = state_of (OfflineCallback E d s)"
    by (cases "OfflineCallback E d s") (simp_all add: go_defs)
  with OfflineCallback_frame [of s E d] show ?thesis by (simp add: ext_frame_def)
qed

text \<open>
  C1: Routing implements the abstract description.  For a session that is logged in, and a
  packet whose addresses are well formed, \<open>RoutePacket\<close> does exactly what \<open>route_spec\<close> says
  for the user of the session, the sender, the recipient and the registry of online
  users, and nothing else.  In particular a client cannot send in the name of another
  user.
\<close>

theorem RoutePacket_implements_spec:
  assumes db: "redis_db E view" and st: "Status (st (me s)) = STATUS_LOGIN" "NewJID (Jid (st (me s))) = Inr j" "sc (me s) = Some c"
    and p: "NewJID (eFrom (pEnvelope p)) = Inr f" "NewJID (eTo (pEnvelope p)) = Inr k" "\<not> is4s (eId (pEnvelope p))"
    and room: "length (routerItemCh s) < ROUTER_QUEUE_SIZE" and open': "\<not> wbClosed s"
  shows "performs view k p c (route_spec (bare j) (bare f) (bare k) (registry (view (redis s)))) s
    (state_of (RoutePacket E p s))"
proof (cases "bare k = bare j")
  case True
  then show ?thesis
    using st p(2) deliver_run [OF st(3), of p]
    by (auto simp: RoutePacket_login NewJID_Inr_ptr EqualWithoutResource_Some route_spec_def performs_def)
next
  case False
  then have out: "RoutePacket E p s = route_out E (Some j) p s"
    using st p(2) by (simp add: RoutePacket_login NewJID_Inr_ptr EqualWithoutResource_Some)
  show ?thesis
  proof (cases "bare f = bare j")
    case True
    show ?thesis
    proof (cases "registry (view (redis s)) (bare k)")
      case (Some x)
      then show ?thesis
        using forward_run [OF db p(1) True p(2) Some room] False True out
        by (auto simp: route_spec_def performs_def)
    next
      case None
      obtain r where r: "route_out E (Some j) p s =
          seqM (StorePacket E p) (seqM (OfflineCallback E (ToJson p)) (returnM ())) (s\<lparr>redis := r\<rparr>)" "view r = view (redis s)"
        using store_run [OF db p(1) True p(2) None] by blast
      then show ?thesis
        using StorePacket_queues [OF p(2,3), of "s\<lparr>redis := r\<rparr>" E] open' None False True out
          callback_state_of [of E "ToJson p" "s\<lparr>redis := r, wbCh := wbCh s @ store_cmds k p\<rparr>"]
        by (auto simp: route_spec_def performs_def seqM_Ret_step)
    qed
  next
    case sender: False
    then show ?thesis
      using out p(1) False
      by (simp add: route_spec_def performs_def route_out_def EnvelopeIdFromToType_def EqualWithoutResource_Some
          steps returnM_def)
  qed
qed

definition out_packet :: Packet where
  "out_packet = zero_Packet\<lparr>pEnvelope := zero_Envelope\<lparr>eId := ''m1'', eFrom := ''a@b'', eTo := ''c@d'', eType := 1\<rparr>\<rparr>"

lemma out_parts [simp]:
  "eId (pEnvelope out_packet) = ''m1''" "eFrom (pEnvelope out_packet) = ''a@b''" "eTo (pEnvelope out_packet) = ''c@d''"
  by (simp_all add: out_packet_def zero_Packet_def zero_Envelope_def)

lemma sample_session_parts [simp]:
  "Status (st sample_session) = STATUS_LOGIN" "Jid (st sample_session) = ''a@b''" "sc sample_session = Some (new_conn TCP)"
  "pkgBuff sample_session = []" "Nodeid (st sample_session) = ''n1''"
  by (simp_all add: sample_session_def fresh_session_def)

theorem RoutePacket_implements_spec_witness:
  "routerItemCh (state_of (RoutePacket sample_senv out_packet (sample_state busy_mem sample_session))) =
     [packet_item online_status out_packet]"
  using RoutePacket_implements_spec [OF mem_db.redis_db_axioms, of "sample_state busy_mem sample_session"
      "\<lparr>user = ''a'', domain = ''b'', resource = []\<rparr>" "new_conn TCP" out_packet
      "\<lparr>user = ''a'', domain = ''b'', resource = []\<rparr>" "\<lparr>user = ''c'', domain = ''d'', resource = []\<rparr>"]
  by (auto simp: sample_jid not_4s_m1 bare_def ROUTER_QUEUE_SIZE_def route_spec_def performs_def busy_registry)

subsection \<open>Malformed recipients\<close>

text \<open>
  A packet for a malformed address is not answered.  Comparing the recipient with the
  session's own address dereferences the nil result of the failed parse, so \<open>RoutePacket\<close>
  panics before anything is sent or stored: the branch that would notify the client of
  the bad address is never reached.
\<close>

theorem RoutePacket_malformed_to:
  assumes "Status (st (me s)) = STATUS_LOGIN" "NewJID (eTo (pEnvelope p)) = Inl e"
  shows "RoutePacket E p s = Panic NilDeref s"
  using assms by (simp add: RoutePacket_login EqualWithoutResource_bad)

theorem RoutePacket_malformed_to_witness:
  "RoutePacket sample_senv (out_packet\<lparr>pEnvelope := (pEnvelope out_packet)\<lparr>eTo := ''nobody''\<rparr>\<rparr>)
     (sample_state empty_mem sample_session) = Panic NilDeref (sample_state empty_mem sample_session)"
  by (rule RoutePacket_malformed_to) (simp_all add: NewJID_def)

subsection \<open>Message ids as keys\<close>

text \<open>
  C39: The id a client chooses for a message is used as a database key.  If it is the
  session key of some user, and the recipient of the message is offline, routing the
  message overwrites that user's entry in the registry with what the message's JSON
  decodes to.
\<close>

theorem message_id_overwrites_session:
  assumes db: "redis_db E view" and st: "Status (st (me s)) = STATUS_LOGIN" "NewJID (Jid (st (me s))) = Inr j"
    and p: "NewJID (eFrom (pEnvelope p)) = Inr f" "bare f = bare j" "NewJID (eTo (pEnvelope p)) = Inr k" "bare k \<noteq> bare j"
    and off: "registry (view (redis s)) (bare k) = None"
    and id: "eId (pEnvelope p) = session_key v" and i: "\<not> is_str (view (redis s)) (offline_key k @ IDX_SUFFIX)"
  shows "registry (view (redis (state_of (RoutePacket E p s)))) (bare v) = Some (NewSessionStatusFromJson (ToJson p))"
proof -
  have out: "RoutePacket E p s = route_out E (Some j) p s"
    using st p(3,4) by (simp add: RoutePacket_login NewJID_Inr_ptr EqualWithoutResource_Some)
  obtain r where r: "route_out E (Some j) p s =
      seqM (StorePacket E p) (seqM (OfflineCallback E (ToJson p)) (returnM ())) (s\<lparr>redis := r\<rparr>)" "view r = view (redis s)"
    using store_run [OF db p(1-3) off] by blast
  obtain q where q: "PutExWithIdx E (offline_key k) (session_key v) (ToJson p) OFFLINE_EXPIRED (s\<lparr>redis := r\<rparr>) =
      Ret None (s\<lparr>redis := q\<rparr>)" "view q = (redis_upd (HSET (offline_key k @ IDX_SUFFIX) (session_key v) (ToJson p)) (view r))
       (session_key v \<mapsto> VStr (ToJson p))"
    using redis_db.PutExWithIdx_direct [OF db is4s_session_key, of "s\<lparr>redis := r\<rparr>" "offline_key k" v] i r(2) by auto
  have "StorePacket E p (s\<lparr>redis := r\<rparr>) = Ret () (s\<lparr>redis := q\<rparr>)"
    using q(1) p(3) id
    by (simp add: StorePacket_def EnvelopeIdFromToType_def NewJID_Inr_ptr steps seqM_Ret_step returnM_def)
  then obtain n ps where "state_of (RoutePacket E p s) = s\<lparr>redis := q, rand_n := n, posts := ps\<rparr>"
    using callback_state_of [of E "ToJson p" "s\<lparr>redis := q\<rparr>"] out r(1) by (auto simp: seqM_Ret_step)
  then show ?thesis using q(2) by (simp add: registry_set)
qed

theorem message_id_overwrites_session_witness:
  "registry (mem_view (redis (state_of (RoutePacket sample_senv
      (out_packet\<lparr>pEnvelope := (pEnvelope out_packet)\<lparr>eId := ''session_c@d'', eTo := ''e@f''\<rparr>\<rparr>)
      (sample_state busy_mem sample_session))))) ''c@d'' =
    Some (NewSessionStatusFromJson (ToJson (out_packet\<lparr>pEnvelope := (pEnvelope out_packet)\<lparr>eId := ''session_c@d'', eTo := ''e@f''\<rparr>\<rparr>)))"
  using message_id_overwrites_session [OF mem_db.redis_db_axioms, of "sample_state busy_mem sample_session"
      "\<lparr>user = ''a'', domain = ''b'', resource = []\<rparr>"
      "out_packet\<lparr>pEnvelope := (pEnvelope out_packet)\<lparr>eId := ''session_c@d'', eTo := ''e@f''\<rparr>\<rparr>"
      "\<lparr>user = ''a'', domain = ''b'', resource = []\<rparr>" "\<lparr>user = ''e'', domain = ''f'', resource = []\<rparr>"
      "\<lparr>user = ''c'', domain = ''d'', resource = []\<rparr>"]
  by (simp add: sample_jid NewJID_def bare_def registry_def str_at_def mem_view_def busy_mem_def mis_str_def
      SESSION_PERFIX_def OFFLINE_PERFIX_def IDX_SUFFIX_def)

end
