(* ===== verification/Group_Chat.thy ===== *)
theory Group_Chat
  imports Session_Routing
begin

text \<open>
  Group messages: which packets a message to a group turns into, who may send one, and
  what becomes of its content.
\<close>

subsection \<open>The packets of a group message\<close>

text \<open>The members a message goes to: all but the sender.\<close>

definition recipients :: "JID \<Rightarrow> bytes \<Rightarrow> string list" where
  "recipients f users = filter (\<lambda>u. user f \<noteq> u) (split_on (CHR '','') users)"

definition member_jid :: "JID \<Rightarrow> string \<Rightarrow> string" where
  "member_jid f u = u @ ''@'' @ domain f"

definition copies :: "JID \<Rightarrow> string \<Rightarrow> Packet \<Rightarrow> string list \<Rightarrow> Packet list \<Rightarrow> bool" where
  "copies f from packet us ps \<longleftrightarrow>
     list_all2 (\<lambda>u q. eTo (pEnvelope q) = member_jid f u \<and> eFrom (pEnvelope q) = from \<and>
        eGid (pEnvelope q) = eGid (pEnvelope packet) \<and> eType (pEnvelope q) = MSG_TYPE_GROUP_CHAT \<and>
        pPayload q = pPayload packet \<and> pVsn q = pVsn packet \<and> raw q = None) us ps"

lemma member_parses:
  assumes "wf_jid f" "CHR ''@'' \<notin> set u"
  shows "NewJIDByUidDomain u (domain f) = Inr \<lparr>user = u, domain = domain f, resource = []\<rparr>"
  using NewJID_bare [of "\<lparr>user = u, domain = domain f, resource = []\<rparr>"] assms
  by (simp add: NewJIDByUidDomain_def wf_jid_def bare_def)

lemma gen_group_run:
  assumes "wf_jid f" "\<forall>u\<in>set us. CHR ''@'' \<notin> set u"
  shows "\<exists>ps t. gen_group E from f packet us s = Ret ps t \<and> copies f from packet (filter (\<lambda>u. user f \<noteq> u) us) ps"
  using assms(2)
proof (induction us arbitrary: s)
  case (Cons u us)
  show ?case
  proof (cases "user f = u")
    case False
    let ?s = "s\<lparr>rand_n := Suc (rand_n s), clock_n := Suc (clock_n s)\<rparr>"
    obtain ps t where "gen_group E from f packet us ?s = Ret ps t" "copies f from packet (filter (\<lambda>u. user f \<noteq> u) us) ps"
      using Cons by fastforce
    moreover have "NewJIDByUidDomain u (domain f) = Inr \<lparr>user = u, domain = domain f, resource = []\<rparr>"
      using member_parses [OF assms(1)] Cons.prems by simp
    ultimately show ?thesis
      using False
      by (simp add: steps uuid_rand_hex_def Timestamp13_def now_def Let_def go_defs copies_def member_jid_def bare_def
          zero_Packet_def zero_Envelope_def)
  qed (use Cons in auto)
qed (simp add: returnM_def copies_def)

lemma split_on_chars: "u \<in> set (split_on c s) \<Longrightarrow> x \<notin> set s \<Longrightarrow> x \<notin> set u"
  using set_split_on by blast

lemma genGroupPackets_run:
  assumes "NewJID (eFrom (pEnvelope packet)) = Inr f" "CHR ''@'' \<notin> set users"
  shows "\<exists>ps t. genGroupPackets E users packet s = Ret ps t \<and>
    copies f (eFrom (pEnvelope packet)) packet (recipients f users) ps"
proof -
  have "\<exists>ps t. gen_group E (eFrom (pEnvelope packet)) f packet (split_on (CHR '','') users) s = Ret ps t \<and>
      copies f (eFrom (pEnvelope packet)) packet (filter (\<lambda>u. user f \<noteq> u) (split_on (CHR '','') users)) ps"
    by (rule gen_group_run [OF NewJID_wf [OF assms(1)]]) (use assms(2) split_on_chars in blast)
  then show ?thesis
    using assms(1) by (simp add: genGroupPackets_def NewJID_Inr_ptr steps recipients_def)
qed

text \<open>
  A message to a group becomes one packet for every member but the sender, in the
  order of the member list: addressed to the member in the sender's domain, from the
  sender, with the group's id and the group message type, and with the payload and the
  version the message was read with.  Producing the packets cannot fail.
\<close>

theorem genGroupPackets_copies:
  assumes "NewJID (eFrom (pEnvelope packet)) = Inr f" "CHR ''@'' \<notin> set users"
  shows "\<exists>ps t. genGroupPackets E users packet s = Ret ps t \<and>
    copies f (eFrom (pEnvelope packet)) packet (recipients f users) ps"
  by (rule genGroupPackets_run [OF assms])

theorem genGroupPackets_copies_witness:
  "\<exists>p q t. genGroupPackets sample_senv ''a,x,y'' out_packet (sample_state empty_mem sample_session) = Ret [p, q] t \<and>
     eTo (pEnvelope p) = ''x@b'' \<and> eTo (pEnvelope q) = ''y@b''"
  using genGroupPackets_copies [of out_packet "\<lparr>user = ''a'', domain = ''b'', resource = []\<rparr>" "''a,x,y''" sample_senv
      "sample_state empty_mem sample_session"]
  by (auto simp: sample_jid copies_def recipients_def member_jid_def list_all2_Cons1)

subsection \<open>The content of a group message\<close>

text \<open>
  C38: The content of a group message is lost.  The packet handler reads only the envelope
  of a message, so the packets generated for the members do not depend on anything else:
  two messages with the same envelope and different payloads are turned into the same
  packets.
\<close>

theorem group_chat_ignores_payload:
  fixes s :: "('r, 'z) db_state_scheme"
  assumes "NewPacket d = Inr p" "NewPacket d' = Inr p'" "pEnvelope p = pEnvelope p'"
  shows "GenerateGroupPackets E p s = GenerateGroupPackets E p' s"
proof -
  have *: "pPayload p = pPayload p'" "pVsn p = pVsn p'"
    using assms(1,2) by (auto simp: NewPacket_def Let_def split: if_splits sum.splits)
  have "gen_group E fr f p us u = gen_group E fr f p' us u" for fr f us and u :: "('r, 'z) db_state_scheme"
    using * assms(3) by (induction us arbitrary: u) (auto simp: Let_def go_defs split: outcome.splits)
  then have g: "gen_group E fr f p us = (gen_group E fr f p' us :: ('r, 'z, Packet list) db_op)" for fr f us
    by (intro ext)
  have "genGroupPackets E us p = (genGroupPackets E us p' :: ('r, 'z, Packet list) db_op)" for us
    using g assms(3) by (simp add: genGroupPackets_def)
  then have "group_packets E j us p = (group_packets E j us p' :: ('r, 'z, string + Packet list) db_op)" for j us
    by (simp add: group_packets_def cong: if_cong)
  then show ?thesis using assms(3) by (simp add: GenerateGroupPackets_def cong: if_cong sum.case_cong)
qed

definition group_text :: "string \<Rightarrow> Packet" where
  "group_text c = zero_Packet\<lparr>pEnvelope := zero_Envelope\<lparr>eId := ''g1'', eFrom := ''a@b'', eGid := ''7'', eType := 2\<rparr>,
     pPayload := Some (JStr c)\<rparr>"

lemma group_text_read:
  "NewPacket (ToJson (group_text c)) =
     Inr (zero_Packet\<lparr>pEnvelope := pEnvelope (group_text c), raw := Some (ToJson (group_text c))\<rparr>)"
  by (rule NewPacket_reads) (simp_all add: group_text_def wf_envelope_def zero_Packet_def zero_Envelope_def utf8_ok_ascii)

theorem group_chat_ignores_payload_witness:
  "\<exists>p p'. NewPacket (ToJson (group_text ''yes'')) = Inr p \<and> NewPacket (ToJson (group_text ''no'')) = Inr p' \<and>
     GenerateGroupPackets sample_senv p (sample_state empty_mem sample_session) =
     GenerateGroupPackets sample_senv p' (sample_state empty_mem sample_session)"
  using group_chat_ignores_payload [OF group_text_read [of "''yes''"] group_text_read [of "''no''"]]
  by (simp add: group_text_read) (simp add: group_text_def)

subsection \<open>Who may send\<close>

text \<open>
  Membership is decided by substring.  Any sender whose user id occurs somewhere in the
  text of the member list, also as a part of another member's id, may send to the group.
\<close>

theorem group_permission_by_substring:
  assumes "NewJID (eFrom (pEnvelope packet)) = Inr f" "CHR ''@'' \<notin> set (xs @ user f @ ys)"
  shows "\<exists>ps t. group_packets E (Some f) (xs @ user f @ ys) packet s = Ret (Inr ps) t"
proof -
  have "contains (xs @ user f @ ys) (user f)" unfolding contains_iff by blast
  with genGroupPackets_run [OF assms, of E s] show ?thesis
    by (auto simp: group_packets_def steps bindM_Ret_step returnM_def)
qed

theorem group_permission_by_substring_witness:
  "''a'' \<notin> set (split_on (CHR '','') ''hal,bob'') \<and>
   (\<exists>ps t. group_packets sample_senv (Some \<lparr>user = ''a'', domain = ''b'', resource = []\<rparr>) ''hal,bob'' out_packet
      (sample_state empty_mem sample_session) = Ret (Inr ps) t)"
  using group_permission_by_substring [of out_packet "\<lparr>user = ''a'', domain = ''b'', resource = []\<rparr>" "''h''" "''l,bob''"]
  by (simp add: sample_jid)

end
