(* ===== verification/Mailbox.thy ===== *)
theory Mailbox
  imports Group_Chat Write_Run
begin

text \<open>
  Messages for users who are not online, across the components: a packet the client of a
  closed session has not acknowledged, or a packet for a user who is offline, is queued
  by the session, written by the queue workers in whatever order they run, and read back
  at the user's next login.
\<close>

subsection \<open>Commands in any order\<close>

text \<open>The hash that holds the messages for a user.\<close>

abbreviation mailbox_key :: "JID \<Rightarrow> bytes" where
  "mailbox_key j \<equiv> offline_key j @ IDX_SUFFIX"

definition mailbox :: "keyspace \<Rightarrow> JID \<Rightarrow> string \<rightharpoonup> bytes" where
  "mailbox v j = hash_of v (mailbox_key j)"

text \<open>Commands that store messages in a hash, each field with a value of its own.\<close>

definition stores :: "bytes \<Rightarrow> (string \<rightharpoonup> bytes) \<Rightarrow> redis_cmd \<Rightarrow> bool" where
  "stores h f c \<longleftrightarrow>
     (\<exists>i x. c = HSET h i x \<and> f i = Some x) \<or> (\<exists>i n x. c = SETEX i n x \<and> i \<noteq> h \<and> n > 0)"

lemma is_str_upd [simp]:
  "is_str (v(k \<mapsto> VStr x)) h \<longleftrightarrow> h = k \<or> is_str v h" "is_str (v(k \<mapsto> VHash m)) h \<longleftrightarrow> h \<noteq> k \<and> is_str v h"
  by (auto simp: is_str_def)

lemma store_step:
  assumes "stores h f c" "\<not> is_str v h"
  shows "\<not> is_str (redis_upd c v) h \<and>
    hash_of (redis_upd c v) h = (\<lambda>i. if f i \<noteq> None \<and> c = HSET h i (the (f i)) then f i else hash_of v h i)"
  using assms unfolding stores_def by (elim disjE exE) (auto simp: fun_eq_iff)

lemma stores_any_order:
  assumes "\<forall>c\<in>set ys. stores h f c" "\<not> is_str v h"
  shows "\<not> is_str (fold redis_upd ys v) h \<and>
    hash_of (fold redis_upd ys v) h = (\<lambda>i. if f i \<noteq> None \<and> HSET h i (the (f i)) \<in> set ys then f i else hash_of v h i)"
  using assms
proof (induction ys arbitrary: v)
  case (Cons c ys)
  have c: "stores h f c" "\<forall>c\<in>set ys. stores h f c" using Cons.prems by auto
  from Cons.IH [OF c(2)] store_step [OF c(1) Cons.prems(2)] show ?case
    by (auto simp: fun_eq_iff simp del: redis_upd.simps)
qed simp

text \<open>Commands that delete messages.\<close>

definition deletes :: "bytes \<Rightarrow> redis_cmd \<Rightarrow> bool" where
  "deletes h c \<longleftrightarrow> (\<exists>i. c = HDEL h i) \<or> (\<exists>i. c = DEL i \<and> i \<noteq> h)"

lemma delete_step:
  assumes "deletes h c" "\<not> is_str v h"
  shows "\<not> is_str (redis_upd c v) h \<and> hash_of (redis_upd c v) h = (\<lambda>i. if c = HDEL h i then None else hash_of v h i)"
  using assms unfolding deletes_def
  by (elim disjE exE) (auto simp: fun_eq_iff is_str_def hash_of_def split: option.splits rval.splits)

lemma deletes_any_order:
  assumes "\<forall>c\<in>set ys. deletes h c" "\<not> is_str v h"
  shows "hash_of (fold redis_upd ys v) h = (\<lambda>i. if HDEL h i \<in> set ys then None else hash_of v h i)"
  using assms
proof (induction ys arbitrary: v)
  case (Cons c ys)
  have c: "deletes h c" "\<forall>c\<in>set ys. deletes h c" using Cons.prems by auto
  from Cons.IH [OF c(2)] delete_step [OF c(1) Cons.prems(2)] show ?case
    by (auto simp: fun_eq_iff simp del: redis_upd.simps)
qed simp

subsection \<open>Packets that were not acknowledged\<close>

lemma store_cmds_of: "cmds_of (store_cmds j p) =
    [HSET (mailbox_key j) (eId (pEnvelope p)) (ToJson p), SETEX (eId (pEnvelope p)) OFFLINE_EXPIRED (ToJson p)]"
  by (simp add: store_cmds_def)

lemma buff_cmds_of:
  "set (cmds_of (buff_cmds j buff ks)) =
     (\<Union>k\<in>set ks. case map_of buff k of None \<Rightarrow> {}
        | Some p \<Rightarrow> {HSET (mailbox_key j) (eId (pEnvelope p)) (ToJson p), SETEX (eId (pEnvelope p)) OFFLINE_EXPIRED (ToJson p)})"
  by (induction ks) (auto simp: buff_cmds_def store_cmds_of split: option.splits)

lemma WbKill_buff_cmds: "WbKill \<notin> set (buff_cmds j buff ks)"
  by (induction ks) (auto simp: buff_cmds_def store_cmds_def split: option.splits)

lemma closed_queue [simp]:
  "wqueue False (closed_state E j c s) = wqueue False s @ buff_cmds j (pkgBuff (me s)) (map_order E (map fst (pkgBuff (me s))))"
  "wqueue True (closed_state E j c s) = wqueue True s @ unregister_cmds (st (me s)) j"
  "workers b (closed_state E j c s) = workers b s" "redis (closed_state E j c s) = redis s"
  by (simp_all add: wqueue_def workers_def closed_state_def)

lemma set_of_mset: "mset xs = mset ys \<Longrightarrow> set xs = set ys"
  by (metis set_mset_mset)

text \<open>
  C2: No packet is lost when a session ends.  Close a session whose client has not
  acknowledged all packets, and let the queue workers run, in any order, until the queue
  is empty: then the user's mailbox in the database holds every one of these packets
  under its id, next to the messages it held before.
\<close>

theorem unacked_packets_survive:
  assumes db: "redis_db E view" and inv: "session_inv (me s)" and st: "Status (st (me s)) = STATUS_LOGIN" "NewJID (Jid (st (me s))) = Inr j"
    and ids: "\<forall>(i, p)\<in>set (pkgBuff (me s)). \<not> is4s i \<and> i \<noteq> mailbox_key j"
    and open': "\<not> wbClosed s" and order: "set (map_order E (map fst (pkgBuff (me s)))) = fst ` set (pkgBuff (me s))"
    and idle: "calm False s" "pending False s = {#}" and box: "\<not> is_str (view (redis s)) (mailbox_key j)"
    and close: "CloseSession E s = Ret () u" and run: "wb_run E False u t" "pending False t = {#}"
  shows "mailbox (view (redis t)) j =
    mailbox (view (redis s)) j ++ map_of (map (\<lambda>(i, p). (i, ToJson p)) (pkgBuff (me s)))"
proof -
  let ?buff = "pkgBuff (me s)" and ?h = "mailbox_key j"
  let ?ks = "map_order E (map fst ?buff)" and ?f = "\<lambda>i. map_option ToJson (map_of ?buff i)"
  obtain c where c: "sc (me s) = Some c" using inv by (auto simp: session_inv_def)
  have u: "u = closed_state E j c s"
    using CloseSession_runs [OF inv _ c, of j E] st ids open' close by (auto split: prod.splits)
  have "calm False u" "pending False u = mset (cmds_of (buff_cmds j ?buff ?ks))"
    using idle WbKill_buff_cmds [of j ?buff ?ks] by (auto simp: u calm_def pending_def)
  then obtain ys where ys: "mset ys = mset (cmds_of (buff_cmds j ?buff ?ks))" "view (redis t) = fold redis_upd ys (view (redis s))"
    using drained [OF db run(1) _ run(2)] u by (metis closed_queue(4))
  have buffered: "eId (pEnvelope p) = i" "i \<noteq> ?h" "(i, p) \<in> set ?buff" if "map_of ?buff i = Some p" for i p
    using map_of_SomeD [OF that] inv ids by (auto simp: session_inv_def)
  have set_ys: "set ys = (\<Union>k\<in>set ?ks. case map_of ?buff k of None \<Rightarrow> {}
      | Some p \<Rightarrow> {HSET ?h k (ToJson p), SETEX k OFFLINE_EXPIRED (ToJson p)})"
    unfolding set_of_mset [OF ys(1)] buff_cmds_of
    by (rule SUP_cong) (use buffered(1) in \<open>auto split: option.splits\<close>)
  have "\<forall>c\<in>set ys. stores ?h ?f c"
    using buffered(2) by (auto simp: set_ys stores_def OFFLINE_EXPIRED_def split: option.splits)
  then have "hash_of (view (redis t)) ?h =
      (\<lambda>i. if ?f i \<noteq> None \<and> HSET ?h i (the (?f i)) \<in> set ys then ?f i else hash_of (view (redis s)) ?h i)"
    using stores_any_order [OF _ box] ys(2) by simp
  moreover have "HSET ?h i (ToJson p) \<in> set ys" if "map_of ?buff i = Some p" for i p
  proof -
    have "i \<in> set ?ks" using buffered(3) [OF that] order by force
    then show ?thesis using that by (auto simp: set_ys intro!: bexI [of _ i])
  qed
  ultimately show ?thesis
    by (auto simp: mailbox_def map_of_map map_add_def fun_eq_iff split: option.splits)
qed

definition working :: "Session \<Rightarrow> mem \<Rightarrow> mem sess_state" where
  "working S db = (sample_state db S)\<lparr>wk := [new_worker 1], wk4s := [new_worker 1]\<rparr>"

lemma working_parts [simp]:
  "me (working S db) = S" "redis (working S db) = db" "workers b (working S db) = [new_worker 1]" "wqueue b (working S db) = []"
  "wbClosed (working S db) = False" "calm b (working S db)" "pending b (working S db) = {#}"
  by (simp_all add: working_def workers_def wqueue_def calm_def pending_def)

lemma buffered_inv: "session_inv (sample_session\<lparr>pkgBuff := [(''m1'', chat_packet)]\<rparr>)"
  by (simp add: session_inv_def addressed_def sample_jid)

theorem unacked_packets_survive_witness:
  "\<exists>u t. CloseSession sample_senv (working (sample_session\<lparr>pkgBuff := [(''m1'', chat_packet)]\<rparr>) empty_mem) = Ret () u \<and>
     wb_run sample_senv False u t \<and> pending False t = {#} \<and>
     mailbox (mem_view (redis t)) \<lparr>user = ''a'', domain = ''b'', resource = []\<rparr> ''m1'' = Some (ToJson chat_packet)"
proof -
  let ?S = "sample_session\<lparr>pkgBuff := [(''m1'', chat_packet)]\<rparr>" and ?j = "\<lparr>user = ''a'', domain = ''b'', resource = []\<rparr>"
  let ?u = "closed_state sample_senv ?j (new_conn TCP) (working ?S empty_mem)"
  have u: "CloseSession sample_senv (working ?S empty_mem) = Ret () ?u"
    by (rule CloseSession_runs) (use buffered_inv in \<open>simp_all add: sample_jid not_4s_m1\<close>)
  obtain t where t: "wb_run sample_senv False ?u t" "pending False t = {#}"
    using drain_exists [OF mem_db.redis_db_axioms, of False ?u 0] WbKill_buff_cmds by (auto simp: calm_def)
  have "mailbox (mem_view (redis t)) ?j = mailbox (mem_view (redis (working ?S empty_mem))) ?j ++
      map_of (map (\<lambda>(i, p). (i, ToJson p)) (pkgBuff (me (working ?S empty_mem))))"
    by (rule unacked_packets_survive [OF mem_db.redis_db_axioms _ _ _ _ _ _ _ _ _ u t])
      (use buffered_inv in \<open>simp_all add: sample_jid not_4s_m1 empty_mem_def mis_str_def OFFLINE_PERFIX_def\<close>)
  with u t show ?thesis by auto
qed

subsection \<open>Reading the mailbox\<close>

lemma list_bytes_bulk: "list_bytes (map RBulk xs) = Inr xs"
  by (induction xs) (simp_all add: Bytes_def)

lemma GetByIdx_values:
  assumes "redis_db E view" "\<not> is_str (view (redis s)) (i @ IDX_SUFFIX)"
  shows "\<exists>xs r. GetByIdx E i s = Ret (Inr xs) (s\<lparr>redis := r\<rparr>) \<and> view r = view (redis s) \<and>
    set xs = ran (hash_of (view (redis s)) (i @ IDX_SUFFIX))"
proof -
  let ?h = "i @ IDX_SUFFIX" let ?m = "hash_of (view (redis s)) ?h"
  obtain a r where a: "executeDirect E (HVALS ?h) s = Ret a (s\<lparr>redis := r\<rparr>)" "view r = view (redis s)"
      "redis_reply (HVALS ?h) (view (redis s)) a"
    by (rule redis_db.run_cmd [OF assms(1), of "HVALS ?h" s]) simp
  then obtain ks where ks: "set ks = dom ?m" "a = RArray (map (\<lambda>k. RBulk (the (?m k))) ks)" using assms(2) by auto
  have "ListBytes a = Inr (map (\<lambda>k. the (?m k)) ks)"
    using list_bytes_bulk [of "map (\<lambda>k. the (?m k)) ks"] by (simp add: ks(2) ListBytes_def comp_def)
  moreover have "set (map (\<lambda>k. the (?m k)) ks) = ran ?m"
    using ks(1) by (force simp: ran_def dom_def image_def)
  ultimately show ?thesis using a by (auto simp: GetByIdx_def bindM_Ret_step returnM_def)
qed

lemma offline_packets_sets:
  "set (fst (offline_packets fl ds)) = {b. \<exists>d\<in>set ds. NewBasePacket fl d = Inr b}"
  "snd (offline_packets fl ds) = map (\<lambda>b. eId (pEnvelope b)) (fst (offline_packets fl ds))"
  by (induction ds) (auto split: sum.splits prod.splits)

text \<open>
  C23: A login reads the whole mailbox: the packets \<open>fetchOfflinePacket\<close> returns are exactly
  the readable messages in it, and the list of ids, which an acknowledgement of the login
  deletes, names exactly these packets.
\<close>

theorem fetchOfflinePacket_complete:
  assumes "redis_db E view" "NewJID (Jid (st (me s))) = Inr j" "\<not> is_str (view (redis s)) (mailbox_key j)"
  shows "\<exists>pks ids t. fetchOfflinePacket E s = Ret (Inr (pks, ids)) t \<and>
    set pks = {b. \<exists>i d. mailbox (view (redis s)) j i = Some d \<and> NewBasePacket (float_json E) d = Inr b} \<and>
    ids = map (\<lambda>b. eId (pEnvelope b)) pks"
proof -
  obtain xs r where r: "GetByIdx E (offline_key j) s = Ret (Inr xs) (s\<lparr>redis := r\<rparr>)" "set xs = ran (mailbox (view (redis s)) j)"
    using GetByIdx_values [OF assms(1)] assms(3) unfolding mailbox_def by (metis append_assoc)
  have "fetchOfflinePacket E s = Ret (Inr (offline_packets (float_json E) xs)) (s\<lparr>redis := r\<rparr>)"
    using r(1) assms(2) by (simp add: fetchOfflinePacket_def steps NewJID_Inr_ptr bindM_Ret_step returnM_def)
  moreover have "set (fst (offline_packets (float_json E) xs)) =
      {b. \<exists>i d. mailbox (view (redis s)) j i = Some d \<and> NewBasePacket (float_json E) d = Inr b}"
    unfolding offline_packets_sets r(2) by (auto simp: ran_def)
  ultimately show ?thesis
    using offline_packets_sets(2) [of "float_json E" xs] by (cases "offline_packets (float_json E) xs") auto
qed

definition stored_packet :: BasePacket where
  "stored_packet = \<lparr>pEnvelope = zero_Envelope\<lparr>eId := ''m1'', eFrom := ''c@d'', eTo := ''a@b'', eType := 1\<rparr>,
     pPayload = None, pEntity = None, pVsn = []\<rparr>"

definition stored_bytes :: bytes where
  "stored_bytes = marshal (JObj (base_fields stored_packet))"

lemma stored_read: "NewBasePacket Some stored_bytes = Inr stored_packet"
  unfolding stored_bytes_def
  by (rule NewBasePacket_reads)
    (simp add: wf_base_def stored_packet_def zero_Envelope_def wf_envelope_def utf8_ok_ascii)

definition mail_mem :: mem where
  "mail_mem = \<lparr>mstrs = [], mhashes = [(''offline_a@b_idx'', [(''m1'', stored_bytes)])]\<rparr>"

lemma mail_mem_view: "mem_view mail_mem ''offline_a@b_idx'' = Some (VHash [''m1'' \<mapsto> stored_bytes])"
  by (simp add: mem_view_def mail_mem_def)

theorem fetchOfflinePacket_complete_witness:
  "\<exists>pks ids t. fetchOfflinePacket sample_senv (sample_state mail_mem sample_session) = Ret (Inr (pks, ids)) t \<and>
     stored_packet \<in> set pks \<and> ''m1'' \<in> set ids"
proof -
  have "mailbox (mem_view mail_mem) \<lparr>user = ''a'', domain = ''b'', resource = []\<rparr> ''m1'' = Some stored_bytes"
    using mail_mem_view by (simp add: mailbox_def hash_of_def bare_def OFFLINE_PERFIX_def IDX_SUFFIX_def)
  then have *: "stored_packet \<in> {b. \<exists>i d. mailbox (mem_view mail_mem) \<lparr>user = ''a'', domain = ''b'', resource = []\<rparr> i = Some d \<and>
      NewBasePacket (float_json sample_senv) d = Inr b}"
    using stored_read by (auto simp: sample_senv_def sample_env_def)
  have "\<exists>pks ids t. fetchOfflinePacket sample_senv (sample_state mail_mem sample_session) = Ret (Inr (pks, ids)) t \<and>
    set pks = {b. \<exists>i d. mailbox (mem_view (redis (sample_state mail_mem sample_session))) \<lparr>user = ''a'', domain = ''b'', resource = []\<rparr> i = Some d \<and>
      NewBasePacket (float_json sample_senv) d = Inr b} \<and> ids = map (\<lambda>b. eId (pEnvelope b)) pks"
    by (rule fetchOfflinePacket_complete [OF mem_db.redis_db_axioms]) (simp_all add: sample_jid mis_str_def mail_mem_def)
  then obtain pks ids t where "fetchOfflinePacket sample_senv (sample_state mail_mem sample_session) = Ret (Inr (pks, ids)) t"
      "stored_packet \<in> set pks" "ids = map (\<lambda>b. eId (pEnvelope b)) pks"
    using * unfolding sample_parts by blast
  moreover have "eId (pEnvelope stored_packet) = ''m1''" by (simp add: stored_packet_def)
  ultimately show ?thesis by (metis image_eqI list.set_map)
qed

subsection \<open>Acknowledging the messages of a login\<close>

definition ack_cmds :: "JID \<Rightarrow> string list \<Rightarrow> writeBufArgs list" where
  "ack_cmds j ids = concat (map (\<lambda>i. [Wb (HDEL (mailbox_key j) i), Wb (DEL i)]) ids)"

lemma ack_loop:
  assumes "\<forall>i\<in>set ids. \<not> is4s i" "\<not> wbClosed s"
  shows "forM ids (\<lambda>i. seqM (DeleteByIdxKey (offline_key j) i) (returnM ())) s = Ret () (s\<lparr>wbCh := wbCh s @ ack_cmds j ids\<rparr>)"
  using assms
proof (induction ids arbitrary: s)
  case (Cons i ids)
  let ?s = "s\<lparr>wbCh := wbCh s @ [Wb (HDEL (mailbox_key j) i), Wb (DEL i)]\<rparr>"
  have "seqM (DeleteByIdxKey (offline_key j) i) (returnM ()) s = Ret () ?s"
    using Cons.prems by (simp add: DeleteByIdxKey_def Delete_def execute_def go_defs)
  moreover have "forM ids (\<lambda>i. seqM (DeleteByIdxKey (offline_key j) i) (returnM ())) ?s = Ret () (?s\<lparr>wbCh := wbCh ?s @ ack_cmds j ids\<rparr>)"
    using Cons by simp
  ultimately show ?case by (simp add: seqM_Ret_step ack_cmds_def)
qed (simp add: returnM_def ack_cmds_def)

lemma ack_cmds_of: "set (cmds_of (ack_cmds j ids)) = (\<Union>i\<in>set ids. {HDEL (mailbox_key j) i, DEL i})" "WbKill \<notin> set (ack_cmds j ids)"
  by (induction ids) (auto simp: ack_cmds_def)

text \<open>
  C24: Acknowledging the login empties the mailbox of what was delivered and of nothing
  else: after the acknowledgement and once the queue workers are done, in any order, the
  messages listed for that login are gone and all others are still there.
\<close>

theorem offline_ack_deletes:
  assumes db: "redis_db E view" and st: "NewJID (Jid (st (me s))) = Inr j" and ids: "ofl_cache s (eId (pEnvelope p)) = Some ids"
    and ok: "\<forall>i\<in>set ids. \<not> is4s i \<and> i \<noteq> mailbox_key j" "\<not> wbClosed s"
    and idle: "calm False s" "pending False s = {#}" and box: "\<not> is_str (view (redis s)) (mailbox_key j)"
    and ack: "serverAck p s = Ret () u" and run: "wb_run E False u t" "pending False t = {#}"
  shows "mailbox (view (redis t)) j = (\<lambda>i. if i \<in> set ids then None else mailbox (view (redis s)) j i)"
proof -
  have u: "u = s\<lparr>wbCh := wbCh s @ ack_cmds j ids\<rparr>"
    using ack ok ack_loop [of ids s j] st ids
    by (simp add: serverAck_def steps NewJID_Inr_ptr ofl_get_def)
  have "wqueue False u = wqueue False s @ ack_cmds j ids" "workers False u = workers False s" "redis u = redis s"
    by (simp_all add: u wqueue_def workers_def)
  then have "calm False u" "pending False u = mset (cmds_of (ack_cmds j ids))" "redis u = redis s"
    using idle ack_cmds_of(2) by (auto simp: calm_def pending_def)
  then obtain ys where ys: "mset ys = mset (cmds_of (ack_cmds j ids))" "view (redis t) = fold redis_upd ys (view (redis s))"
    using drained [OF db run(1) _ run(2)] by metis
  have set_ys: "set ys = (\<Union>i\<in>set ids. {HDEL (mailbox_key j) i, DEL i})"
    unfolding set_of_mset [OF ys(1)] by (rule ack_cmds_of)
  then have "\<forall>c\<in>set ys. deletes (mailbox_key j) c" using ok(1) by (auto simp: deletes_def)
  from deletes_any_order [OF this box] show ?thesis by (auto simp: mailbox_def ys(2) set_ys fun_eq_iff)
qed

lemma ack_sample_run:
  "serverAck chat_packet ((working sample_session mail_mem)\<lparr>ofl_cache := [''m1'' \<mapsto> [''m1'']]\<rparr>) =
     Ret () ((working sample_session mail_mem)\<lparr>ofl_cache := [''m1'' \<mapsto> [''m1'']],
       wbCh := ack_cmds \<lparr>user = ''a'', domain = ''b'', resource = []\<rparr> [''m1'']\<rparr>)"
  using ack_loop [of "[''m1'']" "(working sample_session mail_mem)\<lparr>ofl_cache := [''m1'' \<mapsto> [''m1'']]\<rparr>"
      "\<lparr>user = ''a'', domain = ''b'', resource = []\<rparr>"]
  by (simp add: serverAck_def steps NewJID_Inr_ptr sample_jid ofl_get_def not_4s_m1) (simp add: working_def)

theorem offline_ack_deletes_witness:
  "\<exists>u t. serverAck chat_packet ((working sample_session mail_mem)\<lparr>ofl_cache := [''m1'' \<mapsto> [''m1'']]\<rparr>) = Ret () u \<and>
     wb_run sample_senv False u t \<and> mailbox (mem_view (redis t)) \<lparr>user = ''a'', domain = ''b'', resource = []\<rparr> ''m1'' = None"
proof -
  let ?s = "(working sample_session mail_mem)\<lparr>ofl_cache := [''m1'' \<mapsto> [''m1'']]\<rparr>" and ?j = "\<lparr>user = ''a'', domain = ''b'', resource = []\<rparr>"
  let ?u = "?s\<lparr>wbCh := ack_cmds ?j [''m1'']\<rparr>"
  have u: "workers False ?u = [new_worker 1]" "wqueue False ?u = ack_cmds ?j [''m1'']" "calm False ?s" "pending False ?s = {#}"
    by (simp_all add: working_def workers_def wqueue_def calm_def pending_def)
  obtain t where t: "wb_run sample_senv False ?u t" "pending False t = {#}"
    using drain_exists [OF mem_db.redis_db_axioms, of False ?u 0] ack_cmds_of(2) u by (auto simp: calm_def)
  have "mailbox (mem_view (redis t)) ?j = (\<lambda>i. if i \<in> set [''m1''] then None else mailbox (mem_view (redis ?s)) ?j i)"
    by (rule offline_ack_deletes [OF mem_db.redis_db_axioms _ _ _ _ u(3,4) _ _ t])
      (use ack_sample_run in \<open>simp_all add: sample_jid not_4s_m1 OFFLINE_PERFIX_def mis_str_def mail_mem_def\<close>)
  with t(1) ack_sample_run show ?thesis by auto
qed

subsection \<open>Logging in again\<close>

lemma unregister_cmds_of:
  "Status x = STATUS_LOGIN \<Longrightarrow> cmds_of (unregister_cmds x j) = [HDEL (Nodeid x @ IDX_SUFFIX) (session_key j), DEL (session_key j)]"
  "WbKill \<notin> set (unregister_cmds x j)"
  by (simp_all add: unregister_cmds_def)

lemma deleted_any_order:
  assumes "\<forall>c\<in>set ys. c = HDEL h k \<or> c = DEL k"
  shows "str_at (fold redis_upd ys v) = (if DEL k \<in> set ys then (str_at v)(k := None) else str_at v)"
  using assms
proof (induction ys arbitrary: v)
  case (Cons c ys)
  have c: "c = HDEL h k \<or> c = DEL k" "\<forall>c\<in>set ys. c = HDEL h k \<or> c = DEL k" using Cons.prems by auto
  have "str_at (redis_upd c v) = (if c = DEL k then (str_at v)(k := None) else str_at v)"
    using c(1) str_at_HDEL by (auto simp del: redis_upd.simps(5))
  then show ?case using Cons.IH [OF c(2), of "redis_upd c v"] by (auto simp del: redis_upd.simps)
qed simp

text \<open>
  C11: Closing implements \<^emph>\<open>unregister\<close>: when a session of a user who is logged in is closed
  and the session workers have done their work, in any order, the user is no longer
  registered and all other users are registered as before.  The deletion names the user,
  not the session: it also removes the entry of a newer session of the same user, for
  instance of the one whose login caused the close.
\<close>

theorem CloseSession_unregisters:
  assumes db: "redis_db E view" and inv: "session_inv (me s)" and st: "Status (st (me s)) = STATUS_LOGIN" "NewJID (Jid (st (me s))) = Inr j"
    and ids: "\<forall>(i, p)\<in>set (pkgBuff (me s)). \<not> is4s i" and open': "\<not> wbClosed s" and idle: "calm True s" "pending True s = {#}"
    and close: "CloseSession E s = Ret () u" and run: "wb_run E True u t" "pending True t = {#}"
  shows "registry (view (redis t)) = (registry (view (redis s)))(bare j := None)"
proof -
  obtain c where c: "sc (me s) = Some c" using inv by (auto simp: session_inv_def)
  have u: "u = closed_state E j c s"
    using CloseSession_runs [OF inv _ c, of j E] st ids open' close by (auto split: prod.splits)
  let ?ys = "cmds_of (unregister_cmds (st (me s)) j)"
  have "calm True u" "pending True u = mset ?ys" "redis u = redis s"
    using idle unregister_cmds_of(2) by (auto simp: u calm_def pending_def)
  then obtain ys where ys: "mset ys = mset ?ys" "view (redis t) = fold redis_upd ys (view (redis s))"
    using drained [OF db run(1) _ run(2)] by metis
  have "set ys = {HDEL (Nodeid (st (me s)) @ IDX_SUFFIX) (session_key j), DEL (session_key j)}"
    using set_of_mset [OF ys(1)] unregister_cmds_of(1) [OF st(1), of j] by simp
  then have "str_at (view (redis t)) = (str_at (view (redis s)))(session_key j := None)"
    using deleted_any_order [of ys "Nodeid (st (me s)) @ IDX_SUFFIX" "session_key j"] ys(2) by auto
  then show ?thesis by (auto simp: registry_def fun_eq_iff)
qed

definition newer_mem :: mem where
  "newer_mem = \<lparr>mstrs = [(''session_a@b'', status_ToJson online_status)], mhashes = []\<rparr>"

lemma newer_registry: "registry (mem_view newer_mem) ''a@b'' = Some online_status"
  using SessionStatus_reads [OF wf_online_status]
  by (simp add: registry_def newer_mem_def str_at_def mem_view_def SESSION_PERFIX_def)

theorem CloseSession_unregisters_witness:
  "registry (mem_view newer_mem) ''a@b'' = Some online_status \<and> Sid online_status \<noteq> Sid (st sample_session) \<and>
   (\<exists>u t. CloseSession sample_senv (working sample_session newer_mem) = Ret () u \<and> wb_run sample_senv True u t \<and>
     registry (mem_view (redis t)) ''a@b'' = None)"
proof -
  let ?j = "\<lparr>user = ''a'', domain = ''b'', resource = []\<rparr>" and ?s = "working sample_session newer_mem"
  let ?u = "closed_state sample_senv ?j (new_conn TCP) ?s"
  have u: "CloseSession sample_senv ?s = Ret () ?u"
    by (rule CloseSession_runs) (use session_inv_sample in \<open>simp_all add: sample_jid\<close>)
  obtain t where t: "wb_run sample_senv True ?u t" "pending True t = {#}"
    using drain_exists [OF mem_db.redis_db_axioms, of True ?u 0] unregister_cmds_of(2) by (auto simp: calm_def)
  have "registry (mem_view (redis t)) = (registry (mem_view (redis ?s)))(bare ?j := None)"
    by (rule CloseSession_unregisters [OF mem_db.redis_db_axioms _ _ _ _ _ _ _ u t])
      (use session_inv_sample in \<open>simp_all add: sample_jid\<close>)
  moreover have "Sid online_status \<noteq> Sid (st sample_session)"
    by (simp add: online_status_def sample_session_def fresh_session_def)
  ultimately show ?thesis using u t newer_registry by (auto simp: bare_def)
qed

end
