(* ===== verification/Node_Run.thy ===== *)
theory Node_Run
  imports Node_Inv Mailbox
begin

text \<open>
  The parts of a node working together: a packet on its way from the sender's session
  through the router to the recipient's connection, the cleaner catching up with closed
  sessions, a login of a user who is online on another node, and the shutdown.
\<close>

subsection \<open>Delivery within a node\<close>

lemma on_session_Ret:
  "heap s a = Some S \<Longrightarrow> op (s\<lparr>me := S\<rparr>) = Ret x t \<Longrightarrow> on_session a op s = Ret x (store_me a t)"
  by (simp add: on_session_def)

text \<open>A packet on the router's queue reaches the connection of the session it names.\<close>

lemma router_delivers:
  assumes b: "heap s b = Some T" "Status (st T) = STATUS_LOGIN" "NewJID (Jid (st T)) = Inr j" "sc T = Some c"
    and p: "NewJID (eTo (pEnvelope p)) = Inr k" "bare k = bare j"
    and x: "Channel x = [] \<or> Channel x = chan_id s" "sessionMap s (Sid x) = Some b"
    and q: "routerItemCh s = packet_item x p # q"
  shows "\<exists>t. router_worker E s = Ret () t \<and> routerItemCh t = q \<and> redis t = redis s \<and>
    heap t = (heap s)(b \<mapsto> T\<lparr>pkgBuff := aupd (eId (pEnvelope p)) p (pkgBuff T), sc := Some (after_send (ToJson p) c)\<rparr>)"
proof -
  let ?s = "s\<lparr>routerItemCh := q, me := T\<rparr>"
  have "RoutePacket E p ?s = seqM (pkgBuffWrite ''add'' (ArgPacket p)) (seqM (SendMessage (ToJson p)) (returnM ())) ?s"
    using b p by (simp add: RoutePacket_login NewJID_Inr_ptr EqualWithoutResource_Some)
  then obtain w where w: "RoutePacket E p ?s = Ret () (?s\<lparr>m_write := w,
      me := T\<lparr>pkgBuff := aupd (eId (pEnvelope p)) p (pkgBuff T), sc := Some (after_send (ToJson p) c)\<rparr>\<rparr>)"
    using deliver_run [of ?s c p] b(4) by auto
  have "router_worker E s = on_session b (RoutePacket E p) (s\<lparr>routerItemCh := q\<rparr>)"
    using q x by (auto simp: router_worker_def route_item_def GetChannel_def fetchSession_def packet_item_def deref_packet_def steps)
  also have "\<dots> = Ret () (store_me b (?s\<lparr>m_write := w,
      me := T\<lparr>pkgBuff := aupd (eId (pEnvelope p)) p (pkgBuff T), sc := Some (after_send (ToJson p) c)\<rparr>\<rparr>))"
    using b(1) w by (intro on_session_Ret) simp_all
  finally show ?thesis by (simp add: store_me_def)
qed


subsection \<open>The cleaner\<close>

text \<open>\<open>n\<close> rounds of the cleaner.\<close>

primrec sweeps :: "nat \<Rightarrow> ('r, 'z, unit) node_op" where
  "sweeps 0 = returnM ()"
| "sweeps (Suc n) = seqM node_clean (sweeps n)"

lemma sweeps_run:
  "n = length (clean s) \<Longrightarrow>
   sweeps n s = Ret () (s\<lparr>clean := [], sessionMap := (\<lambda>sid. if sid \<in> set (clean s) then None else sessionMap s sid)\<rparr>)"
proof (induction n arbitrary: s)
  case 0
  then show ?case by (simp add: returnM_def)
next
  case (Suc n)
  then obtain x xs where x: "clean s = x # xs" by (metis length_Suc_conv)
  let ?t = "s\<lparr>clean := xs, sessionMap := (sessionMap s)(x := None)\<rparr>"
  have "node_clean s = Ret () ?t" using x by (simp add: node_clean_def)
  then have "sweeps (Suc n) s = sweeps n ?t" by (simp add: seqM_Ret_step)
  moreover have "(\<lambda>sid. if sid \<in> set xs then None else ((sessionMap s)(x := None)) sid) =
      (\<lambda>sid. if sid \<in> set (x # xs) then None else sessionMap s sid)"
    by auto
  ultimately show ?case using Suc.IH [of ?t] Suc.prems x by (simp cong: if_cong)
qed

text \<open>
  C15: The cleaner catches up.  In a state with the node's invariant, as many rounds of the
  cleaner as there are ids on its list empty the list; they remove exactly the closed
  sessions from the table: afterwards every session in the table is open, and no open
  session has been lost.
\<close>

theorem cleaner_catches_up:
  fixes s :: "('r, 'z) node_state_scheme"
  assumes "node_inv F s"
  shows "\<exists>t. sweeps (length (clean s)) s = Ret () t \<and> clean t = [] \<and> heap t = heap s \<and>
    (\<forall>sid a. sessionMap t sid = Some a \<longleftrightarrow>
       (\<exists>S. heap s a = Some S \<and> Sid (st S) = sid \<and> Status (st S) \<noteq> STATUS_CLOSE))"
proof -
  let ?t = "s\<lparr>clean := [], sessionMap := (\<lambda>sid. if sid \<in> set (clean s) then None else sessionMap s sid)\<rparr>"
  have tb: "table_ok s" and cl: "cleaner_ok s" using assms by (simp_all add: node_inv_def)
  have "sessionMap ?t sid = Some a \<longleftrightarrow> (\<exists>S. heap s a = Some S \<and> Sid (st S) = sid \<and> Status (st S) \<noteq> STATUS_CLOSE)" for sid a
  proof
    assume "sessionMap ?t sid = Some a"
    then have m: "sid \<notin> set (clean s)" "sessionMap s sid = Some a" by (simp_all split: if_splits)
    then obtain S where "heap s a = Some S" "Sid (st S) = sid" using tb by (auto simp: table_ok_def)
    then show "\<exists>S. heap s a = Some S \<and> Sid (st S) = sid \<and> Status (st S) \<noteq> STATUS_CLOSE"
      using cl m by (auto simp: cleaner_ok_def)
  next
    assume "\<exists>S. heap s a = Some S \<and> Sid (st S) = sid \<and> Status (st S) \<noteq> STATUS_CLOSE"
    then obtain S where S: "heap s a = Some S" "Sid (st S) = sid" "Status (st S) \<noteq> STATUS_CLOSE" by blast
    then have "sid \<notin> set (clean s)" using cl unfolding cleaner_ok_def by blast
    moreover have "sessionMap s sid = Some a" using tb S unfolding table_ok_def by blast
    ultimately show "sessionMap ?t sid = Some a" by simp
  qed
  then show ?thesis using sweeps_run [of "length (clean s)" s] by (intro exI [of _ ?t]) simp
qed

subsection \<open>A user who is online on another node\<close>

interpretation same_chan_close: keeps_close "\<lambda>s :: ('r, 'z) rpc_state_scheme. chan_id s = ch" for ch
  by unfold_locales simp_all

interpretation same_chan: keeps_session "\<lambda>s :: ('r, 'z) rpc_state_scheme. chan_id s = ch" E for ch and E :: "('r, 'e) senv"
  by unfold_locales simp_all

text \<open>
  C32: A login ends the process of the node if the user is online on another node.  The
  request to stop the registered session is put on the router's queue without a packet;
  for a session of another node the router worker asks this packet for its JSON, which
  panics, and nothing recovers the panic.  The login need not be successful.
\<close>

theorem login_elsewhere_crashes_node:
  fixes s :: "('r, 'z) node_state_scheme"
  assumes db: "redis_db E view" and a: "heap s a = Some S" and q: "routerItemCh s = []"
    and p: "NewPacket p = Inr packet" "eType (pEnvelope packet) = MSG_TYPE_OPEN_SESSION" "NewJID (eJid (pEnvelope packet)) = Inr j"
    and x: "registry (view (redis s)) (bare j) = Some x" "Channel x \<noteq> []" "Channel x \<noteq> chan_id s"
    and S: "Status (st S) = STATUS_CONN"
  shows "\<exists>t. router_worker E (state_of (on_session a (openSession E p) s)) = Panic NilDeref t"
proof -
  let ?s = "s\<lparr>me := S\<rparr>" and ?u = "state_of (on_session a (openSession E p) s)"
  have u: "?u = store_me a (state_of (openSession E p ?s))"
    using a by (cases "openSession E p ?s") (simp_all add: on_session_def)
  have q: "routerItemCh ?u = [kill_item x]"
    using login_queue [OF db, of ?s p] q p x(1) by (simp add: u store_me_def ROUTER_QUEUE_SIZE_def)
  have "chan_id (state_of (openSession E p ?s)) = chan_id s"
    using same_chan.openSession_kept [of ?s "chan_id s" E p] S by simp
  then have "chan_id ?u = chan_id s" by (simp add: u store_me_def)
  then show ?thesis
    using q x by (simp add: router_worker_def route_item_def GetChannel_def kill_item_def deref_packet_def steps)
qed

subsection \<open>Shutdown\<close>

lemma close_one:
  fixes s :: "('r, 'z) node_state_scheme"
  assumes inv: "node_inv F s" and a: "heap s a = Some S"
  shows "\<exists>t S'. on_session a (CloseSession E) s = Ret () t \<and> node_inv F t \<and> sessionMap t = sessionMap s \<and>
    heap t = (heap s)(a \<mapsto> S') \<and> Status (st S') = STATUS_CLOSE"
proof -
  have "session_inv (me (s\<lparr>me := S\<rparr>))" using inv a by (simp add: node_inv_defs)
  then obtain u where u: "CloseSession E (s\<lparr>me := S\<rparr>) = Ret () u" using CloseSession_returns by blast
  have on: "on_session a (CloseSession E) s = Ret () (store_me a u)" by (rule on_session_Ret [where op = "CloseSession E", OF a u])
  have "node_inv F (store_me a u)"
    using keepsD [OF on_session_keeps [OF one_session_close] inv, of a E] on by simp
  moreover have "one_session (heap s) (next_addr s) (sessionMap s) (rand_n s) (clean s) (Sid (st S)) (Status (st S) = STATUS_CLOSE) u"
    using keepsD [OF one_session_close, of "heap s" "next_addr s" "sessionMap s" "rand_n s" "clean s" "Sid (st S)"
        "Status (st S) = STATUS_CLOSE" "s\<lparr>me := S\<rparr>" E] inv a u
    by (auto simp: one_session_def node_inv_defs)
  ultimately show ?thesis
    using on CloseSession_closes [OF u] by (auto simp: one_session_def store_me_def)
qed

lemma close_all:
  fixes s :: "('r, 'z) node_state_scheme"
  assumes "node_inv F s" "\<forall>k a. m k = Some a \<longrightarrow> heap s a \<noteq> None"
  shows "\<exists>t. forM ks (\<lambda>sid. case m sid of None \<Rightarrow> returnM () | Some a \<Rightarrow> on_session a (CloseSession E)) s = Ret () t \<and>
    node_inv F t \<and> sessionMap t = sessionMap s \<and> dom (heap t) = dom (heap s) \<and>
    (\<forall>a S. heap t a = Some S \<longrightarrow> Status (st S) = STATUS_CLOSE \<or> heap s a = Some S \<and> (\<forall>k\<in>set ks. m k \<noteq> Some a))"
  using assms
proof (induction ks arbitrary: s)
  case (Cons k ks)
  show ?case
  proof (cases "m k")
    case None
    then show ?thesis using Cons.IH [OF Cons.prems] by (auto simp: steps)
  next
    case (Some a)
    then obtain S where "heap s a = Some S" using Cons.prems(2) by auto
    from close_one [OF Cons.prems(1) this, of E] obtain u S'
      where u: "on_session a (CloseSession E) s = Ret () u" "node_inv F u" "sessionMap u = sessionMap s"
        "heap u = (heap s)(a \<mapsto> S')" "Status (st S') = STATUS_CLOSE"
      by blast
    have "\<forall>k a. m k = Some a \<longrightarrow> heap u a \<noteq> None" using Cons.prems(2) u(4) by simp
    from Cons.IH [OF u(2) this] obtain t
      where t: "forM ks (\<lambda>sid. case m sid of None \<Rightarrow> returnM () | Some a \<Rightarrow> on_session a (CloseSession E)) u = Ret () t"
        "node_inv F t" "sessionMap t = sessionMap u" "dom (heap t) = dom (heap u)"
        "\<forall>a S. heap t a = Some S \<longrightarrow> Status (st S) = STATUS_CLOSE \<or> heap u a = Some S \<and> (\<forall>k\<in>set ks. m k \<noteq> Some a)"
      by blast
    have "Status (st R) = STATUS_CLOSE \<or> heap s b = Some R \<and> (\<forall>k\<in>set (k # ks). m k \<noteq> Some b)" if "heap t b = Some R" for b R
      using t(5) that u(4,5) Some by (cases "b = a") force+
    then show ?thesis using t u Some \<open>heap s a = Some S\<close> by (auto simp: seqM_Ret_step)
  qed
qed (simp add: returnM_def)

interpretation stopped: keeps_close "\<lambda>s :: ('r, 'z) node_state_scheme. listeners s = [] \<and> acceptClosed s"
  by unfold_locales simp_all

lemma shutdown_run:
  fixes s :: "('r, 'z) node_state_scheme"
  assumes "node_inv F s" "\<forall>sid a. sessionMap s sid = Some a \<longrightarrow> sid \<in> set (map_order E sids)"
  shows "\<exists>t. shutdown E sids s = Ret () t \<and> (\<forall>a S. heap t a = Some S \<longrightarrow> Status (st S) = STATUS_CLOSE) \<and>
    dom (heap t) = dom (heap s) \<and> listeners t = [] \<and> acceptClosed t \<and> wbClosed t"
proof -
  let ?s = "s\<lparr>acceptClosed := True, listeners := []\<rparr>"
  have inv: "node_inv F ?s" using assms(1) by (simp add: node_inv_defs)
  have tb: "table_ok s" using assms(1) by (simp add: node_inv_def)
  then have "\<forall>k a. sessionMap s k = Some a \<longrightarrow> heap ?s a \<noteq> None" by (fastforce simp: table_ok_def)
  from close_all [OF inv this, of "map_order E sids" E] obtain u
    where u: "forM (map_order E sids) (\<lambda>sid. case sessionMap s sid of None \<Rightarrow> returnM () | Some a \<Rightarrow> on_session a (CloseSession E)) ?s = Ret () u"
      "dom (heap u) = dom (heap s)"
      "\<forall>a S. heap u a = Some S \<longrightarrow> Status (st S) = STATUS_CLOSE \<or> heap s a = Some S \<and> (\<forall>k\<in>set (map_order E sids). sessionMap s k \<noteq> Some a)"
    by auto
  have "Status (st S) = STATUS_CLOSE" if S: "heap u a = Some S" for a S
  proof (rule ccontr)
    assume open': "Status (st S) \<noteq> STATUS_CLOSE"
    then have "heap s a = Some S" "\<forall>k\<in>set (map_order E sids). sessionMap s k \<noteq> Some a" using u(3) S by blast+
    with tb open' assms(2) show False unfolding table_ok_def by blast
  qed
  moreover have "keeps (\<lambda>s :: ('r, 'z) node_state_scheme. listeners s = [] \<and> acceptClosed s)
      (forM (map_order E sids) (\<lambda>sid. case sessionMap s sid of None \<Rightarrow> returnM () | Some a \<Rightarrow> on_session a (CloseSession E)))"
    by (intro keeps_intros keeps_on_session stopped.keeps_CloseSession) simp_all
  from keepsD [OF this, of ?s] u(1) have "listeners u = []" "acceptClosed u" by simp_all
  moreover have "shutdown E sids s = db_Close u"
    using u(1) by (simp add: shutdown_def closeListener_def steps seqM_Ret_step)
  ultimately show ?thesis using db_Close_run [of u] u(2) by simp
qed


text \<open>Closing a session that is logged in leaves commands on the queue of the session workers.\<close>

interpretation queued: keeps_close "\<lambda>s :: ('r, 'z) node_state_scheme. wbCh4s s \<noteq> [] \<and> wk4s s = W" for W
  by unfold_locales simp_all

interpretation crew: keeps_close "\<lambda>s :: ('r, 'z) node_state_scheme. wk4s s = W" for W
  by unfold_locales simp_all

lemma close_queues:
  fixes s :: "('r, 'z) node_state_scheme"
  assumes inv: "node_inv F s" and a: "heap s a = Some S" "Status (st S) = STATUS_LOGIN"
  shows "wbCh4s (state_of (on_session a (CloseSession E) s)) \<noteq> []"
proof -
  let ?s = "s\<lparr>me := S\<rparr>" and ?rest = "seqM (bindM get_sc (\<lambda>c. set_sc (conn_Close c))) (pkgBuffToStore E)"
  have inv': "session_inv (me ?s)" using inv a by (simp add: node_inv_defs)
  obtain q where q: "CloseSession E ?s = ?rest (?s\<lparr>clean := clean s @ [Sid (st S)], wbCh4s := q, me := S\<lparr>st := (st S)\<lparr>Status := STATUS_CLOSE\<rparr>\<rparr>\<rparr>)"
      "q \<noteq> []"
    using CloseSession_marks [OF inv', of E] a(2) by (auto simp: status_distinct)
  obtain u where u: "CloseSession E ?s = Ret () u" using CloseSession_returns [OF inv'] by blast
  have "keeps (\<lambda>s :: ('r, 'z) node_state_scheme. wbCh4s s \<noteq> [] \<and> wk4s s = wk4s ?s) ?rest"
    by (intro keeps_intros queued.keeps_update_sc queued.keeps_pkgBuffToStore) simp
  from keepsD [OF this, of "?s\<lparr>clean := clean s @ [Sid (st S)], wbCh4s := q, me := S\<lparr>st := (st S)\<lparr>Status := STATUS_CLOSE\<rparr>\<rparr>\<rparr>"] q(2)
  have "wbCh4s (state_of (CloseSession E ?s)) \<noteq> []" unfolding q(1) by simp
  then have "wbCh4s u \<noteq> []" by (simp add: u)
  then show ?thesis using on_session_Ret [where op = "CloseSession E", OF a(1) u] by (simp add: store_me_def)
qed

lemma close_all_queues:
  fixes s :: "('r, 'z) node_state_scheme"
  assumes "node_inv F s" "\<forall>k a. m k = Some a \<longrightarrow> heap s a \<noteq> None" "heap s a = Some S" "Status (st S) = STATUS_LOGIN"
    and "k \<in> set ks" "m k = Some a"
  shows "wbCh4s (state_of (forM ks (\<lambda>sid. case m sid of None \<Rightarrow> returnM () | Some a \<Rightarrow> on_session a (CloseSession E)) s)) \<noteq> []"
  using assms
proof (induction ks arbitrary: s)
  case (Cons x ks)
  let ?f = "\<lambda>sid. case m sid of None \<Rightarrow> returnM () | Some a \<Rightarrow> on_session a (CloseSession E)"
  show ?case
  proof (cases "m x")
    case None
    then show ?thesis using Cons by (auto simp: steps)
  next
    case (Some b)
    then obtain B where B: "heap s b = Some B" using Cons.prems(2) by auto
    from close_one [OF Cons.prems(1) B, of E] obtain u S'
      where u: "on_session b (CloseSession E) s = Ret () u" "node_inv F u" "heap u = (heap s)(b \<mapsto> S')"
      by blast
    show ?thesis
    proof (cases "b = a")
      case True
      then have "wbCh4s u \<noteq> []" using close_queues [OF Cons.prems(1,3,4), of E] u(1) by simp
      moreover have "keeps (\<lambda>s :: ('r, 'z) node_state_scheme. wbCh4s s \<noteq> [] \<and> wk4s s = wk4s u) (forM ks ?f)"
        by (intro keeps_intros keeps_on_session queued.keeps_CloseSession) simp_all
      ultimately show ?thesis using keepsD [of _ "forM ks ?f" u] u(1) Some by (fastforce simp: seqM_Ret_step)
    next
      case False
      then have "k \<in> set ks" using Cons.prems(5,6) Some by auto
      moreover have "heap u a = Some S" "\<forall>k a. m k = Some a \<longrightarrow> heap u a \<noteq> None" using u(3) False Cons.prems(2,3) by auto
      ultimately show ?thesis using Cons.IH [OF u(2)] Cons.prems(4,6) u(1) Some by (simp add: seqM_Ret_step)
    qed
  qed
qed simp



subsection \<open>Examples\<close>

lemma sample_renv_db: "redis_db sample_renv mem_view"
  using mem_db.redis_db_axioms by (simp add: redis_db_def sample_renv_def sample_senv_def)

definition other_session :: Session where
  "other_session = sample_session\<lparr>st := online_status\<rparr>"

definition two_users :: "mem node_state" where
  "two_users = sample_node\<lparr>redis := busy_mem, heap := [0 \<mapsto> sample_session, 1 \<mapsto> other_session], next_addr := 2,
     sessionMap := [''s1'' \<mapsto> 0, ''s2'' \<mapsto> 1]\<rparr>"

lemma two_users_parts [simp]:
  "heap two_users = [0 \<mapsto> sample_session, 1 \<mapsto> other_session]" "redis two_users = busy_mem" "chan_id two_users = ''h:1''"
  "sessionMap two_users = [''s1'' \<mapsto> 0, ''s2'' \<mapsto> 1]" "routerItemCh two_users = []"
  "Status (st other_session) = STATUS_LOGIN" "Jid (st other_session) = ''c@d''" "sc other_session = Some (new_conn TCP)"
  "Channel online_status = ''h:1''" "Sid online_status = ''s2''" "pkgBuff other_session = []"
  by (simp_all add: two_users_def other_session_def sample_session_def fresh_session_def online_status_def sample_node_def
      rpc_state.defs node_state.defs sample_rstate_def sess_state.defs)


text \<open>A node with one session.\<close>

definition one_node :: "string \<Rightarrow> mem node_state" where
  "one_node status = sample_node\<lparr>rand_n := 1,
     heap := [0 \<mapsto> fresh_session\<lparr>st := (st fresh_session)\<lparr>Sid := uuid_text sample_renv 0, Status := status\<rparr>\<rparr>], next_addr := 1,
     sessionMap := [uuid_text sample_renv 0 \<mapsto> 0], clean := (if status = STATUS_CLOSE then [uuid_text sample_renv 0] else [])\<rparr>"

lemma one_node_inv: "status \<in> {STATUS_CONN, STATUS_CLOSE} \<Longrightarrow> node_inv sample_renv (one_node status)"
  by (auto simp: one_node_def node_inv_defs session_inv_def fresh_session_def status_distinct)

theorem cleaner_catches_up_witness:
  "\<exists>t. sweeps 1 (one_node STATUS_CLOSE) = Ret () t \<and> sessionMap t (uuid_text sample_renv 0) = None"
proof -
  obtain t where t: "sweeps (length (clean (one_node STATUS_CLOSE))) (one_node STATUS_CLOSE) = Ret () t"
    "\<forall>sid a. sessionMap t sid = Some a \<longleftrightarrow>
       (\<exists>S. heap (one_node STATUS_CLOSE) a = Some S \<and> Sid (st S) = sid \<and> Status (st S) \<noteq> STATUS_CLOSE)"
    using cleaner_catches_up [OF one_node_inv, of STATUS_CLOSE] by auto
  have "sessionMap t (uuid_text sample_renv 0) \<noteq> Some a" for a using t(2) by (auto simp: one_node_def split: if_splits)
  then show ?thesis using t(1) by (simp add: one_node_def) (metis not_None_eq)
qed


definition user_node :: "mem node_state" where
  "user_node = (one_node STATUS_CONN)\<lparr>wk4s := [new_worker 1],
     heap := [0 \<mapsto> fresh_session\<lparr>st := (st fresh_session)\<lparr>Sid := uuid_text sample_renv 0, Jid := ''a@b'', Status := STATUS_LOGIN\<rparr>\<rparr>]\<rparr>"

lemma user_node_inv: "node_inv sample_renv user_node"
  by (auto simp: user_node_def one_node_def node_inv_defs session_inv_def fresh_session_def status_distinct sample_jid)


theorem login_elsewhere_crashes_node_witness:
  "\<exists>t. router_worker sample_renv (state_of (on_session 0 (openSession sample_renv login_bytes)
     (two_users\<lparr>heap := [0 \<mapsto> fresh_session], chan_id := ''h:9''\<rparr>))) = Panic NilDeref t"
  by (rule login_elsewhere_crashes_node [OF sample_renv_db, of _ 0 fresh_session, where
        packet = "zero_Packet\<lparr>pEnvelope := pEnvelope login_packet, raw := Some login_bytes\<rparr>" and
        j = "\<lparr>user = ''c'', domain = ''d'', resource = []\<rparr>" and x = online_status])
    (simp_all add: login_bytes_read login_parts sample_jid bare_def busy_registry fresh_session_def zero_status_def)

end
