(* ===== verification/Service.thy ===== *)
theory Service
  imports Mailbox
begin

text \<open>
  The HTTP service for other applications (\<^verbatim>\<open>service/*.go\<close>): reloading the members of a
  group, counting the users who are online, asking for one user, and the check of the
  access token.  The HTTP server that calls these methods is a library; it hands a method
  the decoded JSON parameters.
\<close>

subsection \<open>Parameters and answers\<close>

text \<open>
  The parameters are dynamically typed: \<open>None\<close> stands for a value that is not a JSON
  object.  A member is a string, or another value with the text that the verb \<open>%s\<close> prints
  for it.
\<close>

datatype param = PString string | POther string

type_synonym params = "(string \<rightharpoonup> param) option"

fun sprint_s :: "param \<Rightarrow> string" where
  "sprint_s (PString x) = x"
| "sprint_s (POther x) = x"

datatype entity = Reason string | Counters "(string \<times> int) list"

record Answer =
  sSuccess :: bool
  sEntity :: "entity option"

definition SuccessFalse :: "string \<Rightarrow> Answer" where
  "SuccessFalse reason = \<lparr>sSuccess = False, sEntity = Some (Reason reason)\<rparr>"

subsection \<open>The methods\<close>

definition Reload :: "params \<Rightarrow> ('r, 'z, Answer) db_op" where
  "Reload params =
     (case params of
        None \<Rightarrow> liftM (Inl TypeAssertion)
      | Some p \<Rightarrow>
          (case p ''gid'' of
             None \<Rightarrow> returnM (SuccessFalse ''gid_not_be_empty'')
           | Some gid \<Rightarrow>
               if gid = PString [] then returnM (SuccessFalse ''gid_not_be_empty'')
               else
                 (case p ''domain'' of
                    None \<Rightarrow> returnM (SuccessFalse ''domain_not_be_empty'')
                  | Some dmn \<Rightarrow>
                      if dmn = PString [] then returnM (SuccessFalse ''domain_not_be_empty'')
                      else
                        (let key = ''group_'' @ sprint_s gid @ ''@'' @ sprint_s dmn in
                         seqM (Delete key) (returnM \<lparr>sSuccess = True, sEntity = None\<rparr>)))))"

fun count_nodes :: "('r, 'e) db_env_scheme \<Rightarrow> bytes list \<Rightarrow> ('r, 'z, (string \<times> int) list) db_op" where
  "count_nodes E [] = returnM []"
| "count_nodes E (nodeid # nodeids) =
     (if length nodeid < 13 then liftM (Inl IndexRange)
      else
        (let nodeid = take (length nodeid - 13) nodeid in
         bindM (CountByIdx E nodeid) (\<lambda>count.
         bindM (count_nodes E nodeids) (\<lambda>counters.
         returnM (case count of Inr n \<Rightarrow> (nodeid, n) # counters | Inl _ \<Rightarrow> counters)))))"

definition Counter :: "('r, 'e) db_env_scheme \<Rightarrow> params \<Rightarrow> ('r, 'z, Answer) db_op" where
  "Counter E params =
     bindM (GetByIdx E ''sara'') (\<lambda>r.
     case r of
       Inl err \<Rightarrow> returnM (SuccessFalse ''notfound'')
     | Inr nodeids \<Rightarrow>
         if length nodeids < 1 then returnM (SuccessFalse ''notfound'')
         else
           bindM (count_nodes E nodeids) (\<lambda>counters.
           returnM \<lparr>sSuccess = True, sEntity = Some (Counters counters)\<rparr>))"

definition Isonline :: "('r, 'e) db_env_scheme \<Rightarrow> params \<Rightarrow> ('r, 'z, Answer) db_op" where
  "Isonline E params =
     (case params of
        None \<Rightarrow> liftM (Inl TypeAssertion)
      | Some p \<Rightarrow>
          (case p ''jid'' of
             None \<Rightarrow> returnM \<lparr>sSuccess = False, sEntity = None\<rparr>
           | Some (POther _) \<Rightarrow> liftM (Inl TypeAssertion)
           | Some (PString jid) \<Rightarrow>
               (case NewJID jid of
                  Inl err \<Rightarrow> returnM \<lparr>sSuccess = False, sEntity = None\<rparr>
                | Inr j \<Rightarrow>
                    bindM (liftM (ToSessionid (Some j))) (\<lambda>sid.
                    bindM (db_Get E sid) (\<lambda>r.
                    case r of
                      Inr _ \<Rightarrow> returnM \<lparr>sSuccess = True, sEntity = None\<rparr>
                    | Inl _ \<Rightarrow> returnM \<lparr>sSuccess = False, sEntity = None\<rparr>)))))"

text \<open>The check of the token a request carries.\<close>

definition CheckToken :: "string \<Rightarrow> ('z conf_state_scheme, bool) op" where
  "CheckToken token =
     bindM (GetString ''accesstoken'' []) (\<lambda>accesstoken.
     returnM (accesstoken = [] \<or> accesstoken = token))"

subsection \<open>Registration\<close>

datatype service_impl = EmsgGroupService | EmsgSessionService

record ServiceReg =
  Namespace :: string
  Version :: string
  Impl :: service_impl

type_synonym ServiceRegMap = "string \<rightharpoonup> ServiceReg"

definition genServiceReg :: "string \<Rightarrow> string \<Rightarrow> service_impl \<Rightarrow> ServiceRegMap \<Rightarrow> ServiceRegMap" where
  "genServiceReg namespace version service m =
     m(namespace \<mapsto> \<lparr>Namespace = namespace, Version = version, Impl = service\<rparr>)"

definition RegService :: "ServiceRegMap \<Rightarrow> ServiceRegMap" where
  "RegService m =
     (let vsn = ''0.0.1'' in
      genServiceReg ''emsg_session'' vsn EmsgSessionService (genServiceReg ''emsg_group'' vsn EmsgGroupService m))"

subsection \<open>Who is online\<close>

text \<open>
  C26: Asking for a user answers from the registry: for a well-formed address the answer is
  positive exactly if the user is registered, whatever the resource part of the address,
  and asking changes nothing.
\<close>

theorem Isonline_iff_registered:
  assumes "redis_db E view" "p ''jid'' = Some (PString jid)" "NewJID jid = Inr j"
  shows "\<exists>r. Isonline E (Some p) s =
      Ret \<lparr>sSuccess = (registry (view (redis s)) (bare j) \<noteq> None), sEntity = None\<rparr> (s\<lparr>redis := r\<rparr>) \<and> view r = view (redis s)"
proof (cases "str_at (view (redis s)) (session_key j)")
  case None
  then obtain e r where "db_Get E (session_key j) s = Ret (Inl e) (s\<lparr>redis := r\<rparr>)" "view r = view (redis s)"
    using redis_db.db_Get_missing [OF assms(1)] by blast
  then show ?thesis using assms(2,3) None
    by (auto simp: Isonline_def steps bindM_Ret_step returnM_def registry_def)
next
  case (Some x)
  then obtain r where "db_Get E (session_key j) s = Ret (Inr x) (s\<lparr>redis := r\<rparr>)" "view r = view (redis s)"
    using redis_db.db_Get_found [OF assms(1)] by blast
  then show ?thesis using assms(2,3) Some
    by (auto simp: Isonline_def steps bindM_Ret_step returnM_def registry_def)
qed

theorem Isonline_iff_registered_witness:
  "\<exists>t. Isonline sample_senv (Some [''jid'' \<mapsto> PString ''c@d'']) (sample_state busy_mem fresh_session) =
     Ret \<lparr>sSuccess = True, sEntity = None\<rparr> t"
  using Isonline_iff_registered [OF mem_db.redis_db_axioms, of "[''jid'' \<mapsto> PString ''c@d'']" "''c@d''"
      "\<lparr>user = ''c'', domain = ''d'', resource = []\<rparr>" "sample_state busy_mem fresh_session"]
  by (auto simp: sample_jid bare_def busy_registry)

subsection \<open>How many are online\<close>

lemma CountByIdx_run:
  assumes "redis_db E view" "\<not> is_str (view (redis s)) (i @ IDX_SUFFIX)"
  shows "\<exists>r. CountByIdx E i s = Ret (Inr (int (card (dom (hash_of (view (redis s)) (i @ IDX_SUFFIX)))))) (s\<lparr>redis := r\<rparr>) \<and>
    view r = view (redis s)"
proof -
  obtain a r where "executeDirect E (HLEN (i @ IDX_SUFFIX)) s = Ret a (s\<lparr>redis := r\<rparr>)" "view r = view (redis s)"
      "redis_reply (HLEN (i @ IDX_SUFFIX)) (view (redis s)) a"
    by (rule redis_db.run_cmd [OF assms(1), of "HLEN (i @ IDX_SUFFIX)" s]) simp
  then show ?thesis using assms(2) by (auto simp: CountByIdx_def bindM_Ret_step returnM_def Int64_def)
qed

text \<open>What is reported for one registered node.\<close>

definition node_count :: "keyspace \<Rightarrow> bytes \<Rightarrow> string \<times> int" where
  "node_count v x = (let n = take (length x - 13) x in (n, int (card (dom (hash_of v (n @ IDX_SUFFIX))))))"

lemma count_nodes_run:
  assumes "redis_db E view" "\<forall>x\<in>set xs. 13 \<le> length x \<and> \<not> is_str v (take (length x - 13) x @ IDX_SUFFIX)"
    and "view (redis s) = v"
  shows "\<exists>r. count_nodes E xs s = Ret (map (node_count v) xs) (s\<lparr>redis := r\<rparr>) \<and> view r = v"
  using assms(2,3)
proof (induction xs arbitrary: s)
  case Nil
  then show ?case by (intro exI [of _ "redis s"]) (simp add: returnM_def)
next
  case (Cons x xs)
  let ?n = "take (length x - 13) x"
  obtain r where r: "CountByIdx E ?n s = Ret (Inr (int (card (dom (hash_of v (?n @ IDX_SUFFIX)))))) (s\<lparr>redis := r\<rparr>)" "view r = v"
    using CountByIdx_run [OF assms(1), of s ?n] Cons.prems by auto
  obtain q where q: "count_nodes E xs (s\<lparr>redis := r\<rparr>) = Ret (map (node_count v) xs) (s\<lparr>redis := q\<rparr>)" "view q = v"
    using Cons.IH [of "s\<lparr>redis := r\<rparr>"] Cons.prems r(2) by auto
  show ?case using Cons.prems r q by (intro exI [of _ q]) (simp add: Let_def bindM_Ret_step returnM_def node_count_def)
qed

text \<open>
  C27: The counter reports every registered node.  A node registers with its id followed by
  a time stamp of 13 digits.  If all entries have this form, the answer lists for each of
  them the id without the time stamp, with the number of sessions in this node's index,
  and nothing else; counting changes nothing.
\<close>

theorem Counter_reports_nodes:
  assumes db: "redis_db E view" and h: "\<not> is_str (view (redis s)) (''sara'' @ IDX_SUFFIX)"
    and some: "hash_of (view (redis s)) (''sara'' @ IDX_SUFFIX) \<noteq> Map.empty"
    and wf: "\<forall>x\<in>ran (hash_of (view (redis s)) (''sara'' @ IDX_SUFFIX)).
      13 \<le> length x \<and> \<not> is_str (view (redis s)) (take (length x - 13) x @ IDX_SUFFIX)"
  shows "\<exists>cs r. Counter E ps s = Ret \<lparr>sSuccess = True, sEntity = Some (Counters cs)\<rparr> (s\<lparr>redis := r\<rparr>) \<and>
    view r = view (redis s) \<and> set cs = node_count (view (redis s)) ` ran (hash_of (view (redis s)) (''sara'' @ IDX_SUFFIX))"
proof -
  let ?v = "view (redis s)"
  obtain xs r where r: "GetByIdx E ''sara'' s = Ret (Inr xs) (s\<lparr>redis := r\<rparr>)" "set xs = ran (hash_of ?v (''sara'' @ IDX_SUFFIX))"
      "view r = ?v"
    using GetByIdx_values [OF db h] redis_db.GetByIdx_run [OF db, of "''sara''" s] by force
  have "ran (hash_of ?v (''sara'' @ IDX_SUFFIX)) \<noteq> {}" using some by (auto simp: ran_def fun_eq_iff)
  then have "xs \<noteq> []" using r(2) by auto
  obtain q where q: "count_nodes E xs (s\<lparr>redis := r\<rparr>) = Ret (map (node_count ?v) xs) (s\<lparr>redis := q\<rparr>)" "view q = ?v"
    using count_nodes_run [OF db, of xs ?v "s\<lparr>redis := r\<rparr>"] wf r by auto
  have "Counter E ps s = Ret \<lparr>sSuccess = True, sEntity = Some (Counters (map (node_count ?v) xs))\<rparr> (s\<lparr>redis := q\<rparr>)"
    using r(1) q(1) \<open>xs \<noteq> []\<close> by (simp add: Counter_def bindM_Ret_step returnM_def)
  then show ?thesis using q(2) r(2) by (intro exI [of _ "map (node_count ?v) xs"] exI [of _ q]) simp
qed

definition node_mem :: mem where
  "node_mem = \<lparr>mstrs = [], mhashes = [(''sara_idx'', [(''n1'', ''n11700000000000'')]), (''n1_idx'', [(''session_c@d'', [])])]\<rparr>"

theorem Counter_reports_nodes_witness:
  "\<exists>cs t. Counter sample_senv None (sample_state node_mem fresh_session) = Ret \<lparr>sSuccess = True, sEntity = Some (Counters cs)\<rparr> t \<and>
     (''n1'', 1) \<in> set cs"
proof -
  have v: "mem_view node_mem ''sara_idx'' = Some (VHash [''n1'' \<mapsto> ''n11700000000000''])"
    "mem_view node_mem ''n1_idx'' = Some (VHash [''session_c@d'' \<mapsto> []])"
    by (simp_all add: mem_view_def node_mem_def)
  have "\<exists>cs r. Counter sample_senv None (sample_state node_mem fresh_session) =
      Ret \<lparr>sSuccess = True, sEntity = Some (Counters cs)\<rparr> ((sample_state node_mem fresh_session)\<lparr>redis := r\<rparr>) \<and>
    mem_view r = mem_view (redis (sample_state node_mem fresh_session)) \<and>
    set cs = node_count (mem_view (redis (sample_state node_mem fresh_session))) `
      ran (hash_of (mem_view (redis (sample_state node_mem fresh_session))) (''sara'' @ IDX_SUFFIX))"
    by (rule Counter_reports_nodes [OF mem_db.redis_db_axioms])
      (simp_all add: IDX_SUFFIX_def hash_of_def is_str_def v)
  then show ?thesis by (force simp: IDX_SUFFIX_def hash_of_def v node_count_def)
qed

subsection \<open>Reloading a group\<close>

text \<open>
  Reloading a group makes the server ask for its members again.  The request queues the
  deletion of the key under which the members of the group are cached for senders of the
  given domain; when the queue workers have done their work, that key is gone and every
  other string is as before.
\<close>

theorem Reload_clears_cache:
  assumes db: "redis_db E view" and p: "p ''gid'' = Some (PString g)" "g \<noteq> []" "p ''domain'' = Some (PString d)" "d \<noteq> []"
    and open': "\<not> wbClosed s" and idle: "calm False s" "pending False s = {#}"
  shows "\<exists>u. Reload (Some p) s = Ret \<lparr>sSuccess = True, sEntity = None\<rparr> u \<and>
    (\<forall>t. wb_run E False u t \<and> pending False t = {#} \<longrightarrow>
      str_at (view (redis t)) = (str_at (view (redis s)))(''group_'' @ g @ ''@'' @ d := None))"
proof -
  let ?k = "''group_'' @ g @ ''@'' @ d"
  let ?u = "s\<lparr>wbCh := wbCh s @ [Wb (DEL ?k)]\<rparr>"
  have k: "\<not> is4s ?k" by (simp add: is4s_def SESSION_PERFIX_def)
  have "Delete ?k s = Ret None ?u" using open' k unfolding Delete_def by (simp add: execute_def steps bindM_def returnM_def)
  then have "Reload (Some p) s = Ret \<lparr>sSuccess = True, sEntity = None\<rparr> ?u"
    using p by (simp add: Reload_def Let_def seqM_Ret_step returnM_def)
  moreover have u: "calm False ?u" "pending False ?u = mset [DEL ?k]"
    using idle by (auto simp: calm_def pending_def wqueue_def workers_def)
  have "str_at (view (redis t)) = (str_at (view (redis s)))(?k := None)" if run: "wb_run E False ?u t" "pending False t = {#}" for t
  proof -
    obtain ys where ys: "mset ys = mset [DEL ?k]" "view (redis t) = fold redis_upd ys (view (redis ?u))"
      using drained [OF db run(1) u(1) run(2)] u(2) by metis
    from ys(1) have "ys = [DEL ?k]" by simp
    then show ?thesis using ys(2) by simp
  qed
  ultimately show ?thesis by blast
qed

theorem Reload_clears_cache_witness:
  "\<exists>u t. Reload (Some [''gid'' \<mapsto> PString ''7'', ''domain'' \<mapsto> PString ''b'']) (working sample_session busy_mem) =
      Ret \<lparr>sSuccess = True, sEntity = None\<rparr> u \<and> wb_run sample_senv False u t \<and>
    str_at (mem_view (redis t)) ''group_7@b'' = None"
proof -
  let ?s = "working sample_session busy_mem"
  let ?p = "[''gid'' \<mapsto> PString ''7'', ''domain'' \<mapsto> PString ''b'']"
  obtain u where u: "Reload (Some ?p) ?s = Ret \<lparr>sSuccess = True, sEntity = None\<rparr> u"
    "\<forall>t. wb_run sample_senv False u t \<and> pending False t = {#} \<longrightarrow>
      str_at (mem_view (redis t)) = (str_at (mem_view (redis ?s)))(''group_'' @ ''7'' @ ''@'' @ ''b'' := None)"
    using Reload_clears_cache [OF mem_db.redis_db_axioms, of ?p "''7''" "''b''" ?s] by auto
  have "u = ?s\<lparr>wbCh := [Wb (DEL ''group_7@b'')]\<rparr>"
    using u(1) by (simp add: Reload_def Delete_def is4s_def SESSION_PERFIX_def execute_def go_defs) (simp add: working_def)
  then obtain t where "wb_run sample_senv False u t" "pending False t = {#}"
    using drain_exists [OF mem_db.redis_db_axioms, of False u 0]
    by (auto simp: calm_def workers_def wqueue_def working_def)
  with u show ?thesis by auto
qed

subsection \<open>The access token\<close>

text \<open>
  A request is let in exactly if no access token is configured or it carries the
  configured one.
\<close>

lemma CheckToken_grants:
  assumes "conf s ''accesstoken'' = Some (newConfVoKeyVal ''accesstoken'' (CString a))"
  shows "CheckToken token s = Ret (a = [] \<or> token = a) s"
  using assms by (auto simp: CheckToken_def GetString_def conf_string_def newConfVoKeyVal_def go_defs)

end
