(* ===== verification/Flags.thy ===== *)
theory Flags
  imports Config
begin

text \<open>
  The command line (\<^verbatim>\<open>utils/flags.go\<close>) and the loading of the configuration from it
  (\<open>LoadFromCtx\<close> of \<^verbatim>\<open>config/config.go\<close>).  The flags are package variables: their defaults are
  read from the configuration table, with type assertions, before \<^verbatim>\<open>main\<close> runs.
\<close>

datatype flag_value = FInt int | FString string | FBool bool

record flag =
  fName :: string
  fValue :: flag_value

definition int_def :: "(string \<rightharpoonup> ConfVo) \<Rightarrow> string \<Rightarrow> int go" where
  "int_def m k = (case m k of Some c \<Rightarrow> (case cDef c of Some (CInt v) \<Rightarrow> Inr v | _ \<Rightarrow> Inl TypeAssertion) | None \<Rightarrow> Inl TypeAssertion)"

definition string_def :: "(string \<rightharpoonup> ConfVo) \<Rightarrow> string \<Rightarrow> string go" where
  "string_def m k = (case m k of Some c \<Rightarrow> (case cDef c of Some (CString v) \<Rightarrow> Inr v | _ \<Rightarrow> Inl TypeAssertion) | None \<Rightarrow> Inl TypeAssertion)"

definition IntFlag :: "(string \<rightharpoonup> ConfVo) \<Rightarrow> string \<Rightarrow> string \<Rightarrow> flag go" where
  "IntFlag m name k = bindG (int_def m k) (\<lambda>v. Inr \<lparr>fName = name, fValue = FInt v\<rparr>)"

definition StringFlag :: "(string \<rightharpoonup> ConfVo) \<Rightarrow> string \<Rightarrow> string \<Rightarrow> flag go" where
  "StringFlag m name k = bindG (string_def m k) (\<lambda>v. Inr \<lparr>fName = name, fValue = FString v\<rparr>)"

fun sequence :: "'a go list \<Rightarrow> 'a list go" where
  "sequence [] = Inr []"
| "sequence (x # xs) = bindG x (\<lambda>y. bindG (sequence xs) (\<lambda>ys. Inr (y # ys)))"

text \<open>The package variables, in the order they are initialised.\<close>

definition server_flags :: "(string \<rightharpoonup> ConfVo) \<Rightarrow> flag list go" where
  "server_flags m = sequence
     [IntFlag m ''port'' ''port'',
      IntFlag m ''wsport'' ''wsport'',
      IntFlag m ''tlsport'' ''tlsport'',
      IntFlag m ''rpcport'' ''rpcport'',
      StringFlag m ''logfile'' ''logfile'',
      IntFlag m ''loglevel'' ''loglevel'',
      StringFlag m ''dbaddr'' ''dbaddr'',
      IntFlag m ''dbpool'' ''dbpool'',
      StringFlag m ''nodeaddr,n'' ''nodeaddr'',
      StringFlag m ''dc'' ''dc'',
      Inr \<lparr>fName = ''callback'', fValue = FString []\<rparr>,
      Inr \<lparr>fName = ''debug'', fValue = FBool False\<rparr>,
      Inr \<lparr>fName = ''config,c'', fValue = FString ''/etc/sara/conf.json''\<rparr>,
      Inr \<lparr>fName = ''nodeid'', fValue = FString []\<rparr>]"

definition InitFlags :: "flag list" where
  "InitFlags = [\<lparr>fName = ''debug'', fValue = FBool False\<rparr>, \<lparr>fName = ''config,c'', fValue = FString ''/etc/sara/conf.json''\<rparr>]"

definition InitFlagsForTestOfMakeConn :: "flag list" where
  "InitFlagsForTestOfMakeConn =
     [\<lparr>fName = ''total,t'', fValue = FInt 1024\<rparr>, \<lparr>fName = ''laddr,l'', fValue = FString []\<rparr>,
      \<lparr>fName = ''raddr,a'', fValue = FString ''localhost:4222''\<rparr>, \<lparr>fName = ''heartbeat,b'', fValue = FInt 50\<rparr>,
      \<lparr>fName = ''messagesize,ms'', fValue = FInt 0\<rparr>, \<lparr>fName = ''messagegap,mg'', fValue = FInt 5\<rparr>]"

subsection \<open>Loading the configuration from the flags\<close>

text \<open>What the command line library returns for a flag: the zero value for an unknown one.\<close>

record cli_context =
  GlobalInt :: "string \<Rightarrow> int"
  GlobalString :: "string \<Rightarrow> string"
  GlobalBool :: "string \<Rightarrow> bool"
  CtxString :: "string \<Rightarrow> string"     \<comment> \<open>flags of a command\<close>
  CtxInt :: "string \<Rightarrow> int"
  Args :: "string list"

definition LoadFromCtx :: "cli_context \<Rightarrow> ('z conf_state_scheme, unit) op" where
  "LoadFromCtx ctx =
     seqM (SetInt ''port'' (GlobalInt ctx ''port''))
     (seqM (SetInt ''wsport'' (GlobalInt ctx ''wsport''))
     (seqM (SetInt ''tlsport'' (GlobalInt ctx ''tlsport''))
     (seqM (SetInt ''rpcport'' (GlobalInt ctx ''rpcport''))
     (seqM (SetString ''logfile'' (GlobalString ctx ''logfile''))
     (seqM (SetInt ''loglevel'' (GlobalInt ctx ''loglevel''))
     (seqM (SetString ''dbaddr'' (GlobalString ctx ''dbaddr''))
     (seqM (SetInt ''dbpool'' (GlobalInt ctx ''dbpool''))
     (seqM (SetString ''nodeaddr'' (GlobalString ctx ''nodeaddr''))
     (seqM (SetString ''callback'' (GlobalString ctx ''callback''))
     (seqM (SetString ''dc'' (GlobalString ctx ''dc''))
       (SetString ''nodeid'' (GlobalString ctx ''nodeid''))))))))))))"

subsection \<open>The types of the table\<close>

text \<open>A table in which every key that is present can be read as a value of its type.\<close>

definition key_kinds :: "(string \<times> conf_kind) list" where
  "key_kinds = (''nodeid'', KString) # conf_keys"

fun of_kind :: "conf_kind \<Rightarrow> conf_val \<Rightarrow> bool" where
  "of_kind KString (CString _) = True"
| "of_kind KInt (CInt _) = True"
| "of_kind KBool (CBool _) = True"
| "of_kind _ _ = False"

definition conf_typed :: "(string \<rightharpoonup> ConfVo) \<Rightarrow> bool" where
  "conf_typed m \<longleftrightarrow> (\<forall>(k, t)\<in>set key_kinds. \<forall>c. m k = Some c \<longrightarrow> (\<exists>v. cVal c = Some v \<and> of_kind t v))"

lemma conf_typed_lookup:
  assumes "conf_typed m" "(k, t) \<in> set key_kinds"
  shows "m k = None \<or> (\<exists>c v. m k = Some c \<and> cVal c = Some v \<and> of_kind t v)"
  using assms by (cases "m k") (auto simp: conf_typed_def)

lemma conf_typed_reads:
  assumes "conf_typed m"
  shows "(k, KString) \<in> set key_kinds \<Longrightarrow> \<exists>v. conf_string m k d = Inr v"
    and "(k, KInt) \<in> set key_kinds \<Longrightarrow> \<exists>v. conf_int m k i = Inr v"
    and "(k, KBool) \<in> set key_kinds \<Longrightarrow> \<exists>v. conf_bool m k b = Inr v"
proof -
  show "\<exists>v. conf_string m k d = Inr v" if "(k, KString) \<in> set key_kinds"
    using conf_typed_lookup [OF assms that] by (auto simp: conf_string_def elim: of_kind.elims)
  show "\<exists>v. conf_int m k i = Inr v" if "(k, KInt) \<in> set key_kinds"
    using conf_typed_lookup [OF assms that] by (auto simp: conf_int_def elim: of_kind.elims)
  show "\<exists>v. conf_bool m k b = Inr v" if "(k, KBool) \<in> set key_kinds"
    using conf_typed_lookup [OF assms that] by (auto simp: conf_bool_def elim: of_kind.elims)
qed

lemma conf_typed_set:
  assumes "conf_typed m" "of_kind t v" "\<forall>u. (k, u) \<in> set key_kinds \<longrightarrow> u = t"
  shows "conf_typed (m(k \<mapsto> newConfVoKeyVal k v))"
  using assms by (auto simp: conf_typed_def newConfVoKeyVal_def split: if_splits) fastforce

lemma file_val_kind: "file_val E j (k, t) = Some v \<Longrightarrow> of_kind t v"
  by (cases t) (auto simp: file_val_def Let_def split: if_splits)

lemma builtin_keys: "k \<notin> cKey ` set configs \<Longrightarrow> conf_init k = None"
  by (auto simp: configs_def conf_init_def newConfVoKeyDef_def)

text \<open>
  C22: A complete configuration file makes the table well typed.  If the file mentions every
  built-in key, then after loading it no getter can panic any more: every key of the
  server that is present holds a value of the key's own type, whatever types the values
  in the file have.
\<close>

theorem LoadFromConf_typed:
  assumes "LoadFromConf E (Some j) s = Ret False t" "conf s = conf_init" "\<forall>c\<in>set configs. Exists (Get j [cKey c])"
  shows "conf_typed (conf t)"
proof -
  obtain nid where nid: "conf_string (conf t) ''nodeid'' [] = Inr nid"
    and val: "\<And>k kind. (k, kind) \<in> set conf_keys \<Longrightarrow> conf t k = upd_conf k (file_val E j (k, kind)) (conf s) k"
    using LoadFromConf_table [OF assms(1)] by metis
  have "\<exists>v. cVal c = Some v \<and> of_kind t' v" if "(k, t') \<in> set conf_keys" "conf t k = Some c" for k t' c
  proof (cases "file_val E j (k, t')")
    case (Some w)
    then show ?thesis using val [OF that(1)] that(2) file_val_kind [OF Some] by (auto simp: upd_conf_def newConfVoKeyVal_def)
  next
    case None
    then have "k \<notin> cKey ` set configs" using assms(3) by (auto simp: file_val_def Let_def split: if_splits)
    then show ?thesis using val [OF that(1)] that(2) None assms(2) builtin_keys by (simp add: upd_conf_def)
  qed
  moreover have "\<exists>v. cVal c = Some v \<and> of_kind KString v" if "conf t ''nodeid'' = Some c" for c
    using nid that by (auto simp: conf_string_def split: option.splits conf_val.splits)
  ultimately show ?thesis by (auto simp: conf_typed_def key_kinds_def)
qed

definition full_conf :: "(string \<times> json) list" where
  "full_conf = [(''nodeid'', JStr ''n1''), (''port'', JNum ''4222''), (''wsport'', JNum ''4224''), (''tlsport'', JNum ''4333''),
     (''rpcport'', JNum ''4280''), (''logfile'', JStr ''x''), (''loglevel'', JNum ''3''), (''dbaddr'', JStr ''r''), (''dbpool'', JNum ''100''),
     (''nodeaddr'', JStr ''h''), (''callback'', JStr ''c''), (''dc'', JStr ''d'')]"

definition full_conf_file :: bytes where
  "full_conf_file = marshal (JObj full_conf)"

lemma full_conf_lookup:
  "Get full_conf_file [k] = (case map_of full_conf k of None \<Rightarrow> no_result | Some v \<Rightarrow> result_of v)"
proof -
  have "num_ok ''4222''" "num_ok ''4224''" "num_ok ''4333''" "num_ok ''4280''" "num_ok ''3''" "num_ok ''100''" by code_simp+
  then show ?thesis unfolding full_conf_file_def by (intro Get_members) (simp add: full_conf_def utf8_ok.simps)
qed

theorem LoadFromConf_typed_witness:
  "\<exists>t. LoadFromConf sample_env (Some full_conf_file) sample_conf_state = Ret False t \<and> conf_typed (conf t)"
proof -
  obtain t where t: "LoadFromConf sample_env (Some full_conf_file) sample_conf_state = Ret False t"
    by (simp add: LoadFromConf_def full_conf_lookup Let_def) (simp add: full_conf_def Exists_def ResultString_def SetString_def
        set_conf_def steps load_rest)
  have "\<forall>c\<in>set configs. Exists (Get full_conf_file [cKey c])"
    by (simp add: full_conf_lookup configs_def newConfVoKeyDef_def) (simp add: full_conf_def Exists_def)
  with t show ?thesis using LoadFromConf_typed [OF t] by (simp add: sample_conf_state_def)
qed

text \<open>The defaults of the flags have the types the flags expect: the program starts.\<close>

lemma server_flags_init: "\<exists>fs. server_flags conf_init = Inr fs"
  by (simp add: server_flags_def IntFlag_def StringFlag_def int_def_def string_def_def conf_init_def configs_def
      newConfVoKeyDef_def bindG_def)

end
