(* ===== verification/Os.thy ===== *)
theory Os
  imports Config
begin

text \<open>
  What the program uses of the operating system through Go's standard library: files
  (\<^verbatim>\<open>os.Create\<close>, \<^verbatim>\<open>ioutil.ReadFile\<close>, \<^verbatim>\<open>ioutil.WriteFile\<close>), signals to other processes
  (\<^verbatim>\<open>os.FindProcess\<close>, \<^verbatim>\<open>Process.Signal\<close>), the console, and the profiler of the runtime; and the
  parts of \<^verbatim>\<open>main.go\<close> that need nothing else: the pid file, the profiles and the commands
  \<open>stop\<close>, \<open>pprof\<close>, \<open>setup\<close> and \<open>version\<close>.

  The files are part of the state and are shared between the server and the commands,
  which are processes of their own.  Whether a file can be created, written or read and
  whether a signal can be delivered is up to the system: the record \<open>os_env\<close> gives the
  error, if there is one.
\<close>

datatype signal = SIGUSR1 | SIGTSTP | SIGINT | SIGOTHER

record os_env =
  getpid :: int
  create_err :: "string \<Rightarrow> string option"
  write_err :: "string \<Rightarrow> string option"
  read_err :: "string \<Rightarrow> string option"
  kill_err :: "int \<Rightarrow> signal \<Rightarrow> string option"
  profile_data :: "string \<Rightarrow> bytes"          \<comment> \<open>what the profiler has collected\<close>

record os_state =
  files :: "string \<rightharpoonup> bytes"
  signals :: "(int \<times> signal) list"           \<comment> \<open>signals delivered to processes\<close>
  stdout :: "string list"
  stderr :: "string list"
  cpu_profile :: "string option option"       \<comment> \<open>running, and the file it goes to\<close>
  block_rate :: int
  mem_rate :: int

type_synonym 'a os_op = "(os_state, 'a) op"

subsection \<open>The standard library\<close>

text \<open>\<open>os.Create\<close> empties the file; \<open>None\<close> stands for the nil file it returns with an error.\<close>

definition os_Create :: "os_env \<Rightarrow> string \<Rightarrow> (string + string) os_op" where
  "os_Create S path s =
     (case create_err S path of
        Some e \<Rightarrow> Ret (Inl e) s
      | None \<Rightarrow> Ret (Inr path) (s\<lparr>files := (files s)(path \<mapsto> [])\<rparr>))"

text \<open>Appending to an open file; writing to a nil file is an error.\<close>

definition file_Write :: "os_env \<Rightarrow> string option \<Rightarrow> bytes \<Rightarrow> (string option) os_op" where
  "file_Write S f b s =
     (case f of
        None \<Rightarrow> Ret (Some ''invalid argument'') s
      | Some path \<Rightarrow>
          (case write_err S path of
             Some e \<Rightarrow> Ret (Some e) s
           | None \<Rightarrow> Ret None (s\<lparr>files := (files s)(path \<mapsto> (case files s path of None \<Rightarrow> b | Some a \<Rightarrow> a @ b))\<rparr>)))"

definition file_of :: "string + string \<Rightarrow> string option" where
  "file_of r = (case r of Inl _ \<Rightarrow> None | Inr path \<Rightarrow> Some path)"

definition ReadFile :: "os_env \<Rightarrow> string \<Rightarrow> (string + bytes) os_op" where
  "ReadFile S path s =
     Ret (case files s path of
            None \<Rightarrow> Inl (''open '' @ path @ '': no such file or directory'')
          | Some b \<Rightarrow> (case read_err S path of Some e \<Rightarrow> Inl e | None \<Rightarrow> Inr b)) s"

definition WriteFile :: "os_env \<Rightarrow> string \<Rightarrow> bytes \<Rightarrow> (string option) os_op" where
  "WriteFile S path b =
     bindM (os_Create S path) (\<lambda>r.
     case r of Inl e \<Rightarrow> returnM (Some e) | Inr p \<Rightarrow> file_Write S (Some p) b)"

text \<open>\<open>strconv.Atoi\<close> without its error: zero for a text that is no number, the nearest bound out of range.\<close>

definition Atoi :: "bytes \<Rightarrow> int" where
  "Atoi s = parse_int64 s"

text \<open>On Unix finding a process always succeeds; sending a signal may not.\<close>

definition FindProcess :: "int \<Rightarrow> string + int" where
  "FindProcess pid = Inr pid"

definition Signal :: "os_env \<Rightarrow> int \<Rightarrow> signal \<Rightarrow> (string option) os_op" where
  "Signal S pid sig s =
     (if pid = -1 then Ret (Some ''os: process already released'') s
      else if pid = 0 then Ret (Some ''os: process not initialized'') s
      else (case kill_err S pid sig of
          Some e \<Rightarrow> Ret (Some e) s
        | None \<Rightarrow> Ret None (s\<lparr>signals := signals s @ [(pid, sig)]\<rparr>)))"

definition Println :: "string \<Rightarrow> unit os_op" where
  "Println l = modifyM (\<lambda>s. s\<lparr>stdout := stdout s @ [l]\<rparr>)"

definition Eprint :: "string \<Rightarrow> unit os_op" where
  "Eprint l = modifyM (\<lambda>s. s\<lparr>stderr := stderr s @ [l]\<rparr>)"

subsection \<open>The pid file and the commands\<close>

definition pidf :: string where "pidf = ''/tmp/sara.pid''"
definition cpu_log :: string where "cpu_log = ''/tmp/sara_cpu.out''"
definition mem_log :: string where "mem_log = ''/tmp/sara_mem.out''"
definition blk_log :: string where "blk_log = ''/tmp/sara_blk.out''"
definition version :: string where "version = ''0.0.2''"

definition savePid :: "os_env \<Rightarrow> unit os_op" where
  "savePid S =
     (let pid = getpid S in
      bindM (os_Create S pidf) (\<lambda>f.
      case f of
        Inl _ \<Rightarrow> returnM ()
      | Inr p \<Rightarrow> seqM (file_Write S (Some p) (dec_int pid)) (returnM ())))"

text \<open>\<open>stop\<close> and \<open>pprof\<close> return an error, which differs when there is no pid file.\<close>

definition stop :: "os_env \<Rightarrow> (string option) os_op" where
  "stop S =
     bindM (ReadFile S pidf) (\<lambda>r.
     case r of
       Inl err \<Rightarrow> returnM None
     | Inr b \<Rightarrow>
         (case FindProcess (Atoi b) of
            Inl e \<Rightarrow> returnM (Some e)
          | Inr p \<Rightarrow>
              bindM (Signal S p SIGINT) (\<lambda>e.
              case e of Some e' \<Rightarrow> returnM (Some e') | None \<Rightarrow> returnM None)))"

definition pprofForDebug :: "os_env \<Rightarrow> (string option) os_op" where
  "pprofForDebug S =
     bindM (ReadFile S pidf) (\<lambda>r.
     case r of
       Inl err \<Rightarrow> returnM (Some err)
     | Inr b \<Rightarrow>
         (case FindProcess (Atoi b) of
            Inl e \<Rightarrow> returnM (Some e)
          | Inr p \<Rightarrow>
              bindM (Signal S p SIGUSR1) (\<lambda>e.
              case e of Some e' \<Rightarrow> returnM (Some e') | None \<Rightarrow> returnM None)))"

definition setupConf :: "os_env \<Rightarrow> string \<Rightarrow> (string option) os_op" where
  "setupConf S outpath =
     bindM (WriteFile S outpath Template) (\<lambda>err.
     case err of
       Some e \<Rightarrow> seqM (Println (''[fail] setup config ('' @ outpath @ '') error : '' @ e)) (returnM (Some e))
     | None \<Rightarrow> seqM (Println (''[success] setup config to : '' @ outpath)) (returnM None))"

definition vsn :: "(string option) os_op" where
  "vsn = seqM (forM [''version'' @ [CHR 0x09] @ '': '' @ version, ''auth'' @ [CHR 0x09] @ '': liangc'',
       ''email'' @ [CHR 0x09] @ '': cc14514@icloud.com'', ''source'' @ [CHR 0x09] @ '': https://github.com/emsg/sara''] Println)
     (returnM None)"

subsection \<open>Profiles\<close>

definition startCpuProfiles :: "os_env \<Rightarrow> unit os_op" where
  "startCpuProfiles S =
     bindM (os_Create S cpu_log) (\<lambda>f.
     modifyM (\<lambda>s. if cpu_profile s = None then s\<lparr>cpu_profile := Some (file_of f)\<rparr> else s))"

definition startBlockProfile :: "unit os_op" where
  "startBlockProfile = modifyM (\<lambda>s. s\<lparr>block_rate := 1\<rparr>)"

definition startMemProfiles :: "unit os_op" where
  "startMemProfiles = modifyM (\<lambda>s. s\<lparr>mem_rate := 1 * 1024\<rparr>)"

definition stopCpuProfiles :: "os_env \<Rightarrow> unit os_op" where
  "stopCpuProfiles S =
     bindM (getsM cpu_profile) (\<lambda>c.
     case c of
       None \<Rightarrow> returnM ()
     | Some f \<Rightarrow>
         seqM (file_Write S f (profile_data S ''cpu'')) (modifyM (\<lambda>s. s\<lparr>cpu_profile := None\<rparr>)))"

text \<open>The error text of the block profile prints the file the pointer refers to.\<close>

definition stopBlockProfile :: "os_env \<Rightarrow> unit os_op" where
  "stopBlockProfile S =
     bindM (os_Create S blk_log) (\<lambda>f.
     bindM (file_Write S (file_of f) (profile_data S ''block'')) (\<lambda>err.
     case err of
       None \<Rightarrow> returnM ()
     | Some e \<Rightarrow>
         (case file_of f of
            None \<Rightarrow> liftM (Inl NilDeref)
          | Some p \<Rightarrow> Eprint (''Can not write '' @ p @ '': '' @ e))))"

definition stopMemProfiles :: "os_env \<Rightarrow> unit os_op" where
  "stopMemProfiles S =
     bindM (os_Create S mem_log) (\<lambda>f.
     seqM (file_Write S (file_of f) (profile_data S ''heap'')) (returnM ()))"

lemmas os_defs = os_Create_def file_Write_def file_of_def ReadFile_def WriteFile_def Signal_def Println_def Eprint_def

end
