(* ===== verification/Boot.thy ===== *)
theory Boot
  imports Node_Run Service Flags Os
begin

text \<open>
  Starting the server: the action \<open>sara\<close> of \<^verbatim>\<open>main.go\<close>, \<open>New\<close> and the \<open>Start\<close> methods of
  \<^verbatim>\<open>node/node.go\<close>, the constructors of the database, the channel between nodes and the
  router, and the signal handler.

  The network is outside the program: the environment says whether a Redis server, a
  listener or a certificate is available.  The operating system (theory \<open>Os\<close>) is a field
  of the state and a field of the environment.
\<close>

record 'r boot_env = "'r rpc_env" +
  redis_dial :: "DBMODEL \<Rightarrow> string \<Rightarrow> int \<Rightarrow> string option"   \<comment> \<open>the error, if any\<close>
  listen :: "string \<Rightarrow> int \<Rightarrow> string option"
  load_cert :: "string \<Rightarrow> string \<Rightarrow> string option"
  rpc_listen :: "string \<Rightarrow> string option"
  sys :: os_env

datatype log_level = ERROR | WARNING | INFO | DEBUG

record 'r proc_state = "'r node_state" +
  Addr :: string
  PoolSize :: int
  tl_on :: bool                 \<comment> \<open>the field \<^verbatim>\<open>tl\<close>: log the answers to \<open>keepalive\<close>\<close>
  keep_key :: string            \<comment> \<open>the key of \<open>keepalive\<close>\<close>
  Port :: int
  TLSPort :: int
  WSPort :: int
  WSSPort :: int
  currentnode :: bool           \<comment> \<open>not nil\<close>
  rpc_up :: bool
  http_rpc :: "int option"
  services :: ServiceRegMap
  log_filters :: "(string \<times> log_level) list"
  stopping :: bool
  exited :: bool
  os :: os_state

type_synonym ('r, 'e) benv = "('r, 'e) boot_env_scheme"
type_synonym ('r, 'z, 'a) proc_op = "(('r, 'z) proc_state_scheme, 'a) op"

definition on_os :: "'a os_op \<Rightarrow> ('r, 'z, 'a) proc_op" where
  "on_os m s = (case m (os s) of Ret a t \<Rightarrow> Ret a (s\<lparr>os := t\<rparr>) | Panic p t \<Rightarrow> Panic p (s\<lparr>os := t\<rparr>))"

subsection \<open>The database\<close>

definition keepalive_key :: "('r, 'e) benv \<Rightarrow> ('r, 'z, unit) proc_op" where
  "keepalive_key E = bindM (uuid_rand_hex E) (\<lambda>u. modifyM (\<lambda>s. s\<lparr>keep_key := ''keep_'' @ u\<rparr>))"

text \<open>One round of the loop that keeps the connection alive.\<close>

definition keepalive :: "('r, 'e) benv \<Rightarrow> ('r, 'z, unit) proc_op" where
  "keepalive E =
     bindM (getsM keep_key) (\<lambda>k. seqM (executeDirect E (SETEX k 4 ''1'')) (returnM ()))"

definition initDb :: "('r, 'e) benv \<Rightarrow> string \<Rightarrow> int \<Rightarrow> ('r, 'z, string option) proc_op" where
  "initDb E addr poolSize =
     (case redis_dial E MODEL_SINGLE addr poolSize of
        Some err \<Rightarrow> returnM (Some err)
      | None \<Rightarrow>
          seqM (modifyM (\<lambda>s. s\<lparr>db_model := MODEL_SINGLE\<rparr>))
          (seqM (keepalive_key E) (seqM (wbfConsumer poolSize) (returnM None))))"

definition initClusterDb :: "('r, 'e) benv \<Rightarrow> string \<Rightarrow> int \<Rightarrow> ('r, 'z, string option) proc_op" where
  "initClusterDb E addr poolSize =
     (case redis_dial E MODEL_CLUSTER addr poolSize of
        Some err \<Rightarrow> returnM (Some err)
      | None \<Rightarrow>
          seqM (modifyM (\<lambda>s. s\<lparr>db_model := MODEL_CLUSTER\<rparr>))
          (seqM (keepalive_key E) (seqM (wbfConsumer poolSize) (returnM None))))"

definition showTestLog :: "('r, 'z, unit) proc_op" where
  "showTestLog = modifyM (\<lambda>s. s\<lparr>tl_on := True\<rparr>)"

definition NewDatabase :: "('r, 'e) benv \<Rightarrow> string \<Rightarrow> int \<Rightarrow> ('r, 'z, string option) proc_op" where
  "NewDatabase E addr poolSize =
     seqM (modifyM (\<lambda>s. s\<lparr>Addr := addr, PoolSize := poolSize, tl_on := False, wbCh := [], wbCh4s := [], wbClosed := False\<rparr>))
       (initDb E addr poolSize)"

definition NewClusterDatabase :: "('r, 'e) benv \<Rightarrow> string \<Rightarrow> int \<Rightarrow> ('r, 'z, string option) proc_op" where
  "NewClusterDatabase E addr poolSize =
     seqM (modifyM (\<lambda>s. s\<lparr>Addr := addr, PoolSize := poolSize, tl_on := False, wbCh := [], wbCh4s := [], wbClosed := False\<rparr>))
       (initClusterDb E addr poolSize)"

subsection \<open>The node\<close>

definition NewRPCDataChannel :: "string \<Rightarrow> ('r, 'z, unit) proc_op" where
  "NewRPCDataChannel addr = modifyM (\<lambda>s. s\<lparr>chan_id := addr, dataCh := [], clientPool := Map.empty\<rparr>)"

definition NewRPCServer :: "('r, 'e) benv \<Rightarrow> string \<Rightarrow> ('r, 'z, string option) proc_op" where
  "NewRPCServer E addr =
     (case rpc_listen E addr of
        Some err \<Rightarrow> returnM (Some err)
      | None \<Rightarrow> seqM (modifyM (\<lambda>s. s\<lparr>rpc_up := True\<rparr>)) (returnM None))"

definition newRouter :: "('r, 'z, unit) proc_op" where
  "newRouter = modifyM (\<lambda>s. s\<lparr>routerItemCh := []\<rparr>)"

text \<open>
  The part of \<open>New\<close> after the database.  If the server for other nodes cannot be started,
  the process exits when \<open>New\<close> returns.
\<close>

definition New_rest :: "('r, 'e) benv \<Rightarrow> string \<Rightarrow> ('r, 'z, bool) proc_op" where
  "New_rest E rpcserverAddr =
     seqM (NewRPCDataChannel rpcserverAddr)
     (bindM (NewRPCServer E rpcserverAddr) (\<lambda>err.
     bindM (GetString ''nodeid'' []) (\<lambda>nodeid.
     seqM (modifyM (\<lambda>s. s\<lparr>nNodeid := nodeid\<rparr>))
     (seqM newRouter
     (seqM (cleanGhostSession E)
     (seqM (whenM (err \<noteq> None) (modifyM (\<lambda>s. s\<lparr>exited := True\<rparr>))) (returnM True)))))))"

text \<open>\<open>New\<close> returns whether there is a node, that is, a result other than nil.\<close>

definition New :: "('r, 'e) benv \<Rightarrow> ('r, 'z, bool) proc_op" where
  "New E =
     bindM (GetInt ''port'' 4222) (\<lambda>port.
     bindM (GetInt ''wsport'' 4224) (\<lambda>wsport.
     bindM (GetInt ''tlsport'' 4333) (\<lambda>tlsport.
     bindM (GetInt ''wssport'' 4334) (\<lambda>wssport.
     seqM (modifyM (\<lambda>s. s\<lparr>Port := port, WSPort := wsport, TLSPort := tlsport, WSSPort := wssport,
        clean := [], acceptCh := [], acceptClosed := False, listeners := []\<rparr>))
     (bindM (GetString ''dbaddr'' ''localhost:6379'') (\<lambda>dbaddr.
     bindM (GetInt ''dbpool'' 100) (\<lambda>dbpool.
     bindM (GetString ''nodeaddr'' ''localhost:4281'') (\<lambda>rpcserverAddr.
     bindM (NewClusterDatabase E dbaddr dbpool) (\<lambda>err.
     bindM (case err of None \<Rightarrow> returnM None | Some _ \<Rightarrow> NewDatabase E dbaddr dbpool) (\<lambda>err.
     case err of
       Some _ \<Rightarrow> returnM False
     | None \<Rightarrow> New_rest E rpcserverAddr))))))))))"

subsection \<open>Listeners\<close>

text \<open>A method that reads a field of the node.\<close>

definition with_node :: "('r, 'z, 'a) proc_op \<Rightarrow> ('r, 'z, 'a) proc_op" where
  "with_node m = bindM (getsM currentnode) (\<lambda>up. if up then m else liftM (Inl NilDeref))"

definition open_listener ::
  "('r, 'e) benv \<Rightarrow> string \<Rightarrow> (('r, 'z) proc_state_scheme \<Rightarrow> int) \<Rightarrow> ('r, 'z, string option) proc_op" where
  "open_listener E name port =
     with_node (bindM (getsM port) (\<lambda>p.
       case listen E name p of
         Some err \<Rightarrow> returnM (Some err)
       | None \<Rightarrow> seqM (modifyM (\<lambda>s. s\<lparr>listeners := listeners s @ [name]\<rparr>)) (returnM None)))"

definition StartTCP :: "('r, 'e) benv \<Rightarrow> ('r, 'z, string option) proc_op" where
  "StartTCP E = open_listener E ''tcp'' Port"

definition StartWS :: "('r, 'e) benv \<Rightarrow> ('r, 'z, string option) proc_op" where
  "StartWS E = open_listener E ''ws'' WSPort"

definition StartTLS :: "('r, 'e) benv \<Rightarrow> ('r, 'z, string option) proc_op" where
  "StartTLS E =
     bindM (GetString ''certfile'' ''/etc/sara/server.pem'') (\<lambda>certfile.
     bindM (GetString ''keyfile'' ''/etc/sara/server.key'') (\<lambda>keyfile.
     case load_cert E certfile keyfile of
       Some err \<Rightarrow> returnM (Some err)
     | None \<Rightarrow> open_listener E ''tls'' TLSPort))"

definition StartWSS :: "('r, 'e) benv \<Rightarrow> ('r, 'z, string option) proc_op" where
  "StartWSS E =
     bindM (GetString ''certfile'' ''/etc/sara/server.pem'') (\<lambda>certfile.
     bindM (GetString ''keyfile'' ''/etc/sara/server.key'') (\<lambda>keyfile.
     case load_cert E certfile keyfile of
       Some err \<Rightarrow> returnM (Some err)
     | None \<Rightarrow> open_listener E ''wss'' WSSPort))"

definition StartRPC :: "('r, 'z, unit) proc_op" where
  "StartRPC =
     bindM (GetInt ''rpcport'' 4280) (\<lambda>rpcport.
     modifyM (\<lambda>s. s\<lparr>http_rpc := Some rpcport, services := RegService (services s)\<rparr>))"

definition Stop :: "('r, 'z, unit) proc_op" where
  "Stop = with_node (modifyM (\<lambda>s. s\<lparr>stopping := True\<rparr>))"

subsection \<open>The program\<close>

definition logLevel :: "log_level list" where
  "logLevel = [ERROR, WARNING, INFO, DEBUG]"

definition start_if :: "string \<Rightarrow> ('r, 'z, string option) proc_op \<Rightarrow> ('r, 'z, unit) proc_op" where
  "start_if key start = bindM (GetBool key True) (\<lambda>b. whenM b (seqM start (returnM ())))"

text \<open>
  The action of the command line program, up to the point where it waits for the stop
  signal; waiting reads a field of the node.
\<close>

definition sara_start :: "('r, 'e) benv \<Rightarrow> ('r, 'z, unit) proc_op" where
  "sara_start E =
     bindM (GetString ''logfile'' []) (\<lambda>filepath.
     bindM (GetInt ''loglevel'' 3) (\<lambda>idx.
     if idx < 0 \<or> int (length logLevel) \<le> idx then liftM (Inl IndexRange) else
     seqM (modifyM (\<lambda>s. s\<lparr>log_filters := (if filepath \<noteq> [] then [(''file'', logLevel ! nat idx)] else [])
        @ [(''stdout'', logLevel ! nat idx)]\<rparr>))
     (bindM (New E) (\<lambda>up.
     seqM (modifyM (\<lambda>s. s\<lparr>currentnode := up\<rparr>))
     (bindM (getsM exited) (\<lambda>ended.
     if ended then returnM () else
     seqM StartRPC
     (seqM (start_if ''enable_tcp'' (StartTCP E))
     (seqM (start_if ''enable_ws'' (StartWS E))
     (seqM (start_if ''enable_tls'' (StartTLS E))
     (seqM (start_if ''enable_wss'' (StartWSS E))
     (seqM (on_os (savePid (sys E)))
       (with_node (returnM ())))))))))))))"

text \<open>The configuration file is named by a flag; a file that cannot be read is ignored.\<close>

definition Load :: "('r, 'e) benv \<Rightarrow> cli_context \<Rightarrow> ('r, 'z, bool) proc_op" where
  "Load E ctx =
     bindM (on_os (ReadFile (sys E) (GlobalString ctx ''config''))) (\<lambda>r.
     bindM (LoadFromConf E (case r of Inl _ \<Rightarrow> None | Inr buf \<Rightarrow> Some buf)) (\<lambda>ended.
     seqM (whenM ended (on_os (Println ''nodeid can not empty''))) (returnM ended)))"

definition sara :: "('r, 'e) benv \<Rightarrow> cli_context \<Rightarrow> ('r, 'z, unit) proc_op" where
  "sara E ctx =
     bindM (Load E ctx) (\<lambda>ended.
     if ended then modifyM (\<lambda>s. s\<lparr>exited := True\<rparr>) else sara_start E)"

text \<open>One round of the goroutine that handles signals; a panic in it is not recovered.\<close>

definition signalHandler :: "('r, 'e) benv \<Rightarrow> cli_context \<Rightarrow> signal \<Rightarrow> ('r, 'z, unit) proc_op" where
  "signalHandler E ctx sig =
     (case sig of
        SIGUSR1 \<Rightarrow>
          whenM (GlobalBool ctx ''debug'')
            (seqM (on_os (stopCpuProfiles (sys E)))
            (seqM (on_os (stopMemProfiles (sys E)))
              (on_os (stopBlockProfile (sys E)))))
      | SIGTSTP \<Rightarrow> returnM ()
      | SIGINT \<Rightarrow> Stop
      | SIGOTHER \<Rightarrow> returnM ())"

subsection \<open>Ghost sessions\<close>

definition split_dels :: "bool \<Rightarrow> bytes list \<Rightarrow> writeBufArgs list" where
  "split_dels b ks = map (\<lambda>k. Wb (DEL k)) (filter (\<lambda>k. is4s k = b) ks)"

lemma Delete_run:
  "\<not> wbClosed s \<Longrightarrow>
   Delete k s = Ret None (s\<lparr>wbCh := wbCh s @ split_dels False [k], wbCh4s := wbCh4s s @ split_dels True [k]\<rparr>)"
  by (simp add: Delete_def split_dels_def execute_def execute4s_def bindM_def returnM_def)

lemma delete_loop:
  "\<not> wbClosed s \<Longrightarrow> forM ks (\<lambda>k. seqM (Delete k) (returnM ())) s =
    Ret () (s\<lparr>wbCh := wbCh s @ split_dels False ks, wbCh4s := wbCh4s s @ split_dels True ks\<rparr>)"
proof (induction ks arbitrary: s)
  case (Cons k ks)
  let ?t = "s\<lparr>wbCh := wbCh s @ split_dels False [k], wbCh4s := wbCh4s s @ split_dels True [k]\<rparr>"
  have "seqM (Delete k) (returnM ()) s = Ret () ?t" using Delete_run [OF Cons.prems] by (simp add: seqM_Ret_step returnM_def)
  then show ?case using Cons.IH [of ?t] Cons.prems by (simp add: seqM_Ret_step) (simp add: split_dels_def)
qed (simp add: returnM_def split_dels_def)

lemma list_bytes_RBulk: "list_bytes (map RBulk ks) = Inr ks"
  by (induction ks) (simp_all add: Bytes_def)

lemma DeleteByIdx_run:
  assumes "redis_db E view" "\<not> is_str (view (redis s)) (i @ IDX_SUFFIX)" "\<not> wbClosed s" "\<not> is4s (i @ IDX_SUFFIX)"
  shows "\<exists>r ks. DeleteByIdx E i s = Ret None (s\<lparr>redis := r, wbCh := wbCh s @ split_dels False (ks @ [i @ IDX_SUFFIX]),
      wbCh4s := wbCh4s s @ split_dels True ks\<rparr>) \<and> view r = view (redis s) \<and>
    set ks = dom (hash_of (view (redis s)) (i @ IDX_SUFFIX))"
proof -
  let ?h = "i @ IDX_SUFFIX"
  obtain a r where a: "executeDirect E (HKEYS ?h) s = Ret a (s\<lparr>redis := r\<rparr>)" "view r = view (redis s)"
      "redis_reply (HKEYS ?h) (view (redis s)) a"
    by (rule redis_db.run_cmd [OF assms(1), of "HKEYS ?h" s]) simp
  obtain ks where ks: "a = RArray (map RBulk ks)" "set ks = dom (hash_of (view (redis s)) ?h)" using a(3) assms(2) by auto
  let ?t = "s\<lparr>redis := r, wbCh := wbCh s @ split_dels False ks, wbCh4s := wbCh4s s @ split_dels True ks\<rparr>"
  have "forM ks (\<lambda>k. seqM (Delete k) (returnM ())) (s\<lparr>redis := r\<rparr>) = Ret () ?t"
    using delete_loop [of "s\<lparr>redis := r\<rparr>" ks] assms(3) by simp
  moreover have "Delete ?h ?t = Ret None (?t\<lparr>wbCh := wbCh s @ split_dels False (ks @ [?h])\<rparr>)"
    using Delete_run [of ?t ?h] assms(3,4) by (simp add: split_dels_def)
  ultimately have "DeleteByIdx E i s = Ret None (?t\<lparr>wbCh := wbCh s @ split_dels False (ks @ [?h])\<rparr>)"
    using a(1) ks(1)
    by (simp add: DeleteByIdx_def Let_def bindM_Ret_step ListBytes_def list_bytes_RBulk seqM_Ret_step returnM_def)
  then show ?thesis using a(2) ks(2) by (intro exI [of _ r] exI [of _ ks]) simp
qed

lemma is4s_append: "is4s n \<Longrightarrow> is4s (n @ x)"
  by (auto simp: is4s_def index_of_0_iff has_prefix_iff)

lemma cleanGhostSession_run:
  assumes db: "redis_db E view" and n: "\<not> is4s (nNodeid s @ IDX_SUFFIX)" "\<not> is_str (view (redis s)) (nNodeid s @ IDX_SUFFIX)"
    and "\<not> wbClosed s"
  shows "\<exists>r ks ts. cleanGhostSession E s = Ret () (s\<lparr>clock_n := Suc (clock_n s), redis := r,
      wbCh := wbCh s @ [Wb (HSET (''sara'' @ IDX_SUFFIX) (nNodeid s) (nNodeid s @ dec_int ts)), Wb (SET (nNodeid s) (nNodeid s @ dec_int ts))]
        @ split_dels False (ks @ [nNodeid s @ IDX_SUFFIX]), wbCh4s := wbCh4s s @ split_dels True ks\<rparr>) \<and> view r = view (redis s) \<and>
    set ks = dom (hash_of (view (redis s)) (nNodeid s @ IDX_SUFFIX))"
proof -
  let ?n = "nNodeid s" and ?ts = "quot (time_at E (clock_n s)) 1000000"
  let ?t = "s\<lparr>clock_n := Suc (clock_n s), wbCh := wbCh s @ [Wb (HSET (''sara'' @ IDX_SUFFIX) ?n (?n @ dec_int ?ts)), Wb (SET ?n (?n @ dec_int ?ts))]\<rparr>"
  have ts: "Timestamp13 E s = Ret ?ts (s\<lparr>clock_n := Suc (clock_n s)\<rparr>)" by (simp add: Timestamp13_def now_def go_defs)
  have "\<not> is4s ?n" using n(1) is4s_append by blast
  then have put: "PutExWithIdx E ''sara'' ?n (?n @ dec_int ?ts) 0 (s\<lparr>clock_n := Suc (clock_n s)\<rparr>) = Ret None ?t"
    using assms(4) by (simp add: PutExWithIdx_def Let_def execute_def go_defs)
  obtain r ks where d: "DeleteByIdx E ?n ?t = Ret None (?t\<lparr>redis := r, wbCh := wbCh ?t @ split_dels False (ks @ [?n @ IDX_SUFFIX]),
      wbCh4s := wbCh4s ?t @ split_dels True ks\<rparr>)" "view r = view (redis s)" "set ks = dom (hash_of (view (redis s)) (?n @ IDX_SUFFIX))"
    using DeleteByIdx_run [OF db, of ?t ?n] n assms(4) by auto
  have "cleanGhostSession E s = Ret () (?t\<lparr>redis := r, wbCh := wbCh ?t @ split_dels False (ks @ [?n @ IDX_SUFFIX]),
      wbCh4s := wbCh4s ?t @ split_dels True ks\<rparr>)"
    unfolding cleanGhostSession_def bindM_getsM
    by (rule bindM_RetI, rule ts, rule seqM_RetI, rule put, rule seqM_RetI, rule d(1)) (simp add: returnM_def)
  then show ?thesis using d(2,3) by (intro exI [of _ r] exI [of _ ks] exI [of _ ?ts]) simp
qed

lemma dels_any_order:
  assumes "\<forall>c\<in>set ys. \<exists>k. c = DEL k"
  shows "str_at (fold redis_upd ys v) k = (if DEL k \<in> set ys then None else str_at v k)"
  using assms
proof (induction ys arbitrary: v)
  case (Cons c ys)
  then obtain x where "c = DEL x" by auto
  then show ?case using Cons by auto
qed simp

lemma split_dels_cmds: "cmds_of (split_dels b ks) = map DEL (filter (\<lambda>k. is4s k = b) ks)" "WbKill \<notin> set (split_dels b ks)"
  by (induction ks) (auto simp: split_dels_def)

text \<open>
  C16: A node that starts removes the sessions a former run has left in the registry.
  Registering the node returns, and once the session workers have done their work, in any
  order, exactly the users whose session keys are in the node's index are no longer
  registered; users on other nodes stay registered.
\<close>

theorem ghost_sessions_removed:
  assumes db: "redis_db E view" and n: "\<not> is4s (nNodeid s @ IDX_SUFFIX)" "\<not> is_str (view (redis s)) (nNodeid s @ IDX_SUFFIX)"
    and "\<not> wbClosed s" and idle: "calm True s" "pending True s = {#}"
  shows "\<exists>u. cleanGhostSession E s = Ret () u \<and> (\<forall>t. wb_run E True u t \<and> pending True t = {#} \<longrightarrow>
    (\<forall>b. registry (view (redis t)) b =
       (if SESSION_PERFIX @ b \<in> dom (hash_of (view (redis s)) (nNodeid s @ IDX_SUFFIX)) then None else registry (view (redis s)) b)))"
proof -
  obtain r ks q n' where u: "cleanGhostSession E s = Ret () (s\<lparr>clock_n := n', redis := r, wbCh := q, wbCh4s := wbCh4s s @ split_dels True ks\<rparr>)"
      "view r = view (redis s)" "set ks = dom (hash_of (view (redis s)) (nNodeid s @ IDX_SUFFIX))"
    using cleanGhostSession_run [OF db n assms(4)] by blast
  let ?u = "s\<lparr>clock_n := n', redis := r, wbCh := q, wbCh4s := wbCh4s s @ split_dels True ks\<rparr>"
  have c: "calm True ?u" "pending True ?u = mset (map DEL (filter is4s ks))"
    using idle split_dels_cmds [of True ks] by (auto simp: calm_def pending_def wqueue_def workers_def)
  have "registry (view (redis t)) b =
      (if SESSION_PERFIX @ b \<in> dom (hash_of (view (redis s)) (nNodeid s @ IDX_SUFFIX)) then None else registry (view (redis s)) b)"
    if run: "wb_run E True ?u t" "pending True t = {#}" for t b
  proof -
    obtain ys where ys: "mset ys = mset (map DEL (filter is4s ks))" "view (redis t) = fold redis_upd ys (view (redis ?u))"
      using drained [OF db run(1) c(1) run(2)] c(2) by metis
    have "is4s (SESSION_PERFIX @ b)" by (simp add: is4s_def index_of_0_iff)
    then have "DEL (SESSION_PERFIX @ b) \<in> set ys \<longleftrightarrow> SESSION_PERFIX @ b \<in> set ks" "\<forall>c\<in>set ys. \<exists>k. c = DEL k"
      using set_of_mset [OF ys(1)] by auto
    then show ?thesis using dels_any_order [of ys "view r" "SESSION_PERFIX @ b"] ys(2) u(2,3) by (simp add: registry_def)
  qed
  then show ?thesis using u(1) by blast
qed

subsection \<open>Starting a node\<close>

lemma executeDirect_run:
  obtains a r where "executeDirect E c s = Ret a (s\<lparr>redis := r\<rparr>)"
  by (cases "exec E (db_model s) c (redis s)") (simp add: executeDirect_def)

lemma PutExWithIdx_frame:
  assumes "\<not> wbClosed s"
  shows "\<exists>e r q. PutExWithIdx E i k x n s = Ret e (s\<lparr>redis := r, wbCh := wbCh s @ q\<rparr>) \<and> WbKill \<notin> set q"
proof (cases "is4s k")
  case True
  let ?c = "if n > 0 then SETEX k n x else SET k x"
  obtain a r where a: "executeDirect E (HSET (i @ IDX_SUFFIX) k x) s = Ret a (s\<lparr>redis := r\<rparr>)" by (rule executeDirect_run)
  obtain b q where b: "executeDirect E ?c (s\<lparr>redis := r\<rparr>) = Ret b (s\<lparr>redis := q\<rparr>)"
    by (rule executeDirect_run [of E ?c "s\<lparr>redis := r\<rparr>"]) simp
  have "\<exists>e r. PutExWithIdx E i k x n s = Ret e (s\<lparr>redis := r\<rparr>)"
    using True a b by (cases "resp_err a") (auto simp: PutExWithIdx_def Let_def bindM_Ret_step returnM_def split: if_splits)
  then obtain e r where "PutExWithIdx E i k x n s = Ret e (s\<lparr>redis := r\<rparr>)" by blast
  then show ?thesis by (intro exI [of _ e] exI [of _ r] exI [of _ "[]"]) simp
next
  case False
  then show ?thesis using assms
    by (intro exI [of _ None] exI [of _ "redis s"] exI [of _ "[Wb (HSET (i @ IDX_SUFFIX) k x), Wb (if n > 0 then SETEX k n x else SET k x)]"])
      (simp add: PutExWithIdx_def Let_def execute_def go_defs)
qed

lemma DeleteByIdx_frame:
  assumes "\<not> wbClosed s"
  shows "\<exists>e r p q. DeleteByIdx E i s = Ret e (s\<lparr>redis := r, wbCh := wbCh s @ p, wbCh4s := wbCh4s s @ q\<rparr>) \<and>
    WbKill \<notin> set p \<and> WbKill \<notin> set q"
proof -
  let ?h = "i @ IDX_SUFFIX"
  obtain a r where a: "executeDirect E (HKEYS ?h) s = Ret a (s\<lparr>redis := r\<rparr>)" by (rule executeDirect_run)
  show ?thesis
  proof (cases "ListBytes a")
    case (Inl e)
    then have "DeleteByIdx E i s = Ret (Some e) (s\<lparr>redis := r\<rparr>)" using a by (simp add: DeleteByIdx_def Let_def bindM_Ret_step returnM_def)
    then show ?thesis by (intro exI [of _ "Some e"] exI [of _ r] exI [of _ "[]"]) simp
  next
    case (Inr ks)
    let ?t = "s\<lparr>redis := r, wbCh := wbCh s @ split_dels False ks, wbCh4s := wbCh4s s @ split_dels True ks\<rparr>"
    have "forM ks (\<lambda>k. seqM (Delete k) (returnM ())) (s\<lparr>redis := r\<rparr>) = Ret () ?t"
      using delete_loop [of "s\<lparr>redis := r\<rparr>" ks] assms by simp
    then have "DeleteByIdx E i s = Ret None (?t\<lparr>wbCh := wbCh ?t @ split_dels False [?h], wbCh4s := wbCh4s ?t @ split_dels True [?h]\<rparr>)"
      using a Inr Delete_run [of ?t ?h] assms
      by (simp add: DeleteByIdx_def Let_def bindM_Ret_step seqM_Ret_step returnM_def)
    then show ?thesis using split_dels_cmds(2)
      by (intro exI [of _ None] exI [of _ r] exI [of _ "split_dels False ks @ split_dels False [?h]"]
          exI [of _ "split_dels True ks @ split_dels True [?h]"]) simp
  qed
qed

lemma cleanGhostSession_frame:
  assumes "\<not> wbClosed s"
  shows "\<exists>n r p q. cleanGhostSession E s = Ret () (s\<lparr>clock_n := n, redis := r, wbCh := wbCh s @ p, wbCh4s := wbCh4s s @ q\<rparr>) \<and>
    WbKill \<notin> set p \<and> WbKill \<notin> set q"
proof -
  obtain ts where ts: "Timestamp13 E s = Ret ts (s\<lparr>clock_n := Suc (clock_n s)\<rparr>)" by (simp add: Timestamp13_def now_def go_defs)
  let ?s = "s\<lparr>clock_n := Suc (clock_n s)\<rparr>"
  obtain e r p where put: "PutExWithIdx E ''sara'' (nNodeid s) (nNodeid s @ dec_int ts) 0 ?s = Ret e (?s\<lparr>redis := r, wbCh := wbCh s @ p\<rparr>)"
      "WbKill \<notin> set p"
    using PutExWithIdx_frame [of ?s E] assms by fastforce
  let ?t = "?s\<lparr>redis := r, wbCh := wbCh s @ p\<rparr>"
  obtain e' r' p' q where del: "DeleteByIdx E (nNodeid s) ?t = Ret e' (?t\<lparr>redis := r', wbCh := wbCh ?t @ p', wbCh4s := wbCh4s ?t @ q\<rparr>)"
      "WbKill \<notin> set p'" "WbKill \<notin> set q"
    using DeleteByIdx_frame [of ?t E "nNodeid s"] assms by auto
  have "cleanGhostSession E s = Ret () (?t\<lparr>redis := r', wbCh := wbCh ?t @ p', wbCh4s := wbCh4s ?t @ q\<rparr>)"
    unfolding cleanGhostSession_def bindM_getsM
    by (rule bindM_RetI, rule ts, rule seqM_RetI, rule put(1), rule seqM_RetI, rule del(1)) (simp add: returnM_def)
  then show ?thesis using put(2) del(2,3)
    by (intro exI [of _ "Suc (clock_n s)"] exI [of _ r'] exI [of _ "p @ p'"] exI [of _ q]) simp
qed

text \<open>The state with a database that was just opened, and its workers.\<close>

definition blank_db :: "string \<Rightarrow> int \<Rightarrow> ('r, 'z) proc_state_scheme \<Rightarrow> ('r, 'z) proc_state_scheme" where
  "blank_db a n s = s\<lparr>Addr := a, PoolSize := n, tl_on := False, wbCh := [], wbCh4s := [], wbClosed := False\<rparr>"

definition ready_db :: "('r, 'e) benv \<Rightarrow> DBMODEL \<Rightarrow> string \<Rightarrow> int \<Rightarrow> ('r, 'z) proc_state_scheme \<Rightarrow> ('r, 'z) proc_state_scheme" where
  "ready_db E m a n s = (blank_db a n s)\<lparr>db_model := m, rand_n := Suc (rand_n s), keep_key := ''keep_'' @ uuid_text E (rand_n s),
     wk := replicate (nat (consumerTotal n)) (new_worker (consumerTotal n)),
     wk4s := replicate (nat (consumerTotal n)) (new_worker (consumerTotal n))\<rparr>"

lemma NewDatabase_run:
  "NewDatabase E a n s = (case redis_dial E MODEL_SINGLE a n of
     Some e \<Rightarrow> Ret (Some e) (blank_db a n s) | None \<Rightarrow> Ret None (ready_db E MODEL_SINGLE a n s))"
  "NewClusterDatabase E a n s = (case redis_dial E MODEL_CLUSTER a n of
     Some e \<Rightarrow> Ret (Some e) (blank_db a n s) | None \<Rightarrow> Ret None (ready_db E MODEL_CLUSTER a n s))"
  by (simp_all add: NewDatabase_def NewClusterDatabase_def initDb_def initClusterDb_def ready_db_def blank_db_def
      keepalive_key_def uuid_rand_hex_def uuid_text_def wbfConsumer_def go_defs split: option.split)

lemma New_rest_run:
  assumes "\<not> wbClosed s" "conf_string (conf s) ''nodeid'' [] = Inr nid"
  shows "\<exists>n r p q. New_rest E addr s = Ret True (s\<lparr>chan_id := addr, dataCh := [], clientPool := Map.empty,
      rpc_up := (rpc_listen E addr = None \<or> rpc_up s), nNodeid := nid, routerItemCh := [], clock_n := n, redis := r,
      wbCh := wbCh s @ p, wbCh4s := wbCh4s s @ q, exited := (rpc_listen E addr \<noteq> None \<or> exited s)\<rparr>) \<and>
    WbKill \<notin> set p \<and> WbKill \<notin> set q"
proof -
  let ?s = "s\<lparr>chan_id := addr, dataCh := [], clientPool := Map.empty, rpc_up := (rpc_listen E addr = None \<or> rpc_up s),
      nNodeid := nid, routerItemCh := []\<rparr>"
  obtain n r p q where g: "cleanGhostSession E ?s = Ret () (?s\<lparr>clock_n := n, redis := r, wbCh := wbCh s @ p, wbCh4s := wbCh4s s @ q\<rparr>)"
      "WbKill \<notin> set p" "WbKill \<notin> set q"
    using cleanGhostSession_frame [of ?s E] assms(1) by auto
  have "New_rest E addr s = Ret True (?s\<lparr>clock_n := n, redis := r, wbCh := wbCh s @ p, wbCh4s := wbCh4s s @ q,
      exited := (rpc_listen E addr \<noteq> None \<or> exited s)\<rparr>)"
  proof (cases "rpc_listen E addr")
    case None
    then show ?thesis using g(1) assms(2)
      by (simp add: New_rest_def NewRPCDataChannel_def NewRPCServer_def newRouter_def GetString_def go_defs)
  next
    case (Some e)
    then show ?thesis using g(1) assms(2)
      by (simp add: New_rest_def NewRPCDataChannel_def NewRPCServer_def newRouter_def GetString_def go_defs)
  qed
  with g(2,3) show ?thesis by auto
qed

text \<open>Reading the configuration never fails when the table is well typed.\<close>

lemma bindM_GetString: "conf_string (conf s) k d = Inr v \<Longrightarrow> bindM (GetString k d) f s = f v s"
  by (simp add: GetString_def go_defs)

lemma bindM_GetInt: "conf_int (conf s) k d = Inr v \<Longrightarrow> bindM (GetInt k d) f s = f v s"
  by (simp add: GetInt_def go_defs)

lemma bindM_GetBool: "conf_bool (conf s) k d = Inr v \<Longrightarrow> bindM (GetBool k d) f s = f v s"
  by (simp add: GetBool_def go_defs)

lemmas conf_reads = bindM_GetString bindM_GetInt bindM_GetBool

text \<open>The settings \<open>New\<close> reads.\<close>

record settings =
  set_ports :: "int \<times> int \<times> int \<times> int"
  set_dbaddr :: string
  set_dbpool :: int
  set_nodeaddr :: string
  set_nodeid :: string

definition reads_settings :: "(string \<rightharpoonup> ConfVo) \<Rightarrow> settings \<Rightarrow> bool" where
  "reads_settings m x \<longleftrightarrow> (case set_ports x of (p, w, t, ws) \<Rightarrow>
     conf_int m ''port'' 4222 = Inr p \<and> conf_int m ''wsport'' 4224 = Inr w \<and> conf_int m ''tlsport'' 4333 = Inr t \<and>
     conf_int m ''wssport'' 4334 = Inr ws) \<and> conf_string m ''dbaddr'' ''localhost:6379'' = Inr (set_dbaddr x) \<and>
     conf_int m ''dbpool'' 100 = Inr (set_dbpool x) \<and> conf_string m ''nodeaddr'' ''localhost:4281'' = Inr (set_nodeaddr x) \<and>
     conf_string m ''nodeid'' [] = Inr (set_nodeid x)"

lemma typed_settings: "conf_typed m \<Longrightarrow> \<exists>x. reads_settings m x"
proof -
  assume typed: "conf_typed m"
  have k: "(''port'', KInt) \<in> set key_kinds" "(''wsport'', KInt) \<in> set key_kinds" "(''tlsport'', KInt) \<in> set key_kinds"
    "(''wssport'', KInt) \<in> set key_kinds" "(''dbpool'', KInt) \<in> set key_kinds"
    "(''dbaddr'', KString) \<in> set key_kinds" "(''nodeaddr'', KString) \<in> set key_kinds" "(''nodeid'', KString) \<in> set key_kinds"
    by (simp_all add: key_kinds_def conf_keys_def)
  obtain p w t ws n where "conf_int m ''port'' 4222 = Inr p" "conf_int m ''wsport'' 4224 = Inr w"
    "conf_int m ''tlsport'' 4333 = Inr t" "conf_int m ''wssport'' 4334 = Inr ws" "conf_int m ''dbpool'' 100 = Inr n"
    using conf_typed_reads(2) [OF typed] k by meson
  moreover obtain a b c where "conf_string m ''dbaddr'' ''localhost:6379'' = Inr a" "conf_string m ''nodeaddr'' ''localhost:4281'' = Inr b"
    "conf_string m ''nodeid'' [] = Inr c"
    using conf_typed_reads(1) [OF typed] k by meson
  ultimately show ?thesis
    by (intro exI [of _ "\<lparr>set_ports = (p, w, t, ws), set_dbaddr = a, set_dbpool = n, set_nodeaddr = b, set_nodeid = c\<rparr>"])
      (simp add: reads_settings_def)
qed

definition booting :: "settings \<Rightarrow> ('r, 'z) proc_state_scheme \<Rightarrow> ('r, 'z) proc_state_scheme" where
  "booting x s = (case set_ports x of (p, w, t, ws) \<Rightarrow> s\<lparr>Port := p, WSPort := w, TLSPort := t, WSSPort := ws,
     clean := [], acceptCh := [], acceptClosed := False, listeners := []\<rparr>)"

lemma New_reads:
  assumes "reads_settings (conf s) x"
  shows "New E s = bindM (NewClusterDatabase E (set_dbaddr x) (set_dbpool x)) (\<lambda>err.
     bindM (case err of None \<Rightarrow> returnM None | Some _ \<Rightarrow> NewDatabase E (set_dbaddr x) (set_dbpool x)) (\<lambda>err.
     case err of Some _ \<Rightarrow> returnM False | None \<Rightarrow> New_rest E (set_nodeaddr x))) (booting x s)"
  using assms by (cases "set_ports x") (simp add: reads_settings_def New_def conf_reads steps booting_def)

lemma ready_blank: "ready_db E m a n (blank_db a n s) = ready_db E m a n s" "blank_db a n (blank_db a n s) = blank_db a n s"
  by (simp_all add: ready_db_def blank_db_def)

text \<open>The state \<open>New\<close> returns in; the cluster is tried first.\<close>

lemma New_run:
  assumes conf: "reads_settings (conf s) x"
    and dial: "redis_dial E MODEL_CLUSTER (set_dbaddr x) (set_dbpool x) = None \<or> redis_dial E MODEL_SINGLE (set_dbaddr x) (set_dbpool x) = None"
  shows "\<exists>c r p q. New E s = Ret True ((ready_db E (if redis_dial E MODEL_CLUSTER (set_dbaddr x) (set_dbpool x) = None
        then MODEL_CLUSTER else MODEL_SINGLE) (set_dbaddr x) (set_dbpool x) (booting x s))\<lparr>chan_id := set_nodeaddr x, dataCh := [], clientPool := Map.empty,
      rpc_up := (rpc_listen E (set_nodeaddr x) = None \<or> rpc_up s), nNodeid := set_nodeid x, routerItemCh := [], clock_n := c, redis := r,
      wbCh := p, wbCh4s := q, exited := (rpc_listen E (set_nodeaddr x) \<noteq> None \<or> exited s)\<rparr>) \<and>
    WbKill \<notin> set p \<and> WbKill \<notin> set q"
proof -
  let ?m = "if redis_dial E MODEL_CLUSTER (set_dbaddr x) (set_dbpool x) = None then MODEL_CLUSTER else MODEL_SINGLE"
  let ?d = "ready_db E ?m (set_dbaddr x) (set_dbpool x) (booting x s)"
  have new: "New E s = New_rest E (set_nodeaddr x) ?d"
  proof (cases "redis_dial E MODEL_CLUSTER (set_dbaddr x) (set_dbpool x)")
    case None
    then show ?thesis unfolding New_reads [OF conf] by (simp add: bindM_def NewDatabase_run returnM_def)
  next
    case (Some e)
    then show ?thesis unfolding New_reads [OF conf] using dial by (simp add: bindM_def NewDatabase_run returnM_def ready_blank)
  qed
  have d: "\<not> wbClosed ?d" "conf ?d = conf s" "rpc_up ?d = rpc_up s" "exited ?d = exited s" "wbCh ?d = []" "wbCh4s ?d = []"
    by (simp_all add: ready_db_def blank_db_def booting_def split: prod.splits)
  have "conf_string (conf ?d) ''nodeid'' [] = Inr (set_nodeid x)" using conf d(2) by (simp add: reads_settings_def)
  from New_rest_run [OF d(1) this, of E "set_nodeaddr x"] show ?thesis unfolding new d(3-6) by simp
qed


subsection \<open>Starting without a database\<close>

lemma on_os_ReadFile:
  "on_os (ReadFile S p) s = Ret (case files (os s) p of None \<Rightarrow> Inl (''open '' @ p @ '': no such file or directory'')
     | Some b \<Rightarrow> (case read_err S p of Some e \<Rightarrow> Inl e | None \<Rightarrow> Inr b)) s"
  by (cases s) (simp add: on_os_def ReadFile_def)

lemma on_os_Ret: "m (os s) = Ret a w \<Longrightarrow> on_os m s = Ret a (s\<lparr>os := w\<rparr>)"
  by (simp add: on_os_def)

lemma savePid_Ret: obtains w where "savePid S s = Ret () w"
  by (cases "create_err S pidf"; cases "write_err S pidf") (simp_all add: savePid_def os_defs Let_def go_defs)

lemma on_os_savePid: obtains w where "on_os (savePid S) s = Ret () (s\<lparr>os := w\<rparr>)"
  by (rule savePid_Ret [of S "os s"]) (blast intro: on_os_Ret)

lemma Load_run:
  assumes "files (os s) (GlobalString ctx ''config'') = Some j" "read_err (sys E) (GlobalString ctx ''config'') = None"
    and "LoadFromConf E (Some j) s = Ret False u"
  shows "Load E ctx s = Ret False u"
  unfolding Load_def
  by (rule bindM_RetI, rule on_os_ReadFile)
    (use assms in \<open>simp add: bindM_Ret_step [of "LoadFromConf E (Some j)" s False u] whenM_def steps returnM_def\<close>)

text \<open>Without a node the listeners either fail for another reason or panic.\<close>

lemma start_without_node:
  assumes "\<not> currentnode s" "conf_typed (conf s)"
    and "start \<in> {(''enable_tcp'', StartTCP E), (''enable_ws'', StartWS E), (''enable_tls'', StartTLS E), (''enable_wss'', StartWSS E)}"
  shows "start_if (fst start) (snd start) s = Ret () s \<or> start_if (fst start) (snd start) s = Panic NilDeref s"
proof -
  have k: "(''certfile'', KString) \<in> set key_kinds" "(''keyfile'', KString) \<in> set key_kinds"
    "(''enable_tcp'', KBool) \<in> set key_kinds" "(''enable_ws'', KBool) \<in> set key_kinds"
    "(''enable_tls'', KBool) \<in> set key_kinds" "(''enable_wss'', KBool) \<in> set key_kinds"
    by (simp_all add: key_kinds_def conf_keys_def)
  have nil: "open_listener E x f s = Panic NilDeref s" for x f
    using assms(1) by (simp add: open_listener_def with_node_def go_defs)
  obtain c y where cy: "conf_string (conf s) ''certfile'' ''/etc/sara/server.pem'' = Inr c"
    "conf_string (conf s) ''keyfile'' ''/etc/sara/server.key'' = Inr y"
    using conf_typed_reads(1) [OF assms(2)] k by meson
  have tls: "(\<exists>e. m s = Ret e s) \<or> m s = Panic NilDeref s" if "m \<in> {StartTCP E, StartWS E, StartTLS E, StartWSS E}" for m
    using that nil cy
    by (auto simp: StartTCP_def StartWS_def StartTLS_def StartWSS_def conf_reads returnM_def split: option.splits)
  have "(fst start, KBool) \<in> set key_kinds" using assms(3) k by auto
  then obtain b where "conf_bool (conf s) (fst start) True = Inr b"
    using conf_typed_reads(3) [OF assms(2)] by blast
  then show ?thesis
    using tls [of "snd start"] assms(3)
    by (auto simp: start_if_def conf_reads whenM_def returnM_def seqM_Ret_step bindM_Panic_step)
qed

lemma seqM_or:
  "m s = Ret () s \<or> m s = Panic p s \<Longrightarrow> \<exists>t. k s = Panic p t \<Longrightarrow> \<exists>t. seqM m k s = Panic p t"
  by (auto simp: seqM_Ret_step bindM_Panic_step)

text \<open>
  C34: Without a database the program panics.  If neither a cluster nor a single server can
  be reached, \<open>New\<close> logs the error and returns nil; the action goes on with the nil node and
  dereferences it, at the latest when it starts to wait for the stop signal.
\<close>

theorem no_database_panics:
  fixes s :: "('r, 'z) proc_state_scheme"
  assumes load: "Load E ctx s = Ret False u"
    and conf: "conf_typed (conf u)" "conf_string (conf u) ''dbaddr'' ''localhost:6379'' = Inr a" "conf_int (conf u) ''dbpool'' 100 = Inr n"
    and lvl: "conf_int (conf u) ''loglevel'' 3 = Inr l" "0 \<le> l" "l < 4"
    and dial: "redis_dial E MODEL_CLUSTER a n = Some e" "redis_dial E MODEL_SINGLE a n = Some e'"
    and up: "\<not> exited u"
  shows "\<exists>t. sara E ctx s = Panic NilDeref t"
proof -
  have k: "(''logfile'', KString) \<in> set key_kinds" "(''nodeaddr'', KString) \<in> set key_kinds" "(''rpcport'', KInt) \<in> set key_kinds"
    by (simp_all add: key_kinds_def conf_keys_def)
  obtain f where f: "conf_string (conf u) ''logfile'' [] = Inr f" using conf_typed_reads(1) [OF conf(1)] k by meson
  obtain port where port: "conf_int (conf u) ''rpcport'' 4280 = Inr port" using conf_typed_reads(2) [OF conf(1)] k by meson
  let ?u = "u\<lparr>log_filters := (if f \<noteq> [] then [(''file'', logLevel ! nat l)] else []) @ [(''stdout'', logLevel ! nat l)]\<rparr>"
  obtain x where x: "reads_settings (conf ?u) x" using typed_settings [OF conf(1)] by auto
  then have "set_dbaddr x = a" "set_dbpool x = n" using conf(2,3) by (simp_all add: reads_settings_def)
  then have new: "New E ?u = Ret False (blank_db a n (booting x ?u))"
    unfolding New_reads [OF x] using dial by (simp add: bindM_def NewDatabase_run returnM_def ready_blank)
  let ?v = "(blank_db a n (booting x ?u))\<lparr>currentnode := False, http_rpc := Some port, services := RegService (services u)\<rparr>"
  have v: "\<not> currentnode ?v" "conf_typed (conf ?v)" using conf(1) by (simp_all add: blank_db_def booting_def split: prod.splits)
  note start = start_without_node [OF v, of _ E]
  let ?rest = "seqM (start_if ''enable_tcp'' (StartTCP E)) (seqM (start_if ''enable_ws'' (StartWS E))
     (seqM (start_if ''enable_tls'' (StartTLS E)) (seqM (start_if ''enable_wss'' (StartWSS E))
     (seqM (on_os (savePid (sys E))) (with_node (returnM ()))))))"
  have "sara E ctx s = ?rest ?v"
  proof -
    have len: "int (length logLevel) = 4" by (simp add: logLevel_def)
    let ?d = "(blank_db a n (booting x ?u))\<lparr>currentnode := False\<rparr>"
    have d: "conf ?d = conf u" "\<not> exited ?d" "services ?d = services u" using up by (simp_all add: blank_db_def booting_def split: prod.splits)
    then have rpc: "StartRPC ?d = Ret () ?v" using port by (simp add: StartRPC_def conf_reads modifyM_def)
    have "sara E ctx s = sara_start E u" unfolding sara_def by (rule bindM_RetI, rule load) simp
    also have "\<dots> = bindM (New E) (\<lambda>up. seqM (modifyM (\<lambda>s. s\<lparr>currentnode := up\<rparr>)) (bindM (getsM exited) (\<lambda>ended.
        if ended then returnM () else seqM StartRPC ?rest))) ?u"
      using f lvl by (simp add: sara_start_def conf_reads len seqM_modifyM)
    also have "\<dots> = ?rest ?v"
      by (rule bindM_RetI, rule new, subst seqM_modifyM, subst bindM_getsM, subst if_not_P, rule d(2), rule seqM_RetI, rule rpc) simp
    finally show ?thesis .
  qed
  moreover have "\<exists>t. seqM (on_os (savePid (sys E))) (with_node (returnM ())) ?v = Panic NilDeref t"
  proof -
    obtain w where "on_os (savePid (sys E)) ?v = Ret () (?v\<lparr>os := w\<rparr>)" by (rule on_os_savePid)
    then show ?thesis using v(1) by (simp add: seqM_Ret_step with_node_def go_defs)
  qed
  ultimately show ?thesis
    using start [of "(''enable_tcp'', StartTCP E)"] start [of "(''enable_ws'', StartWS E)"]
      start [of "(''enable_tls'', StartTLS E)"] start [of "(''enable_wss'', StartWSS E)"]
    by (simp add: seqM_or)
qed

subsection \<open>Starting with an incomplete configuration\<close>

text \<open>
  A configuration file without a log file ends the program with a panic: the built-in
  entry for the key has no value, and the default the caller gives is not used.
\<close>

theorem incomplete_config_panics:
  assumes f: "files (os s) (GlobalString ctx ''config'') = Some j" "read_err (sys E) (GlobalString ctx ''config'') = None"
    and load: "LoadFromConf E (Some j) s = Ret False u" "conf s = conf_init" "\<not> Exists (Get j [''logfile''])"
  shows "sara E ctx s = Panic TypeAssertion u"
proof -
  obtain nid where "\<And>k kind. (k, kind) \<in> set conf_keys \<Longrightarrow> conf u k = upd_conf k (file_val E j (k, kind)) (conf s) k"
    using LoadFromConf_table [OF load(1)] by metis
  from this [of "''logfile''" KString] have "conf u ''logfile'' = conf_init ''logfile''"
    using load(2,3) by (simp add: conf_keys_def upd_conf_def file_val_def)
  then have "conf_string (conf u) ''logfile'' [] = Inl TypeAssertion"
    by (simp add: conf_string_def conf_init_def configs_def newConfVoKeyDef_def)
  then have "sara_start E u = Panic TypeAssertion u" by (simp add: sara_start_def GetString_def go_defs)
  then show ?thesis unfolding sara_def by - (rule bindM_RetI, rule Load_run [OF f load(1)], simp)
qed

subsection \<open>Examples\<close>

definition sample_sys :: os_env where
  "sample_sys = \<lparr>getpid = 4711, create_err = (\<lambda>p. None), write_err = (\<lambda>p. None), read_err = (\<lambda>p. None),
     kill_err = (\<lambda>p s. None), profile_data = (\<lambda>k. k)\<rparr>"

definition sample_os :: os_state where
  "sample_os = \<lparr>files = Map.empty, signals = [], stdout = [], stderr = [], cpu_profile = None, block_rate = 0, mem_rate = 0\<rparr>"

definition sample_ctx :: cli_context where
  "sample_ctx = \<lparr>GlobalInt = (\<lambda>k. 0), GlobalString = (\<lambda>k. if k = ''config'' then ''/etc/sara/conf.json'' else []),
     GlobalBool = (\<lambda>k. False), CtxString = (\<lambda>k. []), CtxInt = (\<lambda>k. 0), Args = []\<rparr>"

definition sample_benv :: "(DBMODEL \<Rightarrow> string option) \<Rightarrow> mem boot_env" where
  "sample_benv f = rpc_env.extend sample_renv
     (boot_env.fields (\<lambda>m a n. f m) (\<lambda>x p. None) (\<lambda>c k. Some ''no such file'') (\<lambda>a. None) sample_sys)"

lemma sample_benv_parts [simp]:
  "redis_dial (sample_benv f) m a n = f m" "rpc_listen (sample_benv f) a = None" "exec (sample_benv f) = mem_exec"
  "sys (sample_benv f) = sample_sys"
  by (simp_all add: sample_benv_def rpc_env.defs boot_env.defs sample_renv_def)

definition sample_proc :: "mem proc_state" where
  "sample_proc = node_state.extend sample_node
     (proc_state.fields [] 0 False [] 0 0 0 0 False False None Map.empty [] False False sample_os)"

lemma sample_proc_parts [simp]:
  "conf sample_proc = [''nodeid'' \<mapsto> newConfVoKeyVal ''nodeid'' (CString ''n1'')]" "heap sample_proc = Map.empty"
  "sessionMap sample_proc = Map.empty" "exited sample_proc = False" "redis sample_proc = empty_mem" "nNodeid sample_proc = ''n1''"
  "wbClosed sample_proc = False" "wbCh4s sample_proc = []" "wk4s sample_proc = []" "os sample_proc = sample_os"
  by (simp_all add: sample_proc_def node_state.defs proc_state.defs sample_node_def rpc_state.defs sample_rstate_def
      sess_state.defs sample_state_def)

lemma sample_conf_typed: "conf_typed (conf sample_proc)"
  by (auto simp: conf_typed_def key_kinds_def conf_keys_def newConfVoKeyVal_def)


theorem no_database_panics_witness:
  "\<exists>t. sara (sample_benv (\<lambda>m. Some ''connection refused'')) sample_ctx sample_proc = Panic NilDeref t"
  by (rule no_database_panics [of _ _ _ sample_proc "''localhost:6379''" 100 3])
    (use sample_conf_typed in \<open>simp_all add: Load_def on_os_ReadFile bindM_Ret_step sample_os_def LoadFromConf_def steps whenM_def
        returnM_def conf_string_def conf_int_def\<close>)

definition ghost_mem :: mem where
  "ghost_mem = \<lparr>mstrs = [(''session_c@d'', status_ToJson online_status)], mhashes = [(''n1_idx'', [(''session_c@d'', [])])]\<rparr>"

definition ghost_proc :: "mem proc_state" where
  "ghost_proc = sample_proc\<lparr>redis := ghost_mem, wk4s := [new_worker 1]\<rparr>"

theorem ghost_sessions_removed_witness:
  "\<exists>u t. cleanGhostSession (sample_benv (\<lambda>m. None)) ghost_proc = Ret () u \<and> wb_run (sample_benv (\<lambda>m. None)) True u t \<and>
     registry (mem_view (redis t)) ''c@d'' = None"
proof -
  let ?E = "sample_benv (\<lambda>m. None)"
  have db: "redis_db ?E mem_view" using mem_db.redis_db_axioms by (simp add: redis_db_def)
  have g: "nNodeid ghost_proc = ''n1''" "redis ghost_proc = ghost_mem" "\<not> wbClosed ghost_proc" "calm True ghost_proc" "pending True ghost_proc = {#}"
    "workers True ghost_proc = [new_worker 1]" "wbCh4s ghost_proc = []"
    by (simp_all add: ghost_proc_def calm_def pending_def workers_def wqueue_def)
  have n: "\<not> is4s (nNodeid ghost_proc @ IDX_SUFFIX)" "\<not> is_str (mem_view (redis ghost_proc)) (nNodeid ghost_proc @ IDX_SUFFIX)"
    by (simp_all add: g is4s_def SESSION_PERFIX_def IDX_SUFFIX_def mis_str_def ghost_mem_def)
  obtain u where u: "cleanGhostSession ?E ghost_proc = Ret () u" "\<forall>t. wb_run ?E True u t \<and> pending True t = {#} \<longrightarrow>
    (\<forall>b. registry (mem_view (redis t)) b =
       (if SESSION_PERFIX @ b \<in> dom (hash_of (mem_view (redis ghost_proc)) (nNodeid ghost_proc @ IDX_SUFFIX)) then None
        else registry (mem_view (redis ghost_proc)) b))"
    using ghost_sessions_removed [OF db n g(3-5)] by blast
  obtain c r p q where "u = ghost_proc\<lparr>clock_n := c, redis := r, wbCh := p, wbCh4s := q\<rparr>" "WbKill \<notin> set q"
    using cleanGhostSession_frame [OF g(3), of ?E] u(1) g(7) by auto
  then obtain t where "wb_run ?E True u t" "pending True t = {#}"
    using drain_exists [OF db, of True u 0] g(6) by (auto simp: calm_def workers_def wqueue_def)
  moreover have "SESSION_PERFIX @ ''c@d'' \<in> dom (hash_of (mem_view ghost_mem) (''n1'' @ IDX_SUFFIX))"
    by (simp add: ghost_mem_def mem_view_def hash_of_def IDX_SUFFIX_def SESSION_PERFIX_def)
  ultimately show ?thesis using u g(1,2) by (intro exI [of _ u] exI [of _ t]) simp
qed

theorem incomplete_config_panics_witness:
  "\<exists>u. sara (sample_benv (\<lambda>m. None)) sample_ctx (sample_proc\<lparr>conf := conf_init,
     os := sample_os\<lparr>files := [''/etc/sara/conf.json'' \<mapsto> sample_conf_file]\<rparr>\<rparr>) = Panic TypeAssertion u"
proof -
  let ?E = "sample_benv (\<lambda>m. None)"
  let ?s = "sample_proc\<lparr>conf := conf_init, os := sample_os\<lparr>files := [''/etc/sara/conf.json'' \<mapsto> sample_conf_file]\<rparr>\<rparr>"
  obtain u where u: "LoadFromConf ?E (Some sample_conf_file) ?s = Ret False u"
    by (simp add: LoadFromConf_def sample_conf_lookup Let_def Exists_def ResultString_def SetString_def set_conf_def steps load_rest)
  have "\<not> Exists (Get sample_conf_file [''logfile''])" by (simp add: sample_conf_lookup Exists_def no_result_def)
  with incomplete_config_panics [OF _ _ u] show ?thesis by (auto simp: sample_ctx_def sample_sys_def)
qed

end
