(* ===== verification/Redis_Channel.thy ===== *)
theory Redis_Channel
  imports Boot
begin

text \<open>
  The older channel between nodes over Redis (\<^verbatim>\<open>saradb/channel.go\<close>), which the RPC channel has
  replaced: \<open>GenDataChannel\<close> of \<^verbatim>\<open>saradb/database.go\<close>, publishing, and the subscription with the
  vendored \<^verbatim>\<open>radix.v2/pubsub\<close> client.

  A connection of the client library is the list of the replies it will still deliver; a
  read from the empty list blocks, which is the result \<open>None\<close>.  A nil connection is \<open>None\<close>.
\<close>

subsection \<open>The subscription client\<close>

datatype SubRespType = SError | SSubscribe | SUnsubscribe | SMessage | SPong

record SubResp =
  sType :: SubRespType
  sChannel :: string
  sPattern :: string
  sSubCount :: int
  sMessage :: string
  sErr :: "string option"

record SubClient =
  sub_conn :: "Resp list option"
  messages :: "SubResp list"

definition zero_SubResp :: SubResp where
  "zero_SubResp = \<lparr>sType = SError, sChannel = [], sPattern = [], sSubCount = 0, sMessage = [], sErr = None\<rparr>"

definition NewSubClient :: "Resp list option \<Rightarrow> SubClient" where
  "NewSubClient client = \<lparr>sub_conn = client, messages = []\<rparr>"

definition sub_error :: "string \<Rightarrow> SubResp" where
  "sub_error e = zero_SubResp\<lparr>sErr := Some e\<rparr>"

definition elem :: "Resp list \<Rightarrow> nat \<Rightarrow> Resp go" where
  "elem xs i = (if i < length xs then Inr (xs ! i) else Inl IndexRange)"

definition parse_count :: "SubRespType \<Rightarrow> string \<Rightarrow> Resp list \<Rightarrow> SubResp go" where
  "parse_count t what elems =
     bindG (elem elems 2) (\<lambda>r.
     Inr (case Int64 r of
        Inl err \<Rightarrow> sub_error (what @ '' count: '' @ err)
      | Inr n \<Rightarrow> zero_SubResp\<lparr>sType := t, sSubCount := n\<rparr>))"

text \<open>The last part of a message reply: the channel and the text at the given places.\<close>

definition parse_message :: "nat \<Rightarrow> nat \<Rightarrow> Resp list \<Rightarrow> SubResp \<Rightarrow> SubResp go" where
  "parse_message chanI msgI elems sr =
     bindG (elem elems chanI) (\<lambda>c.
     case Bytes c of
       Inl err \<Rightarrow> Inr (sr\<lparr>sType := SError, sErr := Some (''message channel: '' @ err)\<rparr>)
     | Inr channel \<Rightarrow>
         bindG (elem elems msgI) (\<lambda>m.
         Inr (case Bytes m of
            Inl err \<Rightarrow> sr\<lparr>sType := SError, sChannel := channel, sErr := Some (''message msg: '' @ err)\<rparr>
          | Inr msg \<Rightarrow> sr\<lparr>sType := SMessage, sChannel := channel, sMessage := msg\<rparr>)))"

definition parse_elems :: "Resp list \<Rightarrow> SubResp go" where
  "parse_elems elems =
     (case Bytes (elems ! 0) of
        Inl err \<Rightarrow> Inr (sub_error (''resp type: '' @ err))
      | Inr rtype \<Rightarrow>
          if rtype = ''pong'' then Inr (zero_SubResp\<lparr>sType := SPong\<rparr>)
          else if rtype = ''subscribe'' \<or> rtype = ''psubscribe'' then parse_count SSubscribe ''subscribe'' elems
          else if rtype = ''unsubscribe'' \<or> rtype = ''punsubscribe'' then parse_count SUnsubscribe ''unsubscribe'' elems
          else if rtype = ''message'' then parse_message 1 2 elems zero_SubResp
          else if rtype = ''pmessage'' then
            (case Bytes (elems ! 1) of
               Inl err \<Rightarrow> Inr (sub_error (''message pattern: '' @ err))
             | Inr pattern \<Rightarrow> parse_message 2 3 elems (zero_SubResp\<lparr>sPattern := pattern\<rparr>))
          else Inr (sub_error (''suscription multiresp has invalid type: '' @ rtype)))"

definition parseResp :: "Resp \<Rightarrow> SubResp go" where
  "parseResp resp =
     (case resp of
        RArray elems \<Rightarrow>
          if length elems < 2 then Inr (sub_error ''resp is not formatted as a subscription resp'') else parse_elems elems
      | RIOErr e \<Rightarrow> Inr (sub_error e)
      | RAppErr e \<Rightarrow> Inr (sub_error e)
      | _ \<Rightarrow> Inr (sub_error ''resp is not formatted as a subscription resp''))"

text \<open>The next reply of the connection, without or after sending a command.\<close>

definition receive :: "bool \<Rightarrow> SubClient \<Rightarrow> (SubResp \<times> SubClient) option go" where
  "receive skipBuffer c =
     (if messages c \<noteq> [] \<and> \<not> skipBuffer then Inr (Some (hd (messages c), c\<lparr>messages := tl (messages c)\<rparr>))
      else (case sub_conn c of
          None \<Rightarrow> Inl NilDeref
        | Some [] \<Rightarrow> Inr None
        | Some (r # rs) \<Rightarrow> bindG (parseResp r) (\<lambda>sr. Inr (Some (sr, c\<lparr>sub_conn := Some rs\<rparr>)))))"

definition Receive :: "SubClient \<Rightarrow> (SubResp \<times> SubClient) option go" where
  "Receive c = receive False c"

definition keep_message :: "SubResp \<Rightarrow> SubClient \<Rightarrow> SubClient" where
  "keep_message sr c = (if sType sr = SMessage then c\<lparr>messages := messages c @ [sr]\<rparr> else c)"

text \<open>The loop of \<open>filterMessages\<close>; every round takes one reply, so the replies bound it.\<close>

fun filter_loop :: "nat \<Rightarrow> int \<Rightarrow> int \<Rightarrow> SubResp \<Rightarrow> SubClient \<Rightarrow> (SubResp \<times> SubClient) option go" where
  "filter_loop 0 i n sr c = (if i < n then Inr None else Inr (Some (sr, c)))"
| "filter_loop (Suc fuel) i n sr c =
     (if i < n then
        bindG (receive True c) (\<lambda>r.
        case r of
          None \<Rightarrow> Inr None
        | Some (sr', c') \<Rightarrow>
            filter_loop fuel (if sType sr' = SMessage then i else i + 1) n sr' (keep_message sr' c'))
      else Inr (Some (sr, c)))"

definition filterMessages :: "string list \<Rightarrow> SubClient \<Rightarrow> (SubResp \<times> SubClient) option go" where
  "filterMessages names c =
     bindG (receive True c) (\<lambda>r.
     case r of
       None \<Rightarrow> Inr None
     | Some (sr, c') \<Rightarrow>
         filter_loop (length (case sub_conn c of None \<Rightarrow> [] | Some rs \<Rightarrow> rs)) (if sType sr = SMessage then - 1 else 1) (int (length names)) sr
           (keep_message sr c'))"

subsection \<open>The channel\<close>

record NodeChannel =
  nc_id :: string
  nc_size :: int
  nc_sub :: SubClient
  nc_pub :: bool              \<comment> \<open>is there a connection\<close>

definition nc_GetChannel :: "NodeChannel \<Rightarrow> string" where
  "nc_GetChannel c = nc_id c"

definition nc_Publish :: "('r, 'e) db_env_scheme \<Rightarrow> NodeChannel \<Rightarrow> string \<Rightarrow> string \<Rightarrow> ('r, 'z, string option) db_op" where
  "nc_Publish E c channel message =
     (if nc_pub c then seqM (executeDirect E (PUBLISH channel message)) (returnM None) else liftM (Inl NilDeref))"

text \<open>\<open>Subscribe\<close> subscribes and starts the loop that hands messages to the handler; one round of it.\<close>

definition nc_Subscribe :: "NodeChannel \<Rightarrow> NodeChannel option go" where
  "nc_Subscribe c =
     bindG (filterMessages [nc_id c] (nc_sub c)) (\<lambda>r.
     case r of None \<Rightarrow> Inr None | Some (_, s) \<Rightarrow> Inr (Some (c\<lparr>nc_sub := s\<rparr>)))"

definition nc_round :: "NodeChannel \<Rightarrow> (string \<times> NodeChannel) option go" where
  "nc_round c =
     bindG (Receive (nc_sub c)) (\<lambda>r.
     case r of None \<Rightarrow> Inr None | Some (sr, s) \<Rightarrow> Inr (Some (sMessage sr, c\<lparr>nc_sub := s\<rparr>)))"

definition newChannel :: "string \<Rightarrow> Resp list option \<Rightarrow> bool \<Rightarrow> NodeChannel" where
  "newChannel name sub pub = \<lparr>nc_id = name, nc_size = 0, nc_sub = NewSubClient sub, nc_pub = pub\<rparr>"

text \<open>
  \<open>GenDataChannel\<close> opens a second database at the same address; only its two connections are
  kept.  \<open>conns\<close> gives the connections the client library hands out, \<open>None\<close> for nil.
\<close>

definition getRedisClient :: "(DBMODEL \<Rightarrow> string \<Rightarrow> nat \<Rightarrow> Resp list option) \<Rightarrow> string \<Rightarrow> nat \<Rightarrow> ('r, 'z, Resp list option) db_op" where
  "getRedisClient conns k i = bindM (getsM db_model) (\<lambda>m. returnM (conns m k i))"

definition GenDataChannel ::
  "('r, 'e) benv \<Rightarrow> (DBMODEL \<Rightarrow> string \<Rightarrow> nat \<Rightarrow> Resp list option) \<Rightarrow> string \<Rightarrow> ('r, 'z, NodeChannel) proc_op" where
  "GenDataChannel E conns name s =
     (case (case db_model s of MODEL_SINGLE \<Rightarrow> NewDatabase E (Addr s) 5 | MODEL_CLUSTER \<Rightarrow> NewClusterDatabase E (Addr s) 5) s of
        Panic p t \<Rightarrow> Panic p s
      | Ret (Some err) t \<Rightarrow> Panic NilDeref s
      | Ret None db \<Rightarrow>
          (case bindM (getRedisClient conns name 0) (\<lambda>sub. bindM (getRedisClient conns name 1) (\<lambda>pub.
               returnM (newChannel name sub (pub \<noteq> None)))) db of
             Ret c t \<Rightarrow> Ret c (s\<lparr>rand_n := rand_n t\<rparr>)
           | Panic p t \<Rightarrow> Panic p s))"

subsection \<open>Delivery\<close>

definition message_reply :: "string \<Rightarrow> string \<Rightarrow> Resp" where
  "message_reply ch m = RArray [RBulk ''message'', RBulk ch, RBulk m]"

definition subscribed_reply :: "string \<Rightarrow> Resp" where
  "subscribed_reply ch = RArray [RBulk ''subscribe'', RBulk ch, RInt 1]"

fun nc_rounds :: "nat \<Rightarrow> NodeChannel \<Rightarrow> (string list \<times> NodeChannel) option go" where
  "nc_rounds 0 c = Inr (Some ([], c))"
| "nc_rounds (Suc n) c =
     bindG (nc_round c) (\<lambda>r.
     case r of
       None \<Rightarrow> Inr None
     | Some (m, c') \<Rightarrow> bindG (nc_rounds n c') (\<lambda>q. Inr (map_option (\<lambda>(ms, d). (m # ms, d)) q)))"

lemma parse_message_reply: "parseResp (message_reply ch m) = Inr (zero_SubResp\<lparr>sType := SMessage, sChannel := ch, sMessage := m\<rparr>)"
  by (simp add: message_reply_def parseResp_def parse_elems_def Bytes_def parse_message_def elem_def bindG_def)

lemma nc_rounds_messages:
  "messages (nc_sub c) = [] \<Longrightarrow> sub_conn (nc_sub c) = Some (map (message_reply ch) ms @ rs) \<Longrightarrow>
   nc_rounds (length ms) c = Inr (Some (ms, c\<lparr>nc_sub := (nc_sub c)\<lparr>sub_conn := Some rs\<rparr>\<rparr>))"
proof (induction ms arbitrary: c)
  case (Cons m ms)
  let ?c = "c\<lparr>nc_sub := (nc_sub c)\<lparr>sub_conn := Some (map (message_reply ch) ms @ rs)\<rparr>\<rparr>"
  have "nc_round c = Inr (Some (m, ?c))"
    using Cons.prems by (simp add: nc_round_def Receive_def receive_def parse_message_reply bindG_def)
  moreover have "nc_rounds (length ms) ?c = Inr (Some (ms, ?c\<lparr>nc_sub := (nc_sub ?c)\<lparr>sub_conn := Some rs\<rparr>\<rparr>))"
    using Cons.prems by (intro Cons.IH) simp_all
  ultimately show ?case by (simp add: bindG_def)
qed (cases c; simp add: bindG_def; metis SubClient.surjective SubClient.update_convs(1))

text \<open>
  A subscriber gets what is published: after the confirmation of the subscription the
  handler is called with exactly the messages of the channel, in their order.
\<close>

theorem channel_delivers:
  assumes "sub_conn (nc_sub c) = Some (subscribed_reply (nc_id c) # map (message_reply (nc_id c)) ms)" "messages (nc_sub c) = []"
  shows "\<exists>d. nc_Subscribe c = Inr (Some d) \<and> map_option fst (case nc_rounds (length ms) d of Inr q \<Rightarrow> q | Inl _ \<Rightarrow> None) = Some ms"
proof -
  let ?d = "c\<lparr>nc_sub := (nc_sub c)\<lparr>sub_conn := Some (map (message_reply (nc_id c)) ms)\<rparr>\<rparr>"
  have "receive True (nc_sub c) = Inr (Some (zero_SubResp\<lparr>sType := SSubscribe, sSubCount := 1\<rparr>, nc_sub ?d))"
    using assms(1)
    by (simp add: receive_def subscribed_reply_def parseResp_def parse_elems_def Bytes_def parse_count_def elem_def Int64_def bindG_def)
  then have "nc_Subscribe c = Inr (Some ?d)"
    using assms by (simp add: nc_Subscribe_def filterMessages_def keep_message_def bindG_def)
  then show ?thesis using nc_rounds_messages [of ?d "nc_id c" ms "[]"] assms(2) by simp
qed

text \<open>A failed read is not told apart from a message: the handler is called with the empty text.\<close>

theorem read_error_reaches_handler:
  assumes "sub_conn (nc_sub c) = Some (RIOErr e # rs)" "messages (nc_sub c) = []"
  shows "nc_round c = Inr (Some ([], c\<lparr>nc_sub := (nc_sub c)\<lparr>sub_conn := Some rs\<rparr>\<rparr>))"
  using assms by (simp add: nc_round_def Receive_def receive_def parseResp_def sub_error_def zero_SubResp_def bindG_def)

text \<open>Without a reachable server \<open>GenDataChannel\<close> dereferences the nil database.\<close>

theorem GenDataChannel_panics:
  "redis_dial E (db_model s) (Addr s) 5 = Some e \<Longrightarrow> GenDataChannel E conns name s = Panic NilDeref s"
  by (cases "db_model s") (simp_all add: GenDataChannel_def NewDatabase_run)

end
