(* ===== verification/Commands.thy ===== *)
theory Commands
  imports Boot
begin

text \<open>
  The commands of the program together with the server: a configuration file written by
  \<open>setup\<close> starts a server, \<open>stop\<close> reaches the server that saved its process id, and what the
  signal for the profiles does.
\<close>

subsection \<open>Starting with the generated configuration\<close>

text \<open>What Go documents of floats: a whole number below \<open>2 ^ 53\<close> is represented exactly.\<close>

definition floats_exact :: "'e env_scheme \<Rightarrow> bool" where
  "floats_exact E \<longleftrightarrow> (\<forall>n < 2 ^ 53. float_int E (dec_nat n) = int n)"

text \<open>Decimal numbers as a person writes them.\<close>

lemma digit_of_val: "is_digit c \<Longrightarrow> digit (digit_val c) = c \<and> digit_val c < 10"
  by (auto simp: is_digit_def digit_val_def digit_def)

lemma dec_val_less: "list_all is_digit l \<Longrightarrow> dec_val l < 10 ^ length l"
proof (induction l rule: rev_induct)
  case (snoc c l)
  then show ?case using digit_of_val [of c] by simp
qed (simp add: dec_val_def)

lemma dec_nat_dec_val:
  "list_all is_digit l \<Longrightarrow> l \<noteq> [] \<Longrightarrow> hd l \<noteq> CHR ''0'' \<Longrightarrow> dec_nat (dec_val l) = l \<and> 0 < dec_val l"
proof (induction l rule: rev_induct)
  case (snoc c l)
  have c: "digit (digit_val c) = c" "digit_val c < 10" using digit_of_val [of c] snoc.prems(1) by simp_all
  show ?case
  proof (cases "l = []")
    case True
    have "of_char c \<noteq> (48 :: nat)"
    proof
      assume "of_char c = (48 :: nat)"
      also have "\<dots> = of_char (CHR ''0'')" by simp
      finally show False using snoc.prems(3) True by (simp only: of_char_eq_iff) simp
    qed
    then have "0 < digit_val c" using snoc.prems(1) True by (simp add: digit_val_def is_digit_def)
    then show ?thesis using c True by (subst dec_nat.simps) (simp add: dec_val_def)
  next
    case False
    then have "dec_nat (dec_val l) = l" "0 < dec_val l" using snoc by (simp_all add: hd_append)
    then show ?thesis using c by (subst dec_nat.simps) simp
  qed
qed simp

definition plain_number :: "bytes \<Rightarrow> bool" where
  "plain_number l \<longleftrightarrow> l \<noteq> [] \<and> list_all is_digit l \<and> hd l \<noteq> CHR ''0'' \<and> length l \<le> 15"

lemma plain_number_exact:
  assumes "floats_exact E" "plain_number l"
  shows "float_int E l = int (dec_val l)"
proof -
  have "dec_val l < 10 ^ length l" using dec_val_less assms(2) by (simp add: plain_number_def)
  also have "(10 :: nat) ^ length l \<le> 10 ^ 15" using assms(2) by (intro power_increasing) (simp_all add: plain_number_def)
  also have "\<dots> < 2 ^ 53" by simp
  finally have "float_int E (dec_nat (dec_val l)) = int (dec_val l)" using assms(1) by (simp add: floats_exact_def)
  then show ?thesis using dec_nat_dec_val [of l] assms(2) by (simp add: plain_number_def)
qed

fun kind_of :: "json \<Rightarrow> conf_kind" where
  "kind_of (JNum l) = KInt"
| "kind_of (JBool b) = KBool"
| "kind_of v = KString"

fun template_val :: "json \<Rightarrow> conf_val" where
  "template_val (JNum l) = CInt (int (dec_val l))"
| "template_val (JBool b) = CBool b"
| "template_val (JStr x) = CString x"
| "template_val v = CString []"

text \<open>Every setting of the template is a key of the program, with a value of the key's type.\<close>

lemma template_shape:
  assumes "(k, mid, v) \<in> set template_settings"
  shows "k = ''nodeid'' \<and> v = JStr ''n01'' \<or> (k, kind_of v) \<in> set conf_keys"
    and "(\<exists>l. v = JNum l \<and> plain_number l) \<or> (\<exists>b. v = JBool b) \<or> (\<exists>x. v = JStr x)"
    and "map_of (map (\<lambda>(k, mid, v). (k, v)) template_settings) k = Some v"
proof -
  have "list_all (\<lambda>(k, mid, v). k = ''nodeid'' \<and> v = JStr ''n01'' \<or> (k, kind_of v) \<in> set conf_keys) template_settings" by code_simp
  with assms show "k = ''nodeid'' \<and> v = JStr ''n01'' \<or> (k, kind_of v) \<in> set conf_keys" by (auto simp: list_all_iff)
  have "list_all (\<lambda>(k, mid, v). case v of JNum l \<Rightarrow> plain_number l | JBool b \<Rightarrow> True | JStr x \<Rightarrow> True | _ \<Rightarrow> False)
      template_settings" by code_simp
  with assms show "(\<exists>l. v = JNum l \<and> plain_number l) \<or> (\<exists>b. v = JBool b) \<or> (\<exists>x. v = JStr x)"
    by (auto simp: list_all_iff split: json.splits)
  have "distinct (map fst template_settings)" by code_simp
  then have "distinct (map fst (map (\<lambda>(k, mid, v). (k, v)) template_settings))" by (simp add: comp_def split_def)
  moreover have "(k, v) \<in> set (map (\<lambda>(k, mid, v). (k, v)) template_settings)" using assms by force
  ultimately show "map_of (map (\<lambda>(k, mid, v). (k, v)) template_settings) k = Some v" by (rule map_of_is_SomeI)
qed

lemma template_file_val:
  assumes "floats_exact E" "(k, mid, v) \<in> set template_settings"
  shows "file_val E Template (k, kind_of v) = Some (template_val v)"
  using template_shape(2,3) [OF assms(2)] plain_number_exact [OF assms(1)]
  by (auto simp: file_val_def Template_lookup Exists_def ResultInt_def ResultString_def ResultBool_def)

lemma load_template:
  fixes s :: "'z conf_state_scheme"
  assumes "floats_exact E"
  shows "\<exists>m. LoadFromConf E (Some Template) s = Ret False (s\<lparr>conf := m\<rparr>) \<and>
    (\<forall>(k, mid, v) \<in> set template_settings. m k = Some (newConfVoKeyVal k (template_val v)))"
proof -
  let ?F = "fold (\<lambda>kk. upd_conf (fst kk) (file_val E Template kk)) conf_keys"
  let ?m = "?F ((conf s)(''nodeid'' \<mapsto> newConfVoKeyVal ''nodeid'' (CString ''n01'')))"
  have "(''nodeid'', '':'', JStr ''n01'') \<in> set template_settings" by (simp add: template_settings_def)
  from template_shape(3) [OF this]
  have "LoadFromConf E (Some Template) s = Ret False (s\<lparr>conf := ?m\<rparr>)"
    by (simp add: LoadFromConf_def Template_lookup Exists_def ResultString_def SetString_def set_conf_def steps load_rest)
  moreover have "?m k = Some (newConfVoKeyVal k (template_val v))" if t: "(k, mid, v) \<in> set template_settings" for k mid v
    using template_shape(1) [OF t]
  proof
    assume "k = ''nodeid'' \<and> v = JStr ''n01''"
    then show ?thesis using fold_upd_conf_other [OF conf_keys_distinct(2), of "file_val E Template"] by simp
  next
    assume "(k, kind_of v) \<in> set conf_keys"
    from fold_upd_conf_key [OF conf_keys_distinct(1) this, of "file_val E Template"] template_file_val [OF assms t]
    show ?thesis by (simp add: upd_conf_def)
  qed
  ultimately show ?thesis by (intro exI [of _ ?m]) blast
qed

definition template_conf :: "(string \<rightharpoonup> ConfVo) \<Rightarrow> bool" where
  "template_conf m \<longleftrightarrow> (\<forall>(k, mid, v) \<in> set template_settings. m k = Some (newConfVoKeyVal k (template_val v)))"

lemma template_reads:
  assumes "template_conf m"
  shows "conf_string m ''logfile'' d = Inr ''/tmp/sara.log''" "conf_int m ''loglevel'' i = Inr 3" "conf_int m ''rpcport'' i = Inr 4280"
    "conf_bool m ''enable_tcp'' b = Inr True" "conf_bool m ''enable_ws'' b = Inr True"
    "conf_bool m ''enable_tls'' b = Inr False" "conf_bool m ''enable_wss'' b = Inr False" "conf_bool m ''enable_auth'' b = Inr False"
    "reads_settings m \<lparr>set_ports = (4222, 4224, 4333, 4334), set_dbaddr = ''localhost:6379'', set_dbpool = 100,
       set_nodeaddr = ''localhost:4281'', set_nodeid = ''n01''\<rparr>"
  using assms
  by (simp_all add: template_conf_def template_settings_def conf_string_def conf_int_def conf_bool_def newConfVoKeyVal_def
      reads_settings_def dec_val_def digit_val_def)

lemma New_template:
  assumes "template_conf (conf s)" "heap s = Map.empty" "sessionMap s = Map.empty" "\<not> exited s"
    and "redis_dial E MODEL_CLUSTER ''localhost:6379'' 100 = None \<or> redis_dial E MODEL_SINGLE ''localhost:6379'' 100 = None"
    and "rpc_listen E ''localhost:4281'' = None"
  shows "\<exists>t. New E s = Ret True t \<and> conf t = conf s \<and> no_sessions t \<and> \<not> exited t \<and> listeners t = [] \<and> Port t = 4222 \<and> WSPort t = 4224 \<and>
    nNodeid t = ''n01'' \<and> chan_id t = ''localhost:4281'' \<and> log_filters t = log_filters s \<and> services t = services s \<and> os t = os s"
  using New_run [OF template_reads(9) [OF assms(1)], of E] assms(2-6)
  by (fastforce simp: ready_db_def blank_db_def booting_def no_sessions_def)

lemma open_listener_run:
  "currentnode s \<Longrightarrow> listen E x (f s) = None \<Longrightarrow> open_listener E x f s = Ret None (s\<lparr>listeners := listeners s @ [x]\<rparr>)"
  by (simp add: open_listener_def with_node_def go_defs)

lemma start_if_run:
  "conf_bool (conf s) k True = Inr b \<Longrightarrow> (b \<Longrightarrow> start s = Ret e t) \<Longrightarrow> start_if k start s = Ret () (if b then t else s)"
  by (auto simp: start_if_def conf_reads whenM_def seqM_Ret_step returnM_def)

text \<open>The part of the action after \<open>New\<close>.\<close>

lemma listeners_template:
  assumes "template_conf (conf s)" "currentnode s" "listeners s = []" "listen E ''tcp'' (Port s) = None" "listen E ''ws'' (WSPort s) = None"
  shows "seqM StartRPC (seqM (start_if ''enable_tcp'' (StartTCP E)) (seqM (start_if ''enable_ws'' (StartWS E))
     (seqM (start_if ''enable_tls'' (StartTLS E)) (seqM (start_if ''enable_wss'' (StartWSS E)) k)))) s =
    k (s\<lparr>http_rpc := Some 4280, services := RegService (services s), listeners := [''tcp'', ''ws'']\<rparr>)"
proof -
  let ?r = "s\<lparr>http_rpc := Some 4280, services := RegService (services s)\<rparr>"
  have rpc: "StartRPC s = Ret () ?r" using template_reads(3) [OF assms(1)] by (simp add: StartRPC_def conf_reads modifyM_def)
  have tcp: "start_if ''enable_tcp'' (StartTCP E) ?r = Ret () (?r\<lparr>listeners := [''tcp'']\<rparr>)"
    using start_if_run [of ?r "''enable_tcp''" True "StartTCP E"] open_listener_run [of ?r E "''tcp''" Port] template_reads(4) [OF assms(1)] assms(2-4)
    by (simp add: StartTCP_def)
  have ws: "start_if ''enable_ws'' (StartWS E) (?r\<lparr>listeners := [''tcp'']\<rparr>) = Ret () (?r\<lparr>listeners := [''tcp'', ''ws'']\<rparr>)"
    using start_if_run [of "?r\<lparr>listeners := [''tcp'']\<rparr>" "''enable_ws''" True "StartWS E"]
      open_listener_run [of "?r\<lparr>listeners := [''tcp'']\<rparr>" E "''ws''" WSPort] template_reads(5) [OF assms(1)] assms(2,5)
    by (simp add: StartWS_def)
  have off: "start_if ''enable_tls'' m (?r\<lparr>listeners := x\<rparr>) = Ret () (?r\<lparr>listeners := x\<rparr>)"
    "start_if ''enable_wss'' m (?r\<lparr>listeners := x\<rparr>) = Ret () (?r\<lparr>listeners := x\<rparr>)" for m x
    using template_reads(6,7) [OF assms(1)] start_if_run [of "?r\<lparr>listeners := x\<rparr>" "''enable_tls''" False m]
      start_if_run [of "?r\<lparr>listeners := x\<rparr>" "''enable_wss''" False m] by simp_all
  show ?thesis
    by (rule seqM_RetI, rule rpc, rule seqM_RetI, rule tcp, rule seqM_RetI, rule ws, rule seqM_RetI, rule off(1), rule seqM_RetI, rule off(2)) simp
qed

lemma savePid_run:
  "create_err S pidf = None \<Longrightarrow> write_err S pidf = None \<Longrightarrow>
   savePid S s = Ret () (s\<lparr>files := (files s)(pidf \<mapsto> dec_int (getpid S))\<rparr>)"
  by (simp add: savePid_def os_defs Let_def go_defs)

lemma sara_start_template:
  assumes conf: "template_conf (conf s)" and none: "heap s = Map.empty" "sessionMap s = Map.empty" "\<not> exited s"
    and dial: "redis_dial E MODEL_CLUSTER ''localhost:6379'' 100 = None \<or> redis_dial E MODEL_SINGLE ''localhost:6379'' 100 = None"
    and ports: "rpc_listen E ''localhost:4281'' = None" "listen E ''tcp'' 4222 = None" "listen E ''ws'' 4224 = None"
    and pid: "create_err (sys E) pidf = None" "write_err (sys E) pidf = None"
  shows "\<exists>t. sara_start E s = Ret () t \<and> currentnode t \<and> \<not> exited t \<and> no_sessions t \<and> nNodeid t = ''n01'' \<and>
    listeners t = [''tcp'', ''ws''] \<and> http_rpc t = Some 4280 \<and> log_filters t = [(''file'', DEBUG), (''stdout'', DEBUG)] \<and>
    conf t = conf s \<and> os t = (os s)\<lparr>files := (files (os s))(pidf \<mapsto> dec_int (getpid (sys E)))\<rparr>"
proof -
  let ?s = "s\<lparr>log_filters := [(''file'', DEBUG), (''stdout'', DEBUG)]\<rparr>"
  obtain n where n: "New E ?s = Ret True n" "conf n = conf s" "no_sessions n" "\<not> exited n" "listeners n = []" "Port n = 4222" "WSPort n = 4224"
      "nNodeid n = ''n01''" "log_filters n = log_filters ?s" "os n = os s"
    using New_template [of ?s E] conf none dial ports(1) by auto
  let ?n = "n\<lparr>currentnode := True\<rparr>" and ?o = "(os s)\<lparr>files := (files (os s))(pidf \<mapsto> dec_int (getpid (sys E)))\<rparr>"
  let ?t = "?n\<lparr>http_rpc := Some 4280, services := RegService (services n), listeners := [''tcp'', ''ws'']\<rparr>"
  have pidfile: "on_os (savePid (sys E)) ?t = Ret () (?t\<lparr>os := ?o\<rparr>)"
    using savePid_run [OF pid] n(10) by (intro on_os_Ret) simp
  have lvl: "length logLevel = 4" "logLevel ! 3 = DEBUG" by (simp_all add: logLevel_def)
  have "sara_start E s = bindM (New E) (\<lambda>up. seqM (modifyM (\<lambda>s. s\<lparr>currentnode := up\<rparr>)) (bindM (getsM exited) (\<lambda>ended.
      if ended then returnM () else
      seqM StartRPC (seqM (start_if ''enable_tcp'' (StartTCP E)) (seqM (start_if ''enable_ws'' (StartWS E))
       (seqM (start_if ''enable_tls'' (StartTLS E)) (seqM (start_if ''enable_wss'' (StartWSS E))
       (seqM (on_os (savePid (sys E))) (with_node (returnM ()))))))))))  ?s"
    using template_reads(1,2) [OF conf] by (simp add: sara_start_def conf_reads lvl seqM_modifyM)
  also have "\<dots> = seqM (on_os (savePid (sys E))) (with_node (returnM ())) ?t"
    using listeners_template [of ?n E] conf n(2,4-7) ports(2,3)
    by - (rule bindM_RetI, rule n(1), simp add: seqM_modifyM bindM_getsM)
  also have "\<dots> = Ret () (?t\<lparr>os := ?o\<rparr>)" by (rule seqM_RetI, rule pidfile) (simp add: with_node_def go_defs)
  finally show ?thesis using n by (auto simp: no_sessions_def)
qed

text \<open>
  C17: A generated configuration starts a server.  The command \<open>setup\<close> writes the template to a
  file, and the server started with this file, with a Redis server at the default address
  and the default ports free, returns from its start with a node: without sessions, with
  the template's node id, with exactly the TCP and the WebSocket listener open and the HTTP
  service on its port, logging to the file and to the console, and with its process id in
  the pid file.
\<close>

theorem setup_then_start:
  assumes floats: "floats_exact E"
    and out: "GlobalString ctx ''config'' = out" "create_err (sys E) out = None" "write_err (sys E) out = None" "read_err (sys E) out = None"
    and none: "heap s = Map.empty" "sessionMap s = Map.empty" "\<not> exited s"
    and dial: "redis_dial E MODEL_CLUSTER ''localhost:6379'' 100 = None \<or> redis_dial E MODEL_SINGLE ''localhost:6379'' 100 = None"
    and ports: "rpc_listen E ''localhost:4281'' = None" "listen E ''tcp'' 4222 = None" "listen E ''ws'' 4224 = None"
    and pid: "create_err (sys E) pidf = None" "write_err (sys E) pidf = None"
  shows "\<exists>w t. setupConf (sys E) out (os s) = Ret None w \<and> sara E ctx (s\<lparr>os := w\<rparr>) = Ret () t \<and>
    currentnode t \<and> \<not> exited t \<and> no_sessions t \<and> nNodeid t = ''n01'' \<and> listeners t = [''tcp'', ''ws''] \<and> http_rpc t = Some 4280 \<and>
    log_filters t = [(''file'', DEBUG), (''stdout'', DEBUG)] \<and> files (os t) pidf = Some (dec_int (getpid (sys E)))"
proof -
  let ?w = "(os s)\<lparr>files := (files (os s))(out \<mapsto> Template), stdout := stdout (os s) @ [''[success] setup config to : '' @ out]\<rparr>"
  have wr: "setupConf (sys E) out (os s) = Ret None ?w"
    using out(2,3) by (simp add: setupConf_def os_defs go_defs)
  obtain m where m: "LoadFromConf E (Some Template) (s\<lparr>os := ?w\<rparr>) = Ret False (s\<lparr>os := ?w, conf := m\<rparr>)" "template_conf m"
    using load_template [OF floats, of "s\<lparr>os := ?w\<rparr>"] by (auto simp: template_conf_def)
  have load: "Load E ctx (s\<lparr>os := ?w\<rparr>) = Ret False (s\<lparr>os := ?w, conf := m\<rparr>)"
    by (rule Load_run [OF _ _ m(1)]) (use out in simp_all)
  have "sara E ctx (s\<lparr>os := ?w\<rparr>) = sara_start E (s\<lparr>os := ?w, conf := m\<rparr>)"
    unfolding sara_def by (rule bindM_RetI, rule load) simp
  then show ?thesis
    using sara_start_template [of "s\<lparr>os := ?w, conf := m\<rparr>" E] m(2) none dial ports pid wr
    by (intro exI [of _ ?w]) auto
qed

subsection \<open>Stopping a server\<close>

lemma Atoi_dec_int:
  assumes "0 \<le> n" "n < 2 ^ 63"
  shows "Atoi (dec_int n) = n"
proof -
  let ?d = "dec_nat (nat n)"
  have d: "?d \<noteq> []" "list_all is_digit ?d" by (auto simp: list_all_iff dest: dec_nat_digits)
  then have "is_digit (hd ?d)" by (simp add: list_all_iff)
  then have "hd ?d \<noteq> CHR ''-''" "hd ?d \<noteq> CHR ''+''" by (auto simp: is_digit_def)
  then show ?thesis using assms d by (simp add: Atoi_def parse_int64_def dec_int_def)
qed


text \<open>
  Without a pid file \<open>stop\<close> does nothing and still reports success, while \<open>pprof\<close> reports the
  error; a pid file that holds no number is reported by both.
\<close>

theorem stop_without_pid_file:
  "files s pidf = None \<Longrightarrow> stop S s = Ret None s \<and> (\<exists>e. pprofForDebug S s = Ret (Some e) s)"
  "files s pidf = Some b \<Longrightarrow> read_err S pidf = None \<Longrightarrow> Atoi b = 0 \<Longrightarrow>
     (\<exists>e. stop S s = Ret (Some e) s) \<and> (\<exists>e. pprofForDebug S s = Ret (Some e) s)"
  by (auto simp: stop_def pprofForDebug_def ReadFile_def FindProcess_def Signal_def go_defs)

subsection \<open>Profiles\<close>

text \<open>
  A profile signal ends the process in debug mode when the file for the block profile cannot
  be created: the error message dereferences the nil file, and nobody recovers.
\<close>

theorem profile_signal_crashes:
  assumes "GlobalBool ctx ''debug''" "create_err (sys E) blk_log = Some e"
  shows "\<exists>t. signalHandler E ctx SIGUSR1 s = Panic NilDeref t"
proof -
  have cpu: "\<exists>o'. stopCpuProfiles (sys E) w = Ret () o'" and mem: "\<exists>o'. stopMemProfiles (sys E) w = Ret () o'" for w
    by (auto simp: stopCpuProfiles_def stopMemProfiles_def os_defs go_defs split: option.splits)
  obtain o1 where o1: "stopCpuProfiles (sys E) (os s) = Ret () o1" using cpu by blast
  obtain o2 where o2: "stopMemProfiles (sys E) o1 = Ret () o2" using mem by blast
  have "stopBlockProfile (sys E) o2 = Panic NilDeref o2" using assms(2) by (simp add: stopBlockProfile_def os_defs go_defs)
  then show ?thesis using assms(1) o1 o2 by (simp add: signalHandler_def on_os_def go_defs)
qed

subsection \<open>Examples\<close>

lemma floats_exact_sample: "floats_exact (sample_benv f)"
proof -
  have "parse_int64 (dec_nat n) = int n" if "n < 2 ^ 53" for n
    using Atoi_dec_int [of "int n"] that by (simp add: Atoi_def dec_int_def)
  then show ?thesis by (simp add: floats_exact_def sample_benv_def rpc_env.defs sample_renv_def sample_env_def)
qed

theorem setup_then_start_witness:
  "\<exists>w t. setupConf sample_sys ''/etc/sara/conf.json'' sample_os = Ret None w \<and>
     sara (sample_benv (\<lambda>m. None)) sample_ctx (sample_proc\<lparr>os := w\<rparr>) = Ret () t \<and> listeners t = [''tcp'', ''ws''] \<and>
     files (os t) pidf = Some (dec_int 4711)"
proof -
  let ?E = "sample_benv (\<lambda>m. None)"
  have l: "listen ?E x p = None" for x p by (simp add: sample_benv_def rpc_env.defs boot_env.defs)
  have o: "create_err sample_sys x = None" "write_err sample_sys x = None" "read_err sample_sys x = None" "getpid sample_sys = 4711" for x
    by (simp_all add: sample_sys_def)
  have c: "GlobalString sample_ctx ''config'' = ''/etc/sara/conf.json''" by (simp add: sample_ctx_def)
  show ?thesis
    using setup_then_start [OF floats_exact_sample c, of "\<lambda>m. None" sample_proc] by (simp add: l o) blast
qed

definition running_proc :: "mem proc_state" where
  "running_proc = node_state.extend (one_node STATUS_CONN)
     (proc_state.fields ''localhost:6379'' 100 False [] 4222 4333 4224 4334 True True None Map.empty [] False False sample_os)"


theorem profile_signal_crashes_witness:
  "\<exists>t. signalHandler (sample_benv (\<lambda>m. None)\<lparr>sys := sample_sys\<lparr>create_err := (\<lambda>p. Some ''permission denied'')\<rparr>\<rparr>)
     (sample_ctx\<lparr>GlobalBool := (\<lambda>k. k = ''debug'')\<rparr>) SIGUSR1 sample_proc = Panic NilDeref t"
  by (rule profile_signal_crashes) (simp_all add: sample_sys_def)

end
