(* ===== verification/Benchmark.thy ===== *)
theory Benchmark
  imports Boot
begin

text \<open>
  The load generator of the command \<open>makeconn\<close> (\<^verbatim>\<open>benchmark/makeconn.go\<close>): clients that log in to
  a server, keep their connections alive, send each other messages and acknowledge what
  they receive.

  The program is the same as the server's, so the state extends its state by the package's
  variables.  A client is created by one round of a dialling goroutine (\<open>genTcp\<close>), and from
  then on has three goroutines of its own, whose rounds are \<open>beat\<close>, \<open>say\<close> and \<open>hear\<close>.  The
  network is the environment: whether a connection can be made, the first read of each
  connection, and the values of the random source.
\<close>

subsection \<open>The index of clients\<close>

record sessionIndex =
  uidMap :: "string \<rightharpoonup> nat"
  uidArr :: "string list"
  si_send :: "32 word"
  si_recv :: "32 word"

definition newSessionIndex :: sessionIndex where
  "newSessionIndex = \<lparr>uidMap = Map.empty, uidArr = [], si_send = 0, si_recv = 0\<rparr>"

definition si_add :: "string \<Rightarrow> sessionIndex \<Rightarrow> sessionIndex" where
  "si_add uid self =
     (if uidMap self uid = None then
        self\<lparr>uidArr := uidArr self @ [uid], uidMap := (uidMap self)(uid \<mapsto> length (uidArr self @ [uid]) - 1)\<rparr>
      else self)"

definition si_del :: "string \<Rightarrow> sessionIndex \<Rightarrow> sessionIndex go" where
  "si_del uid self =
     (case uidMap self uid of
        Some idx \<Rightarrow>
          if idx < length (uidArr self)
          then Inr (self\<lparr>uidArr := (uidArr self)[idx := []], uidMap := (uidMap self)(uid := None)\<rparr>)
          else Inl IndexRange
      | None \<Rightarrow> Inr self)"

text \<open>\<open>Intn\<close> of the random source, whose next value is \<open>k\<close>.\<close>

definition Intn :: "nat \<Rightarrow> int \<Rightarrow> nat go" where
  "Intn k n = (if n \<le> 0 then Inl BadArgument else Inr (k mod nat n))"

text \<open>The body of \<open>rand\<close>; its caller recovers a panic, which leaves the result empty.\<close>

definition rand_body :: "nat \<Rightarrow> string \<Rightarrow> sessionIndex \<Rightarrow> string go" where
  "rand_body k uid self =
     (if length (uidArr self) \<le> 0 then Inr []
      else bindG (Intn k (int (length (uidArr self)) - 1)) (\<lambda>idx.
        let to = uidArr self ! idx in Inr (if uid = to then [] else to)))"

definition si_rand :: "nat \<Rightarrow> string \<Rightarrow> sessionIndex \<Rightarrow> string" where
  "si_rand k uid self = (case rand_body k uid self of Inr to \<Rightarrow> to | Inl _ \<Rightarrow> [])"

definition counter :: "string \<Rightarrow> sessionIndex \<Rightarrow> sessionIndex" where
  "counter action self =
     (if action = ''W'' then self\<lparr>si_send := si_send self + 1\<rparr>
      else if action = ''R'' then self\<lparr>si_recv := si_recv self + 1\<rparr>
      else self)"

subsection \<open>State\<close>

record client =
  uid :: string
  cstate :: string
  cconn :: conn
  reader :: TcpSessionConn
  running :: bool         \<comment> \<open>its goroutines have been started\<close>
  talks :: bool           \<comment> \<open>the one that sends messages too\<close>
  stopped :: bool         \<comment> \<open>the channel that ends them is closed\<close>

record 'r bench_env = "'r boot_env" +
  tcp_dial :: "nat \<Rightarrow> string \<Rightarrow> string option"
  tcp_dial_from :: "nat \<Rightarrow> string option \<Rightarrow> string option \<Rightarrow> string option"
  resolve :: "string \<Rightarrow> string option"
  first_read :: "nat \<Rightarrow> read_event"
  intn_at :: "nat \<Rightarrow> nat"
  NumCPU :: nat

record 'r bench_state = "'r proc_state" +
  si :: sessionIndex
  clients :: "client list"
  fail :: int
  heartbeat_gap :: int
  messageGap :: int
  messageSize :: int
  content :: bytes
  localAddr :: string
  addrQueue :: "string list"
  addrClosed :: bool
  localPortPool :: "int list"
  sendMessage :: bool
  wg_count :: int
  unsent :: nat           \<comment> \<open>addresses \<open>MakeConn\<close> has still to queue\<close>
  conns_made :: nat       \<comment> \<open>connections tried\<close>
  intn_n :: nat

type_synonym ('r, 'e) mkenv = "('r, 'e) bench_env_scheme"
type_synonym ('r, 'z, 'a) bench_op = "(('r, 'z) bench_state_scheme, 'a) op"

definition upd_si :: "(sessionIndex \<Rightarrow> sessionIndex) \<Rightarrow> ('r, 'z, unit) bench_op" where
  "upd_si f = modifyM (\<lambda>s. s\<lparr>si := f (si s)\<rparr>)"

subsection \<open>Packets\<close>

definition quoted :: "bytes \<Rightarrow> bytes" where
  "quoted s = QUOTE # s @ [QUOTE]"

definition sfpacket :: "string \<Rightarrow> string \<Rightarrow> bytes" where
  "sfpacket u i =
     [CHR ''{''] @ quoted ''envelope'' @ '':{'' @ quoted ''pwd'' @ '':'' @ quoted ''123'' @ '','' @
     quoted ''jid'' @ '':'' @ quoted (u @ ''@a.a'') @ '','' @ quoted ''type'' @ '':0,'' @ quoted ''id'' @ '':'' @ quoted i @ ''},'' @
     quoted ''vsn'' @ '':'' @ quoted ''0.0.1'' @ ''}''"

definition messageTemplate :: "string \<Rightarrow> string \<Rightarrow> string \<Rightarrow> bytes \<Rightarrow> bytes" where
  "messageTemplate from to i c =
     [CHR ''{''] @ quoted ''envelope'' @ '':{'' @ quoted ''from'' @ '':'' @ quoted (from @ ''@a.a'') @ '','' @
     quoted ''to'' @ '':'' @ quoted (to @ ''@a.a'') @ '','' @ quoted ''type'' @ '':1,'' @ quoted ''id'' @ '':'' @ quoted i @ ''},'' @
     quoted ''vsn'' @ '':'' @ quoted ''0.0.1'' @ '','' @ quoted ''payload'' @ '':{'' @ quoted ''content'' @ '':'' @ quoted c @ ''}}''"

definition messageAck :: "string \<Rightarrow> string \<Rightarrow> bytes" where
  "messageAck from i =
     [CHR ''{''] @ quoted ''envelope'' @ '':{'' @ quoted ''type'' @ '':3,'' @ quoted ''from'' @ '':'' @ quoted from @ '','' @
     quoted ''to'' @ '':'' @ quoted ''server_ack'' @ '','' @ quoted ''id'' @ '':'' @ quoted i @ ''},'' @
     quoted ''vsn'' @ '':'' @ quoted ''0.0.1'' @ ''}''"

subsection \<open>A client\<close>

definition write_to :: "bytes \<Rightarrow> client \<Rightarrow> ('r, 'z, client) bench_op" where
  "write_to p c = bindM (tcp_WritePacket p (cconn c)) (\<lambda>(cn, _, _). returnM (c\<lparr>cconn := cn\<rparr>))"

text \<open>
  The login and, when the server accepts it, the start of the goroutines.  The answer is
  what the first read gives, at most 256 bytes of it.
\<close>

definition client_start :: "('r, 'e) mkenv \<Rightarrow> nat \<Rightarrow> client \<Rightarrow> ('r, 'z, client) bench_op" where
  "client_start E n self =
     bindM (uuid_rand_hex E) (\<lambda>i.
     let data = sfpacket (uid self) i @ [CHR 0x01] in
     case conn_write data (cconn self) of
       (cn, _, Some _) \<Rightarrow> returnM (self\<lparr>cconn := cn\<rparr>)
     | (cn, _, None) \<Rightarrow>
         (case first_read E n of
            ReadErr err \<Rightarrow> seqM (on_os (Println (''0 read_err: '' @ err))) (returnM (self\<lparr>cconn := cn\<rparr>))
          | ReadData d \<Rightarrow>
              (let buf = take 256 d in
               if buf = [] then liftM (Inl IndexRange)
               else
                 (let b = butlast buf;
                      r = ResultString (float_text E) (Get b [''entity'', ''result''])
                  in if ''ok'' \<noteq> r then
                       seqM (on_os (Println (''fail '' @ b))) (returnM (self\<lparr>cstate := r, cconn := conn_Close cn\<rparr>))
                     else
                       seqM (upd_si (si_add (uid self)))
                       (bindM (getsM content) (\<lambda>c.
                       returnM (self\<lparr>cstate := r, cconn := cn, reader := NewTcpSessionConn, running := True,
                         talks := (length c > 0)\<rparr>)))))))"

text \<open>A round of the goroutine that keeps the session alive, and of the one that sends messages.\<close>

definition beat :: "client \<Rightarrow> ('r, 'z, client) bench_op" where
  "beat self = (if running self \<and> \<not> stopped self then write_to [CHR 0x02, CHR 0x01] self else returnM self)"

definition say :: "('r, 'e) mkenv \<Rightarrow> client \<Rightarrow> ('r, 'z, client) bench_op" where
  "say E self =
     (if running self \<and> talks self \<and> \<not> stopped self then
        bindM (getsM content) (\<lambda>c.
        bindM (getsM sendMessage) (\<lambda>go_on.
        if length c > 0 \<and> go_on then
          bindM (uuid_rand_hex E) (\<lambda>i.
          bindM (getsM (\<lambda>s. si_rand (intn_at E (intn_n s)) (uid self) (si s))) (\<lambda>to.
          seqM (modifyM (\<lambda>s. s\<lparr>intn_n := Suc (intn_n s)\<rparr>))
          (if to \<noteq> [] then
             bindM (write_to (messageTemplate (uid self) to i c @ [CHR 0x01]) self) (\<lambda>self'.
             seqM (upd_si (counter ''W'')) (returnM self'))
           else returnM self)))
        else returnM self))
      else returnM self)"

text \<open>The handler of what the reader finds: an acknowledgement for everything that is not a state.\<close>

fun ack_all :: "bytes list \<Rightarrow> client \<Rightarrow> ('r, 'z, client) bench_op" where
  "ack_all [] self = returnM self"
| "ack_all (packet # ps) self =
     (case NewPacket packet of
        Inl err \<Rightarrow> ack_all ps self
      | Inr p \<Rightarrow>
          (case EnvelopeIdFromToType p of (i, fm, to, tp) \<Rightarrow>
           if tp \<noteq> MSG_TYPE_STATE then
             bindM (write_to (messageAck to i @ [CHR 0x01]) self) (\<lambda>self'.
             seqM (upd_si (counter ''R'')) (ack_all ps self'))
           else ack_all ps self))"

definition handler :: "ReadPacketResult \<Rightarrow> client \<Rightarrow> ('r, 'z, client) bench_op" where
  "handler r self =
     (case rp_err r of
        Some _ \<Rightarrow>
          bindM (getsM (\<lambda>s. si_del (uid self) (si s))) (\<lambda>d.
          bindM (liftM d) (\<lambda>si'.
          seqM (upd_si (\<lambda>_. si'))
          (if stopped self then liftM (Inl SendClosed) else returnM (self\<lparr>stopped := True\<rparr>))))
      | None \<Rightarrow> ack_all (rp_packets r) self)"

text \<open>\<open>callbackHandler\<close> of the connection recovers from a panic of the handler and closes.\<close>

definition callbackHandler :: "(ReadPacketResult \<Rightarrow> client \<Rightarrow> ('r, 'z, client) bench_op) \<Rightarrow>
    ReadPacketResult \<Rightarrow> client \<Rightarrow> ('r, 'z, client) bench_op" where
  "callbackHandler h r self s =
     (case h r self s of Ret c t \<Rightarrow> Ret c t | Panic p t \<Rightarrow> Ret (self\<lparr>cconn := conn_Close (cconn self)\<rparr>) t)"

fun call_all :: "ReadPacketResult list \<Rightarrow> client \<Rightarrow> ('r, 'z, client) bench_op" where
  "call_all [] self = returnM self"
| "call_all (r # rs) self = bindM (callbackHandler handler r self) (call_all rs)"

text \<open>One read of the receive loop.\<close>

definition hear :: "read_event \<Rightarrow> client \<Rightarrow> ('r, 'z, client) bench_op" where
  "hear ev self =
     (if running self then
        seqM (MeasureReadAdd 1)
          (case tcp_recv (reader self) [ev] of (rs, tc) \<Rightarrow> call_all rs (self\<lparr>reader := tc\<rparr>))
      else returnM self)"

definition on_client :: "nat \<Rightarrow> (client \<Rightarrow> ('r, 'z, client) bench_op) \<Rightarrow> ('r, 'z, unit) bench_op" where
  "on_client i f =
     bindM (getsM clients) (\<lambda>cs.
     if i < length cs then bindM (f (cs ! i)) (\<lambda>c. modifyM (\<lambda>s. s\<lparr>clients := (clients s)[i := c]\<rparr>))
     else returnM ())"

subsection \<open>Connecting\<close>

definition bm_newClient :: "('r, 'e) mkenv \<Rightarrow> string \<Rightarrow> string \<Rightarrow> int \<Rightarrow> ('r, 'z, string option) bench_op" where
  "bm_newClient E addr laddr lport =
     bindM (getsM conns_made) (\<lambda>n.
     bindM (getsM localAddr) (\<lambda>la.
     seqM (modifyM (\<lambda>s. s\<lparr>conns_made := Suc (conns_made s)\<rparr>))
     (case (if laddr = [] then tcp_dial E n addr
            else tcp_dial_from E n (resolve E (la @ '':'' @ dec_int lport)) (resolve E addr)) of
        Some err \<Rightarrow> seqM (on_os (Println err)) (returnM (Some err))
      | None \<Rightarrow>
          bindM (uuid_rand_hex E) (\<lambda>u.
          bindM (client_start E n \<lparr>uid = u, cstate = [], cconn = new_conn TCP, reader = NewTcpSessionConn,
            running = False, talks = False, stopped = False\<rparr>) (\<lambda>c.
          seqM (modifyM (\<lambda>s. s\<lparr>clients := clients s @ [c]\<rparr>)) (returnM None))))))"

definition count_fail :: "string option \<Rightarrow> ('r, 'z, unit) bench_op" where
  "count_fail e = whenM (e \<noteq> None) (modifyM (\<lambda>s. s\<lparr>fail := fail s + 1\<rparr>))"

definition wg_Add :: "int \<Rightarrow> ('r, 'z, unit) bench_op" where
  "wg_Add n = bindM (getsM wg_count) (\<lambda>w. if w + n < 0 then liftM (Inl BadArgument) else modifyM (\<lambda>s. s\<lparr>wg_count := w + n\<rparr>))"

text \<open>
  A round of a dialling goroutine.  The result tells whether it completes: without an address
  or, with local addresses, without a port it waits.
\<close>

definition genTcp :: "('r, 'e) mkenv \<Rightarrow> ('r, 'z, bool) bench_op" where
  "genTcp E s =
     (case addrQueue s of
        [] \<Rightarrow> Ret False s
      | addr # q \<Rightarrow>
          (let s = s\<lparr>addrQueue := q\<rparr> in
           if localAddr s = [] then
             seqM (bindM (bm_newClient E addr [] 0) count_fail) (seqM (wg_Add (- 1)) (returnM True)) s
           else
             (case localPortPool s of
                [] \<Rightarrow> Ret False s
              | lport # ports \<Rightarrow>
                  seqM (forM (split_on (CHR '','') (localAddr s)) (\<lambda>laddr. bindM (bm_newClient E addr laddr lport) count_fail))
                    (seqM (wg_Add (- 1)) (returnM True)) (s\<lparr>localPortPool := ports\<rparr>))))"

text \<open>
  The ports for local addresses: sent into a channel of 65535 places before anybody
  receives, so that with more of them the program waits for ever (\<open>None\<close>).
\<close>

definition fill_ports :: "int \<Rightarrow> int list option" where
  "fill_ports tot =
     (if tot + 100 > 65535 then None else Some (map (\<lambda>i. 65535 - int i) [0..<nat (tot + 100)]))"

text \<open>\<open>MakeConn\<close> up to the point where the goroutines run; the result tells whether it gets there.\<close>

definition MakeConn :: "string \<Rightarrow> string \<Rightarrow> int \<Rightarrow> int \<Rightarrow> int \<Rightarrow> int \<Rightarrow> ('r, 'z, bool) bench_op" where
  "MakeConn laddr addr tot hb mg ms =
     recovering False
     (seqM (modifyM (\<lambda>s. s\<lparr>log_filters := log_filters s @ [(''file'', ERROR), (''stdout'', ERROR)]\<rparr>))
     (seqM (upd_si (\<lambda>_. newSessionIndex))
     (seqM (on_os (Println (laddr @ '' '' @ addr @ '' '' @ dec_int tot @ '' '' @ dec_int hb)))
     (seqM (modifyM (\<lambda>s. s\<lparr>localAddr := laddr\<rparr>))
     (case (if laddr \<noteq> [] then fill_ports tot else Some []) of
        None \<Rightarrow> returnM False
      | Some ports \<Rightarrow>
          seqM (modifyM (\<lambda>s. s\<lparr>localPortPool := ports, heartbeat_gap := hb, messageGap := mg, messageSize := ms\<rparr>))
          (seqM (whenM (ms > 0) (modifyM (\<lambda>s. s\<lparr>content := replicate (nat ms) (CHR 0x61)\<rparr>)))
          (seqM (wg_Add tot)
          (seqM (modifyM (\<lambda>s. s\<lparr>unsent := nat tot\<rparr>)) (returnM True)))))))))"

text \<open>\<open>MakeConn\<close> puts an address on the queue, which has room for 100.\<close>

definition feed :: "string \<Rightarrow> ('r, 'z, bool) bench_op" where
  "feed addr s =
     (if unsent s > 0 \<and> length (addrQueue s) < 100
      then Ret True (s\<lparr>addrQueue := addrQueue s @ [addr], unsent := unsent s - 1\<rparr>)
      else Ret False s)"

text \<open>The beginning of \<open>showStatus\<close>, which lets the clients send, and a round of its loop, which began at \<open>ts\<close>.
  Go's division by zero panics.\<close>

definition showStatus_begin :: "('r, 'e) mkenv \<Rightarrow> ('r, 'z, unit) bench_op" where
  "showStatus_begin E =
     seqM (modifyM (\<lambda>s. s\<lparr>sendMessage := True\<rparr>))
     (bindM (Timestamp10 E) (\<lambda>ts.
     seqM (on_os (Println (''---------------------------- '' @ dec_int ts)))
       (on_os (Println (join [CHR 0x09] [''SEND'', ''RECV'', ''SEND/s'', ''RECV/s'', ''NOW''])))))"

definition showStatus :: "('r, 'e) mkenv \<Rightarrow> int \<Rightarrow> ('r, 'z, unit) bench_op" where
  "showStatus E ts =
     bindM (getsM (\<lambda>s. (sint (si_send (si s)), sint (si_recv (si s))))) (\<lambda>(sent, got).
     if got > 0 \<and> sent > 0 then
       bindM (Timestamp10 E) (\<lambda>now.
       let d = now - ts in
       if d = 0 then liftM (Inl BadArgument)
       else on_os (Println ([CHR 0x0D, CHR 0x08] @ dec_int sent @ [CHR 0x09] @ dec_int got @ [CHR 0x09] @
         dec_int (quot sent d) @ [CHR 0x09] @ dec_int (quot got d) @ [CHR 0x09] @ dec_int now)))
     else returnM ())"

text \<open>The rest of \<open>MakeConn\<close>, when all connections have been tried; \<open>ms\<close> is the time it took.\<close>

definition finish :: "('r, 'e) mkenv \<Rightarrow> int \<Rightarrow> int \<Rightarrow> int \<Rightarrow> ('r, 'z, bool) bench_op" where
  "finish E tot hb took =
     bindM (getsM wg_count) (\<lambda>w.
     if w \<noteq> 0 then returnM False
     else
       bindM (getsM (\<lambda>s. (localAddr s, fail s, messageSize s))) (\<lambda>(la, failed, ms).
       let ll = int (length (split_on (CHR '','') la)) in
       seqM (on_os (Println (''cpu core: '' @ dec_nat (NumCPU E) @ ''  worker: '' @ dec_nat (NumCPU E * 2))))
       (seqM (on_os (Println (''total: '' @ dec_int (tot * ll) @ '' finished , fail: '' @ dec_int failed @
          ''  time: '' @ dec_int took @ '' ms. heartbeat: '' @ dec_int hb)))
       (seqM (whenM (ms > 0) (showStatus_begin E))
       (seqM (modifyM (\<lambda>s. s\<lparr>addrClosed := True\<rparr>)) (returnM True))))))"

end
