(* ===== verification/Bench_Run.thy ===== *)
theory Bench_Run
  imports Benchmark
begin

text \<open>
  The load generator at work: its index of clients is sound, and under any interleaving of
  its goroutines it tries every connection it was asked for.
\<close>


subsection \<open>The index\<close>

text \<open>The map and the array agree: the entries that are not blank are the registered clients.\<close>

definition si_inv :: "sessionIndex \<Rightarrow> bool" where
  "si_inv x \<longleftrightarrow> (\<forall>u i. uidMap x u = Some i \<longleftrightarrow> i < length (uidArr x) \<and> uidArr x ! i = u \<and> u \<noteq> [])"

lemma si_inv_new [simp]: "si_inv newSessionIndex"
  by (simp add: si_inv_def newSessionIndex_def)

lemma si_inv_add: "si_inv x \<Longrightarrow> u \<noteq> [] \<Longrightarrow> si_inv (si_add u x)"
  unfolding si_inv_def si_add_def by (auto simp: nth_append less_Suc_eq) (metis option.distinct(1))

lemma si_inv_del: "si_inv x \<Longrightarrow> \<exists>y. si_del u x = Inr y \<and> si_inv y"
  unfolding si_inv_def si_del_def by (auto simp: nth_list_update split: option.splits if_splits) (metis option.inject)

lemma si_inv_counter [simp]: "si_inv (counter a x) = si_inv x"
  by (simp add: si_inv_def counter_def)

lemma si_rand_registered:
  assumes "si_inv x" "si_rand k u x \<noteq> []"
  shows "si_rand k u x \<noteq> u \<and> (\<exists>i. uidMap x (si_rand k u x) = Some i \<and> Suc i < length (uidArr x))"
proof -
  let ?i = "k mod (length (uidArr x) - 1)"
  have n: "1 < length (uidArr x)" "si_rand k u x = uidArr x ! ?i" "si_rand k u x \<noteq> u"
    using assms(2)
    by (auto simp: si_rand_def rand_body_def Intn_def bindG_def Let_def nat_diff_distrib split: if_splits)
  have i: "?i < length (uidArr x) - 1" by (rule mod_less_divisor) (use n(1) in simp)
  then have "uidMap x (si_rand k u x) = Some ?i" using assms n(2) unfolding si_inv_def by simp
  with n(3) i show ?thesis by auto
qed

subsection \<open>Runs\<close>

text \<open>What a client does leaves the dialling alone and the index sound.\<close>

definition aside :: "('r, 'z) bench_state_scheme \<Rightarrow> ('r, 'z) bench_state_scheme \<Rightarrow> bool" where
  "aside s t \<longleftrightarrow> addrQueue t = addrQueue s \<and> unsent t = unsent s \<and> wg_count t = wg_count s \<and>
     localPortPool t = localPortPool s \<and> localAddr t = localAddr s \<and> conns_made t = conns_made s \<and> fail t = fail s \<and>
     clients t = clients s \<and> (si_inv (si s) \<longrightarrow> si_inv (si t))"

definition aloof :: "('r, 'z, 'a) bench_op \<Rightarrow> bool" where
  "aloof m \<longleftrightarrow> (\<forall>s. \<exists>a t. m s = Ret a t \<and> aside s t)"

lemma aside_trans: "aside s t \<Longrightarrow> aside t u \<Longrightarrow> aside s u"
  by (simp add: aside_def)

lemma aloof_returnM [intro!]: "aloof (returnM a)"
  by (simp add: aloof_def aside_def returnM_def)

lemma aloofI: "(\<And>s. \<exists>a t. m s = Ret a t \<and> aside s t) \<Longrightarrow> aloof m"
  by (simp add: aloof_def)

lemma aloofE: "aloof m \<Longrightarrow> (\<And>a t. m s = Ret a t \<Longrightarrow> aside s t \<Longrightarrow> P) \<Longrightarrow> P"
  unfolding aloof_def by blast

lemma aloof_bindM: "aloof m \<Longrightarrow> (\<And>a. aloof (f a)) \<Longrightarrow> aloof (bindM m f)"
proof (rule aloofI)
  fix s assume m: "aloof m" and f: "\<And>a. aloof (f a)"
  obtain a t where t: "m s = Ret a t" "aside s t" using m by (rule aloofE)
  obtain b u where "f a t = Ret b u" "aside t u" using f by (rule aloofE)
  then show "\<exists>b u. bindM m f s = Ret b u \<and> aside s u" using t aside_trans by (auto simp: bindM_def)
qed

lemma aloof_getsM: "(\<And>s. aloof (f (g s))) \<Longrightarrow> aloof (bindM (getsM g) f)"
  unfolding aloof_def by (simp add: bindM_getsM)

lemma aloof_seqM: "aloof m \<Longrightarrow> aloof n \<Longrightarrow> aloof (seqM m n)"
  unfolding seqM_def by (rule aloof_bindM)

lemma aloof_basic: "aloof (uuid_rand_hex E)" "aloof (on_os (Println l))" "aloof (MeasureWriteAdd n)" "aloof (MeasureReadAdd n)"
  "aloof (upd_si (counter a))" "aloof (modifyM (\<lambda>s. s\<lparr>intn_n := Suc (intn_n s)\<rparr>))"
  by (simp_all add: aloof_def aside_def uuid_rand_hex_def on_os_def Println_def modifyM_def MeasureWriteAdd_def MeasureReadAdd_def upd_si_def)

lemma aloof_add: "u \<noteq> [] \<Longrightarrow> aloof (upd_si (si_add u))"
  by (simp add: aloof_def aside_def upd_si_def modifyM_def si_inv_add)

lemma aloof_write_to: "aloof (write_to p c)"
  unfolding write_to_def tcp_WritePacket_def
  by (intro aloof_bindM aloof_seqM aloof_basic aloof_returnM) (auto split: prod.splits)

lemmas aloof_intros = aloof_bindM aloof_getsM aloof_seqM aloof_basic aloof_add aloof_write_to aloof_returnM

lemma aloof_beat: "aloof (beat c)"
  unfolding beat_def by (simp add: aloof_write_to aloof_returnM)

lemma aloof_if: "(b \<Longrightarrow> aloof m) \<Longrightarrow> (\<not> b \<Longrightarrow> aloof n) \<Longrightarrow> aloof (if b then m else n)"
  by simp

lemma aloof_say: "aloof (say E c)"
  unfolding say_def by (intro aloof_if aloof_getsM aloof_bindM aloof_seqM aloof_basic aloof_write_to aloof_returnM)

lemma aloof_client_start:
  assumes "uid c \<noteq> []" "first_read E n \<noteq> ReadData []"
  shows "aloof (client_start E n c)"
  unfolding client_start_def
  by (intro aloof_bindM aloof_basic)
    (use assms in \<open>auto simp: Let_def split: prod.splits option.splits read_event.splits
      intro!: aloof_seqM aloof_getsM aloof_basic aloof_returnM aloof_add\<close>)

lemma aloof_ack_all: "aloof (ack_all ps c)"
proof (induction ps arbitrary: c)
  case (Cons p ps)
  show ?case by (cases "NewPacket p") (auto split: prod.splits intro!: aloof_seqM aloof_bindM aloof_basic aloof_write_to Cons)
qed (simp add: aloof_returnM)

lemma aloof_callbackHandler: "aloof (callbackHandler handler r c)"
proof -
  have "\<exists>a t. callbackHandler handler r c s = Ret a t \<and> aside s t" if "rp_err r = Some e" for e and s :: "('r, 'z) bench_state_scheme"
    using that si_inv_del [of "si s" "uid c"]
    by (cases "si_del (uid c) (si s)")
      (auto simp: callbackHandler_def handler_def bindM_def getsM_def liftM_def seqM_def upd_si_def modifyM_def returnM_def aside_def)
  moreover have "\<exists>a t. callbackHandler handler r c s = Ret a t \<and> aside s t" if "rp_err r = None" for s :: "('r, 'z) bench_state_scheme"
    using that aloof_ack_all [of "rp_packets r" c] unfolding aloof_def
    by (metis (mono_tags, lifting) callbackHandler_def handler_def option.simps(4) outcome.simps(5))
  ultimately show ?thesis unfolding aloof_def by (cases "rp_err r") blast+
qed

lemma aloof_hear: "aloof (hear ev c)"
proof -
  have "aloof (call_all rs c)" for rs and c
    by (induction rs arbitrary: c) (auto intro!: aloof_bindM aloof_returnM aloof_callbackHandler)
  then show ?thesis unfolding hear_def by (auto split: prod.splits intro!: aloof_seqM aloof_basic)
qed


subsection \<open>Dialling\<close>

lemma uuid_text_ne: "uuid_text E n \<noteq> []"
  by (simp add: uuid_text_def Hex_def)

lemma uuid_run: "uuid_rand_hex E s = Ret (uuid_text E (rand_n s)) (s\<lparr>rand_n := Suc (rand_n s)\<rparr>)"
  by (simp add: uuid_rand_hex_def uuid_text_def)

text \<open>A server that answers: a read gives at least one byte or an error.\<close>

definition reads_ok :: "('r, 'e) mkenv \<Rightarrow> bool" where
  "reads_ok E \<longleftrightarrow> (\<forall>n. first_read E n \<noteq> ReadData [])"

text \<open>\<open>k\<close> connections tried: each is a client or a failure.\<close>

definition tried :: "nat \<Rightarrow> ('r, 'z) bench_state_scheme \<Rightarrow> ('r, 'z) bench_state_scheme \<Rightarrow> bool" where
  "tried k s t \<longleftrightarrow> addrQueue t = addrQueue s \<and> unsent t = unsent s \<and> wg_count t = wg_count s \<and>
     localPortPool t = localPortPool s \<and> localAddr t = localAddr s \<and> conns_made t = conns_made s + k \<and>
     fail t + int (length (clients t)) = fail s + int (length (clients s)) + int k \<and> (si_inv (si s) \<longrightarrow> si_inv (si t))"

lemma tried_trans: "tried j s t \<Longrightarrow> tried k t u \<Longrightarrow> tried (j + k) s u"
  by (simp add: tried_def)

lemma newClient_run:
  fixes s :: "('r, 'z) bench_state_scheme"
  assumes "reads_ok E"
  shows "\<exists>t. bindM (bm_newClient E addr laddr lport) count_fail s = Ret () t \<and> tried 1 s t"
proof -
  let ?s = "s\<lparr>conns_made := Suc (conns_made s)\<rparr>"
  define e where "e = (if laddr = [] then tcp_dial E (conns_made s) addr
    else tcp_dial_from E (conns_made s) (resolve E (localAddr s @ '':'' @ dec_int lport)) (resolve E addr))"
  show ?thesis
  proof (cases e)
    case None
    let ?c = "\<lparr>uid = uuid_text E (rand_n s), cstate = [], cconn = new_conn TCP, reader = NewTcpSessionConn,
      running = False, talks = False, stopped = False\<rparr>"
    have "aloof (client_start E (conns_made s) ?c 
      :: ('r, 'z, client) bench_op)"
      by (rule aloof_client_start) (use assms in \<open>simp_all add: reads_ok_def uuid_text_ne\<close>)
    then obtain c t where t: "client_start E (conns_made s) ?c (?s\<lparr>rand_n := Suc (rand_n s)\<rparr>) = Ret c t"
        "aside (?s\<lparr>rand_n := Suc (rand_n s)\<rparr>) t" by (rule aloofE)
    have "bm_newClient E addr laddr lport s = Ret None (t\<lparr>clients := clients t @ [c]\<rparr>)"
      using None t(1) unfolding bm_newClient_def e_def
      by (simp add: bindM_getsM seqM_modifyM bindM_Ret_step [OF uuid_run] bindM_Ret_step returnM_def)
    then show ?thesis using t(2) by (simp add: bindM_Ret_step count_fail_def whenM_def returnM_def tried_def aside_def)
  next
    case (Some x)
    have "bm_newClient E addr laddr lport s = Ret (Some x) (?s\<lparr>os := (os s)\<lparr>stdout := stdout (os s) @ [x]\<rparr>\<rparr>)"
      using Some unfolding bm_newClient_def e_def
      by (simp add: bindM_getsM seqM_modifyM on_os_def Println_def go_defs)
    then show ?thesis by (simp add: bindM_Ret_step count_fail_def whenM_def modifyM_def tried_def)
  qed
qed

lemma newClients_run:
  assumes "reads_ok E"
  shows "\<exists>t. forM ls (\<lambda>laddr. bindM (bm_newClient E addr laddr lport) count_fail) s = Ret () t \<and> tried (length ls) s t"
proof (induction ls arbitrary: s)
  case (Cons l ls)
  obtain t where t: "bindM (bm_newClient E addr l lport) count_fail s = Ret () t" "tried 1 s t"
    using newClient_run [OF assms] by blast
  obtain u where u: "forM ls (\<lambda>laddr. bindM (bm_newClient E addr laddr lport) count_fail) t = Ret () u" "tried (length ls) t u"
    using Cons by blast
  show ?case using t u(1) tried_trans [OF t(2) u(2)] by (simp add: seqM_Ret_step)
qed (simp add: returnM_def tried_def)

text \<open>The number of connections an address stands for: one for each local address.\<close>

definition per_addr :: "string \<Rightarrow> nat" where
  "per_addr la = length (split_on (CHR '','') la)"

lemma per_addr_0 [simp]: "per_addr [] = 1"
  by (simp add: per_addr_def)

text \<open>
  What holds while \<open>MakeConn la addr tot\<close> runs: the wait group counts the addresses that
  are still to be dialled, the ports suffice for them, and all others have been tried.
\<close>

definition dialling :: "string \<Rightarrow> nat \<Rightarrow> ('r, 'z) bench_state_scheme \<Rightarrow> bool" where
  "dialling la tot s \<longleftrightarrow> si_inv (si s) \<and> localAddr s = la \<and> unsent s + length (addrQueue s) \<le> tot \<and>
     wg_count s = int (unsent s + length (addrQueue s)) \<and>
     (la \<noteq> [] \<longrightarrow> length (localPortPool s) = unsent s + length (addrQueue s) + 100) \<and>
     conns_made s + per_addr la * (unsent s + length (addrQueue s)) = per_addr la * tot \<and>
     fail s + int (length (clients s)) = int (conns_made s)"

lemma genTcp_run:
  assumes E: "reads_ok E" and d: "dialling la tot s" and q: "addrQueue s = a # q"
  shows "\<exists>t. genTcp E s = Ret True t \<and> dialling la tot t \<and> addrQueue t = q \<and> unsent t = unsent s"
proof (cases "la = []")
  case True
  obtain t where t: "bindM (bm_newClient E a [] 0) count_fail (s\<lparr>addrQueue := q\<rparr>) = Ret () t" "tried 1 (s\<lparr>addrQueue := q\<rparr>) t"
    using newClient_run [OF E] by blast
  have "genTcp E s = Ret True (t\<lparr>wg_count := wg_count t - 1\<rparr>)"
    using t d q True by (simp add: genTcp_def dialling_def tried_def seqM_Ret_step wg_Add_def bindM_getsM seqM_def bindM_def modifyM_def getsM_def returnM_def)
  then show ?thesis using t(2) d q True by (auto simp: dialling_def tried_def)
next
  case False
  then obtain p ps where p: "localPortPool s = p # ps" using d q by (cases "localPortPool s") (auto simp: dialling_def)
  let ?s = "s\<lparr>addrQueue := q, localPortPool := ps\<rparr>"
  obtain t where t: "forM (split_on (CHR '','') la) (\<lambda>laddr. bindM (bm_newClient E a laddr p) count_fail) ?s = Ret () t"
      "tried (per_addr la) ?s t"
    using newClients_run [OF E] unfolding per_addr_def by blast
  have "genTcp E s = Ret True (t\<lparr>wg_count := wg_count t - 1\<rparr>)"
    using t d q p False by (simp add: genTcp_def dialling_def tried_def seqM_Ret_step wg_Add_def seqM_def bindM_def modifyM_def getsM_def returnM_def)
  then show ?thesis using t(2) d q p False by (auto simp: dialling_def tried_def algebra_simps)
qed

lemma feed_run:
  assumes "dialling la tot s" "unsent s > 0" "length (addrQueue s) < 100"
  shows "\<exists>t. feed a s = Ret True t \<and> dialling la tot t"
proof -
  obtain k where "unsent s = Suc k" using assms(2) by (cases "unsent s") auto
  then show ?thesis using assms by (auto simp: feed_def dialling_def)
qed

lemma dialling_aside: "aside s t \<Longrightarrow> dialling la tot s \<Longrightarrow> dialling la tot t"
  by (simp add: aside_def dialling_def)

lemma on_client_run:
  assumes "\<And>c. aloof (f c :: ('r, 'z, client) bench_op)" "dialling la tot s"
  shows "\<exists>t. on_client i f s = Ret () t \<and> dialling la tot t"
proof (cases "i < length (clients s)")
  case True
  obtain c t where t: "f (clients s ! i) s = Ret c t" "aside s t" using assms(1) by (rule aloofE)
  then have "dialling la tot (t\<lparr>clients := (clients t)[i := c]\<rparr>)"
    using dialling_aside [OF t(2) assms(2)] by (simp add: dialling_def)
  then show ?thesis using t(1) True by (auto simp: on_client_def bindM_getsM bindM_Ret_step modifyM_def)
qed (use assms(2) in \<open>simp add: on_client_def bindM_getsM returnM_def\<close>)

lemma dialling_done:
  assumes "dialling la tot s" "wg_count s = 0"
  shows "conns_made s = per_addr la * tot \<and> fail s + int (length (clients s)) = int (per_addr la * tot)"
proof -
  have "unsent s + length (addrQueue s) = 0" using assms unfolding dialling_def by (metis of_nat_eq_0_iff)
  then show ?thesis using assms(1) by (simp add: dialling_def)
qed

lemma dialling_progress:
  assumes "reads_ok E" "dialling la tot s" "wg_count s \<noteq> 0"
  shows "\<exists>t. (feed a s = Ret True t \<or> genTcp E s = Ret True t) \<and>
    2 * unsent t + length (addrQueue t) < 2 * unsent s + length (addrQueue s)"
proof (cases "addrQueue s")
  case Nil
  then have "unsent s > 0" using assms(2,3) by (simp add: dialling_def)
  then show ?thesis using Nil by (intro exI [of _ "s\<lparr>addrQueue := [a], unsent := unsent s - 1\<rparr>"]) (simp add: feed_def)
next
  case (Cons x q)
  then show ?thesis using genTcp_run [OF assms(1,2) Cons] by auto
qed

subsection \<open>The whole generator\<close>

text \<open>Its goroutines: \<open>MakeConn\<close> queues addresses, others dial, and every client has its own.\<close>

inductive bench_step :: "('r, 'e) mkenv \<Rightarrow> string \<Rightarrow> ('r, 'z) bench_state_scheme \<Rightarrow> ('r, 'z) bench_state_scheme \<Rightarrow> bool"
  for E :: "('r, 'e) mkenv" and addr :: string where
  step_feed: "feed addr s = Ret True t \<Longrightarrow> bench_step E addr s t"
| step_dial: "genTcp E s = Ret True t \<Longrightarrow> bench_step E addr s t"
| step_beat: "on_client i beat s = Ret () t \<Longrightarrow> bench_step E addr s t"
| step_say: "on_client i (say E) s = Ret () t \<Longrightarrow> bench_step E addr s t"
| step_hear: "on_client i (hear ev) s = Ret () t \<Longrightarrow> bench_step E addr s t"

lemma bench_step_dialling:
  assumes "bench_step E addr s t" "reads_ok E" "dialling la tot s"
  shows "dialling la tot t"
  using assms(1)
proof cases
  case step_feed
  then have "unsent s > 0" "length (addrQueue s) < 100" by (auto simp: feed_def split: if_splits)
  then show ?thesis using feed_run [OF assms(3), of addr] step_feed by auto
next
  case step_dial
  then obtain a q where "addrQueue s = a # q" by (cases "addrQueue s") (auto simp: genTcp_def)
  from genTcp_run [OF assms(2,3) this] step_dial show ?thesis by auto
next
  case (step_beat i)
  then show ?thesis using on_client_run [of beat, OF aloof_beat assms(3), of i] by auto
next
  case (step_say i)
  then show ?thesis using on_client_run [of "say E", OF aloof_say assms(3), of i] by auto
next
  case (step_hear i ev)
  then show ?thesis using on_client_run [of "hear ev", OF aloof_hear assms(3), of i] by auto
qed

lemma bench_run_dialling:
  assumes "(bench_step E addr)\<^sup>*\<^sup>* s t" "reads_ok E" "dialling la tot s"
  shows "dialling la tot t"
  using assms(1) by (induction rule: rtranclp_induct) (use assms(2,3) bench_step_dialling in blast)+

lemma MakeConn_run:
  assumes s: "addrQueue s = []" "wg_count s = 0" "conns_made s = 0" "fail s = 0" "clients s = []"
    and n: "0 \<le> tot" "la = [] \<or> tot \<le> 65435"
  shows "\<exists>t. MakeConn la addr tot hb mg ms s = Ret True t \<and> dialling la (nat tot) t"
proof (cases "la = []")
  case True
  then show ?thesis using s n
    by (auto simp: MakeConn_def recovering_def upd_si_def on_os_def Println_def wg_Add_def dialling_def go_defs)
next
  case False
  then obtain ps where "fill_ports tot = Some ps" "length ps = nat (tot + 100)" using n by (auto simp: fill_ports_def)
  then show ?thesis using s n False
    by (auto simp: MakeConn_def recovering_def upd_si_def on_os_def Println_def wg_Add_def dialling_def go_defs nat_add_distrib)
qed


text \<open>
  With a local address there must be at most 65435 connections: the ports are put into a
  channel of 65535 places, one for each connection and 100 more, before a goroutine that
  takes them out is started, and \<open>MakeConn\<close> never gets to the start.
\<close>

theorem makeconn_blocks:
  assumes "la \<noteq> []" "65435 < tot"
  shows "\<exists>t. MakeConn la addr tot hb mg ms s = Ret False t \<and> clients t = clients s \<and> unsent t = unsent s"
  using assms by (auto simp: MakeConn_def recovering_def fill_ports_def upd_si_def on_os_def Println_def go_defs)

text \<open>
  The message goroutines never choose the client that registered last, and with one
  registered client the choice panics, which \<open>rand\<close> recovers.
\<close>

theorem rand_never_last:
  "si_inv x \<Longrightarrow> uidArr x = us @ [u] \<Longrightarrow> si_rand k v x \<noteq> u \<or> u = []"
proof (rule disjCI, rule notI)
  assume x: "si_inv x" "uidArr x = us @ [u]" and u: "u \<noteq> []" and eq: "si_rand k v x = u"
  obtain i where "uidMap x u = Some i" "i < length us" using si_rand_registered [OF x(1), of k v] eq u x(2) by auto
  moreover have "uidMap x u = Some (length us)" using x u unfolding si_inv_def by simp
  ultimately show False by simp
qed

subsection \<open>An example\<close>

definition sample_mkenv :: "(mem, unit) mkenv" where
  "sample_mkenv = boot_env.extend (sample_benv (\<lambda>_. None))
     (bench_env.fields (\<lambda>n a. if n = 0 then None else Some ''refused'') (\<lambda>n l r. Some ''refused'') Some
       (\<lambda>n. ReadErr ''EOF'') (\<lambda>n. n) 4)"

definition sample_bench :: "mem bench_state" where
  "sample_bench = proc_state.extend sample_proc
     (bench_state.fields newSessionIndex [] 0 50 5 0 [] [] [] False [] False 0 0 0 0)"


end
