(* ===== verification/Program.thy ===== *)
theory Program
  imports Commands Bench_Run
begin

text \<open>
  The program as it is started from the command line: \<open>init\<close> and \<open>main\<close> of \<^verbatim>\<open>main.go\<close> with the
  part of the vendored \<^verbatim>\<open>urfave/cli\<close> that chooses the command and handles its error.

  The parsing of the arguments by Go's \<^verbatim>\<open>flag\<close> package is a parameter: its result is a
  usage error, a request the library answers itself (the flags and the command for help,
  and the flag for the version), or the context with the values of the flags and the
  remaining arguments.  The texts the library prints come with it.
\<close>

datatype parsed = Usage string string | Answered string | Parsed cli_context

datatype action = A_sara | A_vsn | A_stop | A_setupConf | A_makeconnForTest | A_pprofForDebug

record command =
  Name :: string
  cFlags :: "flag list"
  Action :: action

definition app_Commands :: "command list" where
  "app_Commands =
     [\<lparr>Name = ''version'', cFlags = [], Action = A_vsn\<rparr>,
      \<lparr>Name = ''stop'', cFlags = [], Action = A_stop\<rparr>,
      \<lparr>Name = ''setup'', cFlags = [\<lparr>fName = ''out,o'', fValue = FString ''/etc/sara/conf.json''\<rparr>], Action = A_setupConf\<rparr>,
      \<lparr>Name = ''makeconn'', cFlags = InitFlagsForTestOfMakeConn, Action = A_makeconnForTest\<rparr>,
      \<lparr>Name = ''pprof'', cFlags = [], Action = A_pprofForDebug\<rparr>]"

definition app_Before :: "('r, 'e) mkenv \<Rightarrow> cli_context \<Rightarrow> ('r, 'z, unit) bench_op" where
  "app_Before E ctx =
     whenM (GlobalBool ctx ''debug'')
       (seqM (on_os (startCpuProfiles (sys E))) (seqM (on_os startMemProfiles) (on_os startBlockProfile)))"

text \<open>\<open>MakeConn\<close> does not return; the model's part of it ends where it waits for its goroutines.\<close>

definition makeconnForTest :: "cli_context \<Rightarrow> ('r, 'z, string option) bench_op" where
  "makeconnForTest ctx =
     (let l = CtxString ctx ''laddr''; a = CtxString ctx ''raddr''; t = CtxInt ctx ''total'';
          h = CtxInt ctx ''heartbeat''; mg = CtxInt ctx ''messagegap''; ms = CtxInt ctx ''messagesize''
      in seqM (MakeConn l a t h mg ms) (returnM None))"

definition run_action :: "('r, 'e) mkenv \<Rightarrow> cli_context \<Rightarrow> action \<Rightarrow> ('r, 'z, string option) bench_op" where
  "run_action E ctx a =
     (case a of
        A_sara \<Rightarrow> seqM (sara E ctx) (returnM None)
      | A_vsn \<Rightarrow> on_os vsn
      | A_stop \<Rightarrow> on_os (stop (sys E))
      | A_setupConf \<Rightarrow> on_os (setupConf (sys E) (CtxString ctx ''out''))
      | A_makeconnForTest \<Rightarrow> makeconnForTest ctx
      | A_pprofForDebug \<Rightarrow> on_os (pprofForDebug (sys E)))"

text \<open>An error of an action is printed and ends the process with status 1.\<close>

definition HandleExitCoder :: "string option \<Rightarrow> ('r, 'z, unit) bench_op" where
  "HandleExitCoder err =
     (case err of
        None \<Rightarrow> returnM ()
      | Some e \<Rightarrow> seqM (whenM (e \<noteq> []) (on_os (Eprint e))) (modifyM (\<lambda>s. s\<lparr>exited := True\<rparr>)))"

definition app_Command :: "string \<Rightarrow> command option" where
  "app_Command name = find (\<lambda>c. Name c = name) app_Commands"

definition chosen :: "cli_context \<Rightarrow> action" where
  "chosen ctx =
     (case Args ctx of
        [] \<Rightarrow> A_sara
      | name # _ \<Rightarrow> (case app_Command name of None \<Rightarrow> A_sara | Some c \<Rightarrow> Action c))"

definition app_Run :: "('r, 'e) mkenv \<Rightarrow> parsed \<Rightarrow> ('r, 'z, string option) bench_op" where
  "app_Run E args =
     (case args of
        Usage err help \<Rightarrow> seqM (on_os (Println ''Incorrect Usage.'')) (seqM (on_os (Println help)) (returnM (Some err)))
      | Answered help \<Rightarrow> seqM (on_os (Println help)) (returnM None)
      | Parsed ctx \<Rightarrow>
          seqM (app_Before E ctx)
          (bindM (run_action E ctx (chosen ctx)) (\<lambda>err.
           bindM (getsM exited) (\<lambda>over.
           seqM (whenM (\<not> over) (HandleExitCoder err)) (returnM err)))))"

text \<open>Nothing runs any more in a process that has exited.\<close>

definition main :: "('r, 'e) mkenv \<Rightarrow> parsed \<Rightarrow> ('r, 'z, unit) bench_op" where
  "main E args =
     bindM (app_Run E args) (\<lambda>err.
     bindM (getsM exited) (\<lambda>over.
     case err of None \<Rightarrow> returnM () | Some e \<Rightarrow> whenM (\<not> over) (on_os (Println e))))"

subsection \<open>Commands leave the server alone\<close>

lemma on_os_frame: "\<exists>a v. m (os s) = Ret a v \<Longrightarrow> \<exists>a v. on_os m s = Ret a (s\<lparr>os := v\<rparr>)"
  by (auto simp: on_os_def)

lemma os_commands_return:
  "\<exists>a w. vsn o' = Ret a w" "\<exists>a w. stop S o' = Ret a w" "\<exists>a w. setupConf S p o' = Ret a w" "\<exists>a w. pprofForDebug S o' = Ret a w"
  "\<exists>w. startCpuProfiles S o' = Ret () w" "\<exists>w. startMemProfiles o' = Ret () w" "\<exists>w. startBlockProfile o' = Ret () w"
  by (auto simp: vsn_def stop_def setupConf_def pprofForDebug_def startCpuProfiles_def startMemProfiles_def startBlockProfile_def os_defs
      FindProcess_def go_defs split: option.splits sum.splits)

lemma app_Before_run: "\<exists>w. app_Before E ctx s = Ret () (s\<lparr>os := w\<rparr>)"
proof (cases "GlobalBool ctx ''debug''")
  case True
  obtain w1 where w1: "startCpuProfiles (sys E) (os s) = Ret () w1" using os_commands_return(5) by blast
  obtain w2 where w2: "startMemProfiles w1 = Ret () w2" using os_commands_return(6) by blast
  obtain w3 where w3: "startBlockProfile w2 = Ret () w3" using os_commands_return(7) by blast
  show ?thesis using True w1 w2 w3 by (intro exI [of _ w3]) (simp add: app_Before_def whenM_def on_os_def seqM_def bindM_def)
next
  case False
  then show ?thesis by (intro exI [of _ "os s"]) (simp add: app_Before_def whenM_def returnM_def)
qed


text \<open>
  With \<open>debug\<close> every command, not only the server, begins a profile and empties the file of
  the CPU profile, so \<open>pprof\<close>, which asks the server to write it, must be run without it.
\<close>

theorem debug_empties_profile:
  assumes "GlobalBool ctx ''debug''" "create_err (sys E) cpu_log = None"
  shows "\<exists>w. app_Before E ctx s = Ret () (s\<lparr>os := w\<rparr>) \<and> files w cpu_log = Some []"
  using assms
  by (auto simp: app_Before_def whenM_def on_os_def startCpuProfiles_def startMemProfiles_def startBlockProfile_def os_defs go_defs)

text \<open>Any other first argument, and none, starts the server.\<close>

theorem server_by_default:
  assumes "\<And>name rest. Args ctx = name # rest \<Longrightarrow> name \<notin> {''version'', ''stop'', ''setup'', ''makeconn'', ''pprof''}"
  shows "chosen ctx = A_sara"
  using assms by (cases "Args ctx") (auto simp: chosen_def app_Command_def app_Commands_def)


end
