(* ===== verification/Bench_Login.thy ===== *)
theory Bench_Login
  imports Bench_Run
begin

text \<open>
  A client of the load generator and a session of the server: what one writes is what the
  other reads, up to the login.
\<close>

subsection \<open>Identifiers in packets\<close>

text \<open>The generator fills its templates with random identifiers; they need no escaping.\<close>

definition id_text :: "string \<Rightarrow> bool" where
  "id_text s \<longleftrightarrow> set s \<subseteq> set ''-0123456789abcdef''"

definition plain :: "string \<Rightarrow> bool" where
  "plain s \<longleftrightarrow> list_all (\<lambda>c. byte c < 0x80 \<and> escape_ascii c = [c]) s"

lemma plain_append [simp]: "plain (s @ t) \<longleftrightarrow> plain s \<and> plain t"
  by (simp add: plain_def)

lemma id_chars: "list_all (\<lambda>c. byte c < 0x80 \<and> escape_ascii c = [c] \<and> c \<noteq> CHR ''@'' \<and> c \<noteq> CHR ''/'') ''-0123456789abcdef''"
  by code_simp

lemma id_plain: "id_text s \<Longrightarrow> plain s"
  using id_chars unfolding id_text_def plain_def list_all_iff by blast

lemma hex_digit_id: "n < 16 \<Longrightarrow> hex_digit n \<in> set ''-0123456789abcdef''"
proof -
  have "list_all (\<lambda>n. hex_digit n \<in> set ''-0123456789abcdef'') [0..<16]" by code_simp
  then show "n < 16 \<Longrightarrow> ?thesis" unfolding list_all_iff by simp
qed

lemma hex2s_id: "id_text (concat (map hex2 xs))"
proof (induction xs)
  case (Cons x xs)
  then show ?case using hex_digit_id [OF byte_div_16, of x] hex_digit_id [of "byte x mod 16"] by (simp add: id_text_def hex2_def)
qed (simp add: id_text_def)

lemma uuid_text_id: "id_text (uuid_text E n)"
proof -
  have "id_text (s @ ''-'' @ t) \<longleftrightarrow> id_text s \<and> id_text t" for s t by (auto simp: id_text_def)
  then show ?thesis unfolding uuid_text_def Hex_def by (simp add: hex2s_id)
qed

lemma uuid_text_length: "length (uuid_text E n) \<le> 36"
  unfolding uuid_text_def Hex_def by (simp add: min_def)

lemma json_body_plain: "plain s \<Longrightarrow> json_body s = s"
  by (induction s) (simp_all add: plain_def json_body.simps)

lemma quoted_plain: "plain s \<Longrightarrow> quoted s = json_string s"
  by (simp add: quoted_def json_string_def json_body_plain)

lemma utf8_plain: "plain s \<Longrightarrow> utf8_ok s"
  by (rule utf8_ok_ascii) (auto simp: plain_def list_all_iff)

subsection \<open>The login packet\<close>

definition login_members :: "string \<Rightarrow> string \<Rightarrow> (bytes \<times> json) list" where
  "login_members u i = [(''pwd'', JStr ''123''), (''jid'', JStr (u @ ''@a.a'')), (''type'', JNum (dec_nat 0)), (''id'', JStr i)]"

lemma dec_nat_0: "dec_nat 0 = ''0''"
  by code_simp

lemma literals_plain [simp]: "plain ''envelope''" "plain ''pwd''" "plain ''123''" "plain ''jid''" "plain ''@a.a''" "plain ''type''" "plain ''id''"
  "plain ''vsn''" "plain ''0.0.1''" "plain ''entity''" "plain ''result''" "plain ''ok''" "plain ''delay''" "plain ''total''"
  by code_simp+

lemma sfpacket_marshal:
  assumes "plain u" "plain i"
  shows "sfpacket u i = marshal (JObj [(''envelope'', JObj (login_members u i)), (''vsn'', JStr ''0.0.1'')])"
  using assms by (simp add: sfpacket_def login_members_def quoted_plain dec_nat_0)

lemma sfpacket_read:
  assumes "plain u" "plain i"
  shows "NewPacket (sfpacket u i) = Inr (zero_Packet\<lparr>pEnvelope := zero_Envelope\<lparr>ePwd := ''123'', eJid := u @ ''@a.a'', eType := 0, eId := i\<rparr>,
    raw := Some (sfpacket u i)\<rparr>)"
proof -
  let ?ms = "login_members u i"
  have wf: "wf_members ?ms" using assms by (simp add: login_members_def utf8_plain)
  have "Get (sfpacket u i) [''envelope''] = \<lparr>rType = TJSON, rRaw = marshal (JObj ?ms), rStr = []\<rparr>"
    unfolding sfpacket_marshal [OF assms] using Get_first [of "''envelope''" "JObj ?ms"] wf by (simp add: utf8_plain del: marshal.simps)
  moreover have "json_parse (marshal (JObj ?ms)) = Some (JObj ?ms)" using wf by (intro json_parse_marshal) simp
  moreover have "decode_struct decode_envelope_member (JObj ?ms) zero_Envelope =
      (zero_Envelope\<lparr>ePwd := ''123'', eJid := u @ ''@a.a'', eType := 0, eId := i\<rparr>, True)"
    by (simp add: login_members_def decode_envelope_fields del: dec_nat.simps)
  ultimately show ?thesis
    by (simp add: NewPacket_def Exists_def unmarshal_struct_def del: decode_struct.simps marshal.simps)
qed

text \<open>The server's reader takes exactly this packet from what the client writes.\<close>

lemma plain_chars: "plain s \<Longrightarrow> c \<in> set s \<Longrightarrow> 0x20 \<le> byte c"
  unfolding plain_def list_all_iff escape_ascii_def by (fastforce split: if_splits)

lemma sfpacket_chars: "plain u \<Longrightarrow> plain i \<Longrightarrow> c \<in> set (sfpacket u i) \<Longrightarrow> 0x20 \<le> byte c"
  unfolding sfpacket_def quoted_def by (auto simp: QUOTE_def dest: plain_chars)

lemma sfpacket_framed:
  assumes "plain u" "plain i" "tcp_recv NewTcpSessionConn [ReadData (sfpacket u i @ [CHR 0x01])] = (cbs, c)"
  shows "received cbs = [sfpacket u i] \<and> tc_part c = []"
proof -
  let ?p = "sfpacket u i"
  have "c \<noteq> END_FLAG \<and> c \<noteq> NUL" if "c \<in> set ?p" for c
    using sfpacket_chars [OF assms(1,2) that] by (auto simp: END_FLAG_def NUL_def)
  moreover have "?p \<noteq> []" "hd ?p = CHR ''{''" by (simp_all add: sfpacket_def)
  ultimately show ?thesis
    by (intro framing_roundtrip [of "[?p]" "[?p @ [CHR 0x01]]"])
      (use assms(3) in \<open>auto simp: encode_frames_def good_read_def END_FLAG_def NUL_def\<close>)
qed

subsection \<open>The answer\<close>

definition ok_answer :: "string \<Rightarrow> bytes" where
  "ok_answer i = ToJson (login_answer i (Inr ([], [])))"

lemma ok_answer_marshal:
  "ok_answer i = marshal (JObj [(''envelope'', JObj [(''id'', JStr i), (''type'', JNum (dec_nat 0))]),
     (''entity'', JObj [(''result'', JStr ''ok'')]), (''delay'', JObj [(''total'', JNum (dec_nat 0))])])"
  by (simp add: ok_answer_def login_answer_def AddDelay_def NewPacketAuthSuccess_def newPacketWithEntity_def zero_Packet_def zero_Envelope_def
      ToJson_def packet_json_def base_fields_def envelope_json_def entity_json_def delay_json_def str_field_def uint_field_def msg_type_defs
      del: marshal.simps)

lemma ok_answer_length: "plain i \<Longrightarrow> length i \<le> 36 \<Longrightarrow> length (ok_answer i) < 256"
  by (simp add: ok_answer_marshal json_string_def json_body_plain dec_nat_0)

lemma ok_answer_result: "plain i \<Longrightarrow> Get (ok_answer i) [''entity'', ''result''] = result_of (JStr ''ok'')"
  unfolding ok_answer_marshal by (rule Get_nested [where ms = "[(''result'', JStr ''ok'')]"]) (simp_all add: utf8_plain)

text \<open>A user who has no stored messages.\<close>

lemma fetch_nothing:
  assumes db: "redis_db E view" and u: "NewJID (Jid (st (me u))) = Inr j"
    and none: "\<not> is_str (view (redis u)) (offline_key j @ IDX_SUFFIX)" "hash_of (view (redis u)) (offline_key j @ IDX_SUFFIX) = Map.empty"
    and f: "fetchOfflinePacket E u = Ret a (u\<lparr>redis := r\<rparr>)"
  shows "a = Inr ([], [])"
proof -
  obtain r where "GetByIdx E (offline_key j) u = Ret (Inr []) (u\<lparr>redis := r\<rparr>)"
    using GetByIdx_values [OF db, of u "offline_key j"] none by auto
  then have "fetchOfflinePacket E u = Ret (Inr ([], [])) (u\<lparr>redis := r\<rparr>)"
    using u by (simp add: fetchOfflinePacket_def steps NewJID_Inr_ptr bindM_Ret_step returnM_def)
  then show ?thesis using f by simp
qed

text \<open>The client that reads the answer is registered and starts its goroutines.\<close>

lemma client_start_ok:
  assumes c: "cconn c = new_conn TCP" and i: "i = uuid_text B (rand_n w)" and r: "first_read B n = ReadData (ok_answer i @ [END_FLAG])"
  shows "\<exists>d v. client_start B n c w = Ret d v \<and> c_sent (cconn d) = [sfpacket (uid c) i @ [CHR 0x01]] \<and>
    cstate d = ''ok'' \<and> running d \<and> uidMap (si v) (uid c) \<noteq> None"
proof -
  let ?data = "sfpacket (uid c) i @ [CHR 0x01]" and ?w = "w\<lparr>rand_n := Suc (rand_n w)\<rparr>"
  have p: "plain i" "length i \<le> 36" unfolding i using id_plain [OF uuid_text_id] uuid_text_length by blast+
  have buf: "take 256 (ok_answer i @ [END_FLAG]) = ok_answer i @ [END_FLAG]" using ok_answer_length [OF p] by simp
  have res: "ResultString (float_text B) (Get (ok_answer i) [''entity'', ''result'']) = ''ok''"
    using ok_answer_result [OF p(1)] by (simp add: ResultString_def)
  have cn: "conn_write ?data (cconn c) = ((new_conn TCP)\<lparr>c_sent := [?data]\<rparr>, int (length ?data), None)"
    by (simp add: c conn_write_def new_conn_def)
  have "client_start B n c w = Ret (c\<lparr>cstate := ''ok'', cconn := (new_conn TCP)\<lparr>c_sent := [?data]\<rparr>, reader := NewTcpSessionConn,
      running := True, talks := (length (content w) > 0)\<rparr>) (?w\<lparr>si := si_add (uid c) (si w)\<rparr>)"
    unfolding client_start_def
    by (rule bindM_RetI, rule uuid_run)
      (simp add: cn r buf i [symmetric] Let_def res upd_si_def seqM_modifyM bindM_getsM returnM_def del: take_append)
  then show ?thesis by (auto simp: si_add_def)
qed

text \<open>
  C28: A client of the load generator logs in to the server.  The bytes the client writes are
  read by the server as one packet; the server's session, if the callback service accepts
  the client's name and the password of the template, is then logged in and registered
  under the client's address; and when the client, a new user without stored messages,
  reads the one message the server has written, it is in the state \<^verbatim>\<open>ok\<close>, entered in the
  index and its goroutines run.
\<close>

theorem bench_client_logs_in:
  fixes s :: "('r, 'z) sess_state_scheme" and w :: "('q, 'y) bench_state_scheme"
  assumes c: "id_text (uid c)" "cconn c = new_conn TCP"
    and j: "j = \<lparr>user = uid c, domain = ''a.a'', resource = []\<rparr>" and db: "redis_db E view" and s: "sc (me s) = Some (new_conn TCP)"
      "length (routerItemCh s) < ROUTER_QUEUE_SIZE"
    and auth: "\<And>r q. \<exists>v. Auth E (uid c) ''123'' (s\<lparr>redis := r, routerItemCh := q\<rparr>) = Ret True v"
    and wf: "wf_status ((st (me s))\<lparr>Jid := bare j, Status := STATUS_LOGIN, Ct := time_at E (clock_n s) div 1000000000\<rparr>)"
    and keys: "\<not> is_str (view (redis s)) (Nodeid (st (me s)) @ IDX_SUFFIX)" "Nodeid (st (me s)) @ IDX_SUFFIX \<noteq> session_key j"
      "\<not> is_str (view (redis s)) (offline_key j @ IDX_SUFFIX)" "hash_of (view (redis s)) (offline_key j @ IDX_SUFFIX) = Map.empty"
    and i: "i = uuid_text B (rand_n w)"
  shows "received (fst (tcp_recv NewTcpSessionConn [ReadData (sfpacket (uid c) i @ [CHR 0x01])])) = [sfpacket (uid c) i] \<and>
    (\<exists>t d. openSession E (sfpacket (uid c) i) s = Ret () t \<and> Status (st (me t)) = STATUS_LOGIN \<and>
       registry (view (redis t)) (uid c @ ''@a.a'') = Some (st (me t)) \<and> sc (me t) = Some ((new_conn TCP)\<lparr>c_sent := [d]\<rparr>) \<and>
       (first_read B n = ReadData d \<longrightarrow>
          (\<exists>c' v. client_start B n c w = Ret c' v \<and> c_sent (cconn c') = [sfpacket (uid c) i @ [CHR 0x01]] \<and>
             cstate c' = ''ok'' \<and> running c' \<and> uidMap (si v) (uid c) \<noteq> None)))"
proof -
  let ?p = "sfpacket (uid c) i" and ?b = "uid c @ ''@a.a''"
  have pl: "plain (uid c)" "plain i" unfolding i using id_plain c(1) uuid_text_id by blast+
  have "CHR ''@'' \<notin> set (uid c)" using c(1) unfolding id_text_def by auto
  then have wfj: "wf_jid j" "bare j = ?b" by (simp_all add: j wf_jid_def bare_def)
  then have jid: "NewJID ?b = Inr j" using NewJID_bare [of j] by (simp add: j)
  note read = sfpacket_read [OF pl]
  obtain t a r and u :: "('r, 'z) sess_state_scheme" where t: "openSession E ?p s = Ret () t"
    "st (me t) = (st (me s))\<lparr>Jid := ?b, Status := STATUS_LOGIN, Ct := time_at E (clock_n s) div 1000000000\<rparr>"
    "registry (view (redis t)) = (registry (view (redis s)))(bare j \<mapsto> st (me t))"
    "sc (me t) = Some (after_send (ToJson (login_answer i a)) (new_conn TCP))"
    "fetchOfflinePacket E u = Ret a (u\<lparr>redis := r\<rparr>)" "Jid (st (me u)) = ?b" "view (redis u) = view (redis s)"
    by (rule login_run [OF db s(2) read, of j "new_conn TCP"])
      (use jid auth s(1) wf wfj(2) keys(1,2) in \<open>simp_all add: zero_Envelope_def zero_Packet_def msg_type_defs j\<close>)
  have "a = Inr ([], [])" by (rule fetch_nothing [OF db _ _ _ t(5)]) (use t(6,7) jid keys(3,4) in simp_all)
  then have d: "sc (me t) = Some ((new_conn TCP)\<lparr>c_sent := [ok_answer i @ [END_FLAG]]\<rparr>)"
    using t(4) by (simp add: ok_answer_def after_send_def new_conn_def)
  have "received (fst (tcp_recv NewTcpSessionConn [ReadData (?p @ [CHR 0x01])])) = [?p]"
    using sfpacket_framed [OF pl prod.collapse [symmetric]] by simp
  moreover note client_start_ok [OF c(2) i, of n]
  ultimately show ?thesis using t(1-3) d wfj(2) by auto
qed

definition new_client :: client where
  "new_client = \<lparr>uid = ''a1'', cstate = [], cconn = new_conn TCP, reader = NewTcpSessionConn, running = False, talks = False, stopped = False\<rparr>"

theorem bench_client_logs_in_witness:
  "\<exists>t. openSession sample_senv (sfpacket ''a1'' (uuid_text sample_mkenv (rand_n sample_bench))) (sample_state empty_mem fresh_session) = Ret () t \<and>
     Status (st (me t)) = STATUS_LOGIN \<and> registry (mem_view (redis t)) ''a1@a.a'' = Some (st (me t))"
proof -
  let ?s = "sample_state empty_mem fresh_session" and ?j = "\<lparr>user = ''a1'', domain = ''a.a'', resource = []\<rparr>"
  have u: "uid new_client = ''a1''" "cconn new_client = new_conn TCP" by (simp_all add: new_client_def)
  have wf: "wf_status ((st (me ?s))\<lparr>Jid := bare ?j, Status := STATUS_LOGIN, Ct := time_at sample_senv (clock_n ?s) div 1000000000\<rparr>)"
    using login_wf by (simp add: wf_status_def bare_def utf8_ok_ascii)
  have "received (fst (tcp_recv NewTcpSessionConn [ReadData (sfpacket (uid new_client) (uuid_text sample_mkenv (rand_n sample_bench)) @ [CHR 0x01])])) =
      [sfpacket (uid new_client) (uuid_text sample_mkenv (rand_n sample_bench))] \<and>
    (\<exists>t d. openSession sample_senv (sfpacket (uid new_client) (uuid_text sample_mkenv (rand_n sample_bench))) ?s = Ret () t \<and>
       Status (st (me t)) = STATUS_LOGIN \<and>
       registry (mem_view (redis t)) (uid new_client @ ''@a.a'') = Some (st (me t)) \<and> sc (me t) = Some ((new_conn TCP)\<lparr>c_sent := [d]\<rparr>) \<and>
       (first_read sample_mkenv 0 = ReadData d \<longrightarrow>
          (\<exists>c' v. client_start sample_mkenv 0 new_client sample_bench = Ret c' v \<and>
             c_sent (cconn c') = [sfpacket (uid new_client) (uuid_text sample_mkenv (rand_n sample_bench)) @ [CHR 0x01]] \<and>
             cstate c' = ''ok'' \<and> running c' \<and> uidMap (si v) (uid new_client) \<noteq> None)))"
    by (rule bench_client_logs_in [where j = ?j and i = "uuid_text sample_mkenv (rand_n sample_bench)", OF _ u(2) _ mem_db.redis_db_axioms])
      (use wf in \<open>simp_all add: u id_text_def Auth_sample fresh_session_def zero_status_def empty_mem_def hash_of_mem mhash_Nil
        mis_str_def IDX_SUFFIX_def SESSION_PERFIX_def OFFLINE_PERFIX_def bare_def ROUTER_QUEUE_SIZE_def\<close>)
  then show ?thesis by (auto simp: u)
qed

end
