(* ===== verification/Spec2Isabelle.thy ===== *)
theory Spec2Isabelle
  imports Redis_Channel Program Bench_Login
begin

text \<open>
  A verification development for \<^verbatim>\<open>sara\<close>, an instant messaging server written in Go.

  \<^bold>\<open>The program.\<close>  Clients connect over TCP or WebSocket and exchange JSON packets, each ended
  by a control byte.  A session (\<^verbatim>\<open>src/core/session.go\<close>) belongs to a connection: it logs the
  user in, routes packets, keeps packets until the client acknowledges them, and stores
  them when the user goes offline.  The router (\<^verbatim>\<open>src/node/router.go\<close>) brings packets to the
  recipient's session on the same node, or over RPC (\<^verbatim>\<open>src/sararpc\<close>) to the node the recipient
  is on.  Who is online where, and messages for users who are offline, are kept in Redis
  (\<^verbatim>\<open>src/saradb\<close>), written through two queues with a pool of workers.  Logins, group members
  and offline notifications go to a callback service (\<^verbatim>\<open>src/external\<close>).  A small HTTP
  service (\<^verbatim>\<open>src/service\<close>) answers questions of other applications.  The same program holds the
  commands that prepare, stop and profile a server (\<^verbatim>\<open>src/main.go\<close>) and a load generator
  (\<^verbatim>\<open>src/benchmark\<close>).

  \<^bold>\<open>How the code is modelled.\<close>  Structs are records, tagged values datatypes, byte strings
  lists of characters.  An operation is a function from a state to an \<open>outcome\<close>: a result
  and a state, or a panic and the state it happened in, so that a failed type assertion, a
  nil dereference, an index out of range and a send on a closed channel are all values.
  The state of the server is a chain of extensible records, one for each layer
  (\<open>runtime\<close>, \<open>conf_state\<close>, \<open>db_state\<close>, \<open>router_state\<close>, \<open>sess_state\<close>, \<open>rpc_state\<close>,
  \<open>node_state\<close>, \<open>proc_state\<close>, and \<open>bench_state\<close> for the load generator); files, signals and the
  console are the record \<open>os_state\<close> in it; what is outside the program is an environment record built in
  the same way (clock, random bytes, HTTP, the Redis server, peers, sockets).  Session
  objects live on a heap; an operation of a session runs with the session loaded into the
  field \<open>me\<close>.  Goroutines are steps: one round of a worker's loop is one operation, and the
  relations \<open>wb_step\<close>, \<open>node_step\<close> and \<open>bench_step\<close> interleave them freely.

  \<^bold>\<open>The theories.\<close>
  \<^item> \<open>Sara_Prelude\<close>: outcomes, panics, the combinators, the frame rules \<open>keeps\<close>, Go's string
    functions.  \<open>Defines\<close>: \<^verbatim>\<open>core/types/defines.go\<close>.
  \<^item> \<open>Json\<close>, \<open>Gjson\<close>, \<open>Gjson_Printed\<close>: printing and parsing as in \<^verbatim>\<open>encoding/json\<close>, and the
    byte scanner of the vendored \<^verbatim>\<open>gjson\<close>; the scanner finds what a parser finds.
  \<^item> \<open>Jid\<close>, \<open>Packet\<close>: \<^verbatim>\<open>core/types/packet.go\<close>; round trips, and that keys identify users.
  \<^item> \<open>Framing\<close>, \<open>Conn\<close>: \<^verbatim>\<open>core/decoder.go\<close>, \<^verbatim>\<open>core/conn_tcp.go\<close>, \<^verbatim>\<open>core/conn_ws.go\<close>; the reader
    implements splitting the whole stream, with the one exception it has.
  \<^item> \<open>Runtime\<close>, \<open>Config\<close>, \<open>Flags\<close>, \<open>External\<close>: \<^verbatim>\<open>utils\<close>, \<^verbatim>\<open>config/config.go\<close>, \<^verbatim>\<open>external\<close>; what a
    loaded configuration holds and when reading it cannot panic; authentication fails closed.
  \<^item> \<open>Database\<close>, \<open>Write_Buffer\<close>: \<^verbatim>\<open>saradb/database.go\<close>.  \<open>Redis\<close> states the laws of a Redis
    server as the locale \<open>redis_server\<close>, with an in-memory server that satisfies them;
    \<open>Redis_Db\<close> derives the laws of the operations (locale \<open>redis_db\<close>); \<open>Write_Run\<close> shows that
    any interleaving of the workers executes exactly what was queued.
  \<^item> \<open>Session\<close>: \<^verbatim>\<open>core/session.go\<close> and \<^verbatim>\<open>core/cache.go\<close>.  \<open>Session_Frame\<close> is the library of
    frame proofs, a hierarchy of locales; \<open>Session_Inv\<close>, \<open>Session_Close\<close>, \<open>Session_Login\<close>,
    \<open>Session_Routing\<close>, \<open>Group_Chat\<close> are the properties of sessions, \<open>Session_Sample\<close> the
    examples.
  \<^item> \<open>Registry\<close> and \<open>Mailbox\<close>: the two abstractions of the database, a map of online users
    and a map of stored messages, and that the operations implement them across sessions,
    queues and server.
  \<^item> \<open>Rpc\<close>, \<open>Rpc_Pool\<close>: \<^verbatim>\<open>sararpc\<close>, the pool of connections and publishing.
  \<^item> \<open>Node\<close>: \<^verbatim>\<open>node\<close>.  \<open>Node_Inv\<close>: the session table is exact in every reachable state.
    \<open>Node_Run\<close>: delivery within a node, the cleaner, shutdown.
  \<^item> \<open>Service\<close>: \<^verbatim>\<open>service\<close>.  \<open>Os\<close>: files, signals and profiles, and the functions of \<^verbatim>\<open>main.go\<close> that
    need nothing else.  \<open>Boot\<close>: the action of \<^verbatim>\<open>main.go\<close>, \<^verbatim>\<open>node.New\<close>, the constructors.
    \<open>Commands\<close>: the commands and the server together.  \<open>Program\<close>: \<open>init\<close> and \<open>main\<close> with the
    choice of the command by the vendored \<^verbatim>\<open>urfave/cli\<close>.
  \<^item> \<open>Redis_Channel\<close>: \<^verbatim>\<open>saradb/channel.go\<close> with the vendored subscription client \<^verbatim>\<open>radix.v2/pubsub\<close>.
  \<^item> \<open>Benchmark\<close>: \<^verbatim>\<open>benchmark/makeconn.go\<close>.  \<open>Bench_Run\<close>: its index of clients and the dialling.
    \<open>Bench_Login\<close>: a client of it and a session of the server.
  \<^item> This theory: a message from one node to another.

  \<^bold>\<open>What the theorems show.\<close>  Routing does what an abstract description says, and a message
  reaches its recipient on the same node and on another one.  No packet that was not
  acknowledged is lost when a session ends.  There is no login without authentication.
  The packet handler returns whatever a client sends.  A login registers, a close
  unregisters, a start removes what a former run left.  The session table, the pools and
  the queues keep their invariants under every interleaving; the cleaner and the shutdown
  finish.  A configuration the program writes starts a server, the command \<open>stop\<close> stops it, and
  the commands leave everything else alone.  The load generator tries all connections it
  is asked for, and its clients and the server understand each other.  The other theorems
  state where the code does not do what it means to do: panics that end the process, a registration removed by an older session, group messages that
  lose their content, and others.

  \<^bold>\<open>Bounds.\<close>  All functions are total.  The JSON parser recurses on a fuel of twice the
  length of the input, and \<open>Json\<close> proves that no input needs more; the loop of the
  subscription client runs on a fuel of the replies that are left, and each round takes one.  Integers of the protocol
  are unbounded except where a conversion wraps or fails in the code.

  \<^bold>\<open>What is relied on.\<close>  The laws of Redis (\<open>redis_db\<close>), where a property needs them; that
  random identifiers do not repeat (\<open>fresh_ids\<close>), for the session table; for a message
  between nodes, that the peer is reachable; for a generated configuration, that whole
  numbers below two to the power of 53 are exact floats (\<open>floats_exact\<close>); for the load generator,
  that a read returns a byte or an error (\<open>reads_ok\<close>).

  \<^bold>\<open>Not modelled.\<close>  Blocking: a full channel makes a Go sender wait, here the write queues and
  the data queue are unbounded (the router's queue, which refuses when it is full, is
  bounded).  Steps are whole rounds, so data races inside a round and the locks against
  them are not visible; a session's reader starts after the session is complete.  Keys do
  not expire.  Log messages, and the pictographs at the beginning of console messages; TLS,
  HTTP, WebSocket and thrift, which are libraries; the parsing of the command line and the
  texts for help; queries of \<^verbatim>\<open>gjson\<close> other than a path of keys; the interface declarations
  (\<^verbatim>\<open>saradb/interface.go\<close>, \<^verbatim>\<open>sararpc/interface.go\<close>), which have no code of their own.
\<close>

section \<open>A message between two nodes\<close>

lemma NewPacket_raw: "NewPacket b = Inr p \<Longrightarrow> ToJson p = b"
  by (auto simp: NewPacket_def ToJson_def Let_def split: if_splits sum.splits)

text \<open>The sending node: a router worker passes the packet to the node at the item's address.\<close>

lemma router_publishes:
  assumes q: "routerItemCh s = packet_item x p # q" and x: "Channel x \<noteq> []" "Channel x \<noteq> chan_id s"
    and peer: "pool_of (Channel x) s \<noteq> [] \<or> dial E (dials s) (Channel x) = None"
    and ok: "rpc_process E (length (calls s)) (Channel x) (ToJson p) = Inr v"
  shows "\<exists>t. router_worker E s = Ret () t \<and> routerItemCh t = q \<and> calls t = calls s @ [(Channel x, ToJson p)]"
proof -
  let ?a = "Channel x" and ?s = "s\<lparr>routerItemCh := q, rand_n := Suc (rand_n s)\<rparr>"
  obtain sn where sn: "uuid_rand_hex E (s\<lparr>routerItemCh := q\<rparr>) = Ret sn ?s" by (simp add: uuid_rand_hex_def)
  obtain c t where t: "getClient E ?a ?s = Ret (Inr c) t" "calls t = calls s" "routerItemCh t = q"
    using peer by (cases "pool_of ?a ?s") (auto simp: getClient_def newClient_def pool_of_def)
  let ?t = "t\<lparr>calls := calls s @ [(?a, ToJson p)]\<rparr>"
  obtain u where u: "putClient ?a c ?t = Ret () u" "calls u = calls ?t" "routerItemCh u = q"
    using t(3) by (cases "length (pool_of ?a ?t) < PPSize") (simp_all add: putClient_def Let_def)
  have "Call E ?a LICENCE sn (ToJson p) ?s = Ret (Inr v) u"
    using t u(1) ok by (simp add: Call_def rpc_Process_def bindM_def seqM_def returnM_def)
  then have "Publish E ?a (ToJson p) (s\<lparr>routerItemCh := q\<rparr>) = Ret None u"
    using sn x(2) by (simp add: Publish_def GetChannel_def bindM_def getsM_def returnM_def)
  then have "router_worker E s = Ret () u"
    using q x by (simp add: router_worker_def route_item_def GetChannel_def packet_item_def deref_packet_def bindM_def getsM_def liftM_def returnM_def)
  then show ?thesis using u by simp
qed

text \<open>The receiving node: the call queues the content, and the subscriber routes it.\<close>

lemma receives_and_routes:
  assumes db: "redis_db E view" and p: "NewPacket b = Inr p" "eType (pEnvelope p) \<noteq> MSG_TYPE_GROUP_CHAT" "NewJID (eTo (pEnvelope p)) = Inr k"
    and x: "registry (view (redis s)) (bare k) = Some x" and q: "dataCh s = []" "routerItemCh s = []"
  shows "\<exists>u r. Process E l sn b s = Ret (Inr ''success'') u \<and>
    subscriber E u = Ret () (s\<lparr>redis := r, routerItemCh := [packet_item x p]\<rparr>) \<and> view r = view (redis s)"
proof -
  let ?u = "s\<lparr>dataCh := [b]\<rparr>"
  have proc: "Process E l sn b s = Ret (Inr ''success'') ?u"
    using q(1) by (simp add: Process_def Publish_def GetChannel_def go_defs)
  obtain y where y: "str_at (view (redis s)) (session_key k) = Some y" "NewSessionStatusFromJson y = x"
    using x by (auto simp: registry_def)
  obtain r where r: "db_Get E (session_key k) s = Ret (Inr y) (s\<lparr>redis := r\<rparr>)" "view r = view (redis s)"
    using redis_db.db_Get_found [OF db y(1)] by blast
  have same: "s\<lparr>dataCh := []\<rparr> = s" using q(1) by (metis (no_types) rpc_state.surjective rpc_state.update_convs(2))
  have "subscriber E ?u = routePacket E p s"
    using p(1,2) q(1) by (simp add: subscriber_def dataChannelHandler_def same)
  also have "\<dots> = Ret () (s\<lparr>redis := r, routerItemCh := [packet_item x p]\<rparr>)"
    using p(3) r(1) y(2) q(2)
    by (simp add: routePacket_def steps bindM_Ret_step Let_def seqM_Ret_step Route_def ROUTER_QUEUE_SIZE_def packet_item_def returnM_def)
  finally show ?thesis using proc r(2) by blast
qed

text \<open>
  C6: A message for a user on another node arrives.  The packet a client has sent is on the
  router queue of its node \<open>s\<close>, for a session of another node, and that node's answer to
  the call is a success.  Then one round of a router worker passes the packet's bytes to
  the address of the other node.  If the other node \<open>s'\<close> is at this address and has the
  recipient's session, then handling the call with these bytes, one round of the
  subscriber and one round of a router worker there write the packet to the recipient's
  connection and buffer it for acknowledgement; no other session is touched.
\<close>

theorem remote_message_arrives:
  fixes s' :: "('r, 'z) node_state_scheme"
  assumes p: "NewPacket b = Inr p" "eType (pEnvelope p) \<noteq> MSG_TYPE_GROUP_CHAT" "NewJID (eTo (pEnvelope p)) = Inr k"
    and s: "routerItemCh s = packet_item x p # q" "Channel x \<noteq> []" "Channel x \<noteq> chan_id s"
    and peer: "pool_of (Channel x) s \<noteq> [] \<or> dial E (dials s) (Channel x) = None"
      "rpc_process E (length (calls s)) (Channel x) b = Inr v"
    and db: "redis_db E' view" and x: "registry (view (redis s')) (bare k) = Some x" "chan_id s' = Channel x" "sessionMap s' (Sid x) = Some a"
    and T: "heap s' a = Some T" "Status (st T) = STATUS_LOGIN" "NewJID (Jid (st T)) = Inr j" "bare j = bare k" "sc T = Some c"
    and idle: "dataCh s' = []" "routerItemCh s' = []"
  shows "(\<exists>t. router_worker E s = Ret () t \<and> calls t = calls s @ [(Channel x, b)]) \<and>
    (\<exists>u v t. Process E' l sn b s' = Ret (Inr ''success'') u \<and> subscriber E' u = Ret () v \<and> router_worker E' v = Ret () t \<and>
      heap t = (heap s')(a \<mapsto> T\<lparr>pkgBuff := aupd (eId (pEnvelope p)) p (pkgBuff T), sc := Some (after_send b c)\<rparr>))"
proof
  show "\<exists>t. router_worker E s = Ret () t \<and> calls t = calls s @ [(Channel x, b)]"
    using router_publishes [OF s peer(1)] peer(2) unfolding NewPacket_raw [OF p(1)] by blast
next
  obtain u r where u: "Process E' l sn b s' = Ret (Inr ''success'') u"
      "subscriber E' u = Ret () (s'\<lparr>redis := r, routerItemCh := [packet_item x p]\<rparr>)"
    using receives_and_routes [OF db p x(1) idle] by blast
  show "\<exists>u v t. Process E' l sn b s' = Ret (Inr ''success'') u \<and> subscriber E' u = Ret () v \<and> router_worker E' v = Ret () t \<and>
      heap t = (heap s')(a \<mapsto> T\<lparr>pkgBuff := aupd (eId (pEnvelope p)) p (pkgBuff T), sc := Some (after_send b c)\<rparr>)"
    using router_delivers [of "s'\<lparr>redis := r, routerItemCh := [packet_item x p]\<rparr>" a T j c p k x "[]" E'] u T p(3) x NewPacket_raw [OF p(1)]
    by fastforce
qed

definition chat_bytes :: bytes where
  "chat_bytes = ToJson out_packet"

theorem remote_message_arrives_witness:
  "\<exists>t. router_worker sample_renv (two_users\<lparr>chan_id := ''h:9'', routerItemCh := [packet_item online_status
     (zero_Packet\<lparr>pEnvelope := pEnvelope out_packet, raw := Some chat_bytes\<rparr>)]\<rparr>) = Ret () t \<and> calls t = [(''h:1'', chat_bytes)]"
proof -
  let ?p = "zero_Packet\<lparr>pEnvelope := pEnvelope out_packet, raw := Some chat_bytes\<rparr>"
  have p: "NewPacket chat_bytes = Inr ?p"
    unfolding chat_bytes_def
    by (rule NewPacket_reads) (simp_all add: out_packet_def wf_envelope_def zero_Packet_def zero_Envelope_def utf8_ok_ascii)
  have "chat_bytes \<noteq> ''lost''" by (simp add: chat_bytes_def ToJson_def out_packet_def zero_Packet_def packet_json_def)
  moreover have "calls two_users = []" "dataCh two_users = []"
    by (simp_all add: two_users_def sample_node_def rpc_state.defs node_state.defs sample_rstate_def sess_state.defs)
  moreover have "dial sample_renv n y = None" "rpc_process sample_renv n y m = (if m = ''lost'' then Inl ''broken pipe'' else Inr ''success'')"
    "eType (pEnvelope ?p) \<noteq> MSG_TYPE_GROUP_CHAT" for n y m
    by (simp_all add: sample_renv_def out_packet_def zero_Packet_def zero_Envelope_def msg_type_defs)
  ultimately show ?thesis
    using remote_message_arrives [OF p, of "\<lparr>user = ''c'', domain = ''d'', resource = []\<rparr>"
        "two_users\<lparr>chan_id := ''h:9'', routerItemCh := [packet_item online_status ?p]\<rparr>" online_status "[]" sample_renv "''success''"
        sample_renv mem_view two_users 1 other_session "\<lparr>user = ''c'', domain = ''d'', resource = []\<rparr>" "new_conn TCP"] sample_renv_db
    by (simp add: sample_jid bare_def busy_registry)
qed

end
